(* ===== verification/Containers.thy ===== *)
theory Containers
  imports Prelude
begin

text \<open>
  The containers of the program. \<open>BTreeSet\<close> is the strictly increasing list of its
  elements and \<open>BTreeMap\<close> the list of its entries in strictly increasing key order, which
  is the order the code iterates them in. \<open>serde_json::Map\<close> is built with the
  \<open>preserve_order\<close> feature here: entries in insertion order, a repeated key keeping its
  first position and taking the later value. The interfaces the code relies on are locales;
  what it builds on them (loops that insert and reject a repeated key, collecting an iterator
  of entries) is reasoned about once inside each locale.
\<close>

section \<open>Sets\<close>

fun bs_insert :: "'a::linorder \<Rightarrow> 'a list \<Rightarrow> 'a list" where
  "bs_insert x [] = [x]"
| "bs_insert x (y # ys) =
     (if x < y then x # y # ys else if x = y then y # ys else y # bs_insert x ys)"

definition bs_contains :: "'a list \<Rightarrow> 'a \<Rightarrow> bool" where
  "bs_contains s x = List.member s x"

abbreviation increasing :: "'a::linorder list \<Rightarrow> bool" where
  "increasing s \<equiv> sorted_wrt (<) s"

lemma bs_contains_iff [simp]: "bs_contains s x \<longleftrightarrow> x \<in> set s"
  by (simp add: bs_contains_def)

lemma set_bs_insert [simp]: "set (bs_insert x s) = insert x (set s)"
  by (induction s) auto

lemma increasing_bs_insert [simp]: "increasing s \<Longrightarrow> increasing (bs_insert x s)"
  by (induction s) auto

lemma increasing_distinct: "increasing s \<Longrightarrow> distinct s"
  by (induction s) auto

lemma increasing_unique: "increasing s \<Longrightarrow> increasing t \<Longrightarrow> set s = set t \<Longrightarrow> s = t"
  by (meson strict_sorted_equal)

text \<open>
  The loops of the validators that collect keys in a set and reject the second occurrence: each
  element is checked, then its key inserted.
\<close>

fun insert_new_by ::
  "('s \<Rightarrow> 'k \<Rightarrow> bool) \<Rightarrow> ('k \<Rightarrow> 's \<Rightarrow> 's) \<Rightarrow> ('a \<Rightarrow> ('e, unit) result) \<Rightarrow> ('a \<Rightarrow> 'k) \<Rightarrow> ('a \<Rightarrow> 'e) \<Rightarrow>
    'a list \<Rightarrow> 's \<Rightarrow> ('e, 's) result" where
  "insert_new_by mem ins chk key dup [] s = Inr s"
| "insert_new_by mem ins chk key dup (x # xs) s =
     and_then (chk x) (\<lambda>_.
       if mem s (key x) then Inl (dup x)
       else insert_new_by mem ins chk key dup xs (ins (key x) s))"

locale set_interface =
  fixes emp :: 's
    and ins :: "'k \<Rightarrow> 's \<Rightarrow> 's"
    and mem :: "'s \<Rightarrow> 'k \<Rightarrow> bool"
    and elems :: "'s \<Rightarrow> 'k set"
    and wf :: "'s \<Rightarrow> bool"
  assumes wf_emp: "wf emp"
    and elems_emp: "elems emp = {}"
    and wf_ins: "wf s \<Longrightarrow> wf (ins k s)"
    and elems_ins: "wf s \<Longrightarrow> elems (ins k s) = insert k (elems s)"
    and mem_elems: "wf s \<Longrightarrow> mem s k \<longleftrightarrow> k \<in> elems s"
begin

lemma insert_new_ok:
  "wf s \<Longrightarrow> insert_new_by mem ins chk key dup xs s = Inr t \<Longrightarrow>
     wf t \<and> elems t = elems s \<union> key ` set xs \<and> (\<forall>x \<in> set xs. chk x = Inr ()) \<and>
     distinct (map key xs) \<and> elems s \<inter> key ` set xs = {}"
proof (induction xs arbitrary: s)
  case Nil
  then show ?case by simp
next
  case (Cons x xs)
  from Cons.prems have chk: "chk x = Inr ()" and new: "\<not> mem s (key x)"
    and rest: "insert_new_by mem ins chk key dup xs (ins (key x) s) = Inr t"
    by (auto simp: result_simps split: if_splits)
  from Cons.IH[OF wf_ins[OF Cons.prems(1)] rest] Cons.prems(1) chk new
  show ?case by (auto simp: elems_ins mem_elems)
qed

lemma insert_new_succeeds:
  "wf s \<Longrightarrow> (\<forall>x \<in> set xs. chk x = Inr ()) \<Longrightarrow> distinct (map key xs) \<Longrightarrow>
     elems s \<inter> key ` set xs = {} \<Longrightarrow> \<exists>t. insert_new_by mem ins chk key dup xs s = Inr t"
proof (induction xs arbitrary: s)
  case Nil
  then show ?case by simp
next
  case (Cons x xs)
  then have "elems (ins (key x) s) \<inter> key ` set xs = {}"
    by (auto simp: elems_ins)
  with Cons show ?case
    by (auto simp: mem_elems wf_ins)
qed

lemma insert_new_iff:
  assumes "wf s"
  shows "(\<exists>t. insert_new_by mem ins chk key dup xs s = Inr t) \<longleftrightarrow>
    (\<forall>x \<in> set xs. chk x = Inr ()) \<and> distinct (map key xs) \<and> elems s \<inter> key ` set xs = {}"
  using insert_new_ok[OF assms] insert_new_succeeds[OF assms] by meson

lemma elems_fold_ins: "wf s \<Longrightarrow> wf (fold ins ks s) \<and> elems (fold ins ks s) = elems s \<union> set ks"
  by (induction ks arbitrary: s) (auto simp: wf_ins elems_ins)

end

interpretation btree_set: set_interface "[]" bs_insert bs_contains set "increasing"
  by unfold_locales auto

abbreviation insert_new ::
  "('a \<Rightarrow> ('e, unit) result) \<Rightarrow> ('a \<Rightarrow> 'k::linorder) \<Rightarrow> ('a \<Rightarrow> 'e) \<Rightarrow> 'a list \<Rightarrow> 'k list \<Rightarrow> ('e, 'k list) result" where
  "insert_new \<equiv> insert_new_by bs_contains bs_insert"

section \<open>Maps\<close>

lemma map_of_rev_distinct: "distinct (map fst kvs) \<Longrightarrow> map_of (rev kvs) = map_of kvs"
proof (induction kvs)
  case (Cons kv kvs)
  then have "fst kv \<notin> dom (map_of kvs)"
    by (simp add: dom_map_of_conv_image_fst)
  with Cons show ?case
    by (cases kv) (auto simp: map_add_def fun_eq_iff split: option.splits)
qed simp

lemma entries_from_keys:
  "distinct (map fst xs) \<Longrightarrow> xs = map (\<lambda>k. (k, the (map_of xs k))) (map fst xs)"
  by (rule sym) (auto simp: comp_def intro!: map_idI)

text \<open>\<open>collect\<close>: every entry of an iterator inserted in turn.\<close>

definition collect_by :: "('k \<Rightarrow> 'v \<Rightarrow> 'm \<Rightarrow> 'm) \<Rightarrow> 'm \<Rightarrow> ('k \<times> 'v) list \<Rightarrow> 'm" where
  "collect_by put m kvs = fold (\<lambda>(k, v). put k v) kvs m"

lemma collect_by_simps [simp]:
  "collect_by put m [] = m"
  "collect_by put m ((k, v) # kvs) = collect_by put (put k v m) kvs"
  by (simp_all add: collect_by_def)

locale map_interface =
  fixes emp :: 'm
    and put :: "'k \<Rightarrow> 'v \<Rightarrow> 'm \<Rightarrow> 'm"
    and get :: "'m \<Rightarrow> 'k \<Rightarrow> 'v option"
    and wf :: "'m \<Rightarrow> bool"
  assumes wf_emp: "wf emp"
    and get_emp: "get emp = Map.empty"
    and wf_put: "wf m \<Longrightarrow> wf (put k v m)"
    and get_put: "wf m \<Longrightarrow> get (put k v m) = (get m)(k \<mapsto> v)"
begin

lemma collect_wf: "wf m \<Longrightarrow> wf (collect_by put m kvs)"
  by (induction kvs arbitrary: m) (auto simp: wf_put)

lemma collect_get: "wf m \<Longrightarrow> get (collect_by put m kvs) = get m ++ map_of (rev kvs)"
proof (induction kvs arbitrary: m)
  case Nil
  then show ?case by simp
next
  case (Cons kv kvs)
  obtain k v where kv: "kv = (k, v)" by (cases kv)
  have "get (put k v m) = get m ++ [k \<mapsto> v]"
    using Cons.prems by (simp add: get_put)
  with Cons.IH[OF wf_put[OF Cons.prems], of k v]
  show ?case by (simp only: kv collect_by_simps rev.simps map_of_append map_of.simps map_add_assoc
      fst_conv snd_conv)
qed

lemma collect_distinct:
  assumes "distinct (map fst kvs)"
  shows "get (collect_by put emp kvs) = map_of kvs"
proof -
  have "map_of (rev kvs) = map_of kvs"
    using assms by (rule map_of_rev_distinct)
  then show ?thesis by (simp add: collect_get[OF wf_emp] get_emp)
qed

end

text \<open>A map that keeps its entries in key order determines them by what it looks up.\<close>

locale ordered_map_interface = map_interface emp put get wf
  for emp :: 'm and put :: "'k::linorder \<Rightarrow> 'v \<Rightarrow> 'm \<Rightarrow> 'm" and get and wf +
  fixes entries :: "'m \<Rightarrow> ('k \<times> 'v) list"
  assumes entries_get: "wf m \<Longrightarrow> map_of (entries m) = get m"
    and entries_increasing: "wf m \<Longrightarrow> increasing (map fst (entries m))"
begin

lemma entries_determined:
  assumes "wf m" and "wf n" and "get m = get n"
  shows "entries m = entries n"
proof -
  have eq: "map_of (entries m) = map_of (entries n)"
    using assms by (simp add: entries_get)
  then have "set (map fst (entries m)) = set (map fst (entries n))"
    by (metis dom_map_of_conv_image_fst set_map)
  with assms have keys: "map fst (entries m) = map fst (entries n)"
    by (intro increasing_unique entries_increasing)
  have "entries m = map (\<lambda>k. (k, the (map_of (entries m) k))) (map fst (entries m))"
    using assms by (intro entries_from_keys increasing_distinct entries_increasing)
  also have "\<dots> = map (\<lambda>k. (k, the (map_of (entries n) k))) (map fst (entries n))"
    by (simp only: eq keys)
  also have "\<dots> = entries n"
    using assms by (intro entries_from_keys[symmetric] increasing_distinct entries_increasing)
  finally show ?thesis .
qed

end

fun bm_insert :: "'k::linorder \<Rightarrow> 'v \<Rightarrow> ('k \<times> 'v) list \<Rightarrow> ('k \<times> 'v) list" where
  "bm_insert k v [] = [(k, v)]"
| "bm_insert k v ((l, w) # m) =
     (if k < l then (k, v) # (l, w) # m
      else if k = l then (k, v) # m else (l, w) # bm_insert k v m)"

abbreviation bm_wf :: "('k::linorder \<times> 'v) list \<Rightarrow> bool" where
  "bm_wf m \<equiv> increasing (map fst m)"

lemma keys_bm_insert [simp]: "map fst (bm_insert k v m) = bs_insert k (map fst m)"
  by (induction k v m rule: bm_insert.induct) auto

lemma map_of_bm_insert [simp]: "bm_wf m \<Longrightarrow> map_of (bm_insert k v m) = (map_of m)(k \<mapsto> v)"
  by (induction k v m rule: bm_insert.induct) (auto simp: fun_upd_twist)

interpretation btree_map: ordered_map_interface "[]" bm_insert map_of bm_wf "\<lambda>m. m"
  by unfold_locales auto

fun im_insert :: "'k \<Rightarrow> 'v \<Rightarrow> ('k \<times> 'v) list \<Rightarrow> ('k \<times> 'v) list" where
  "im_insert k v [] = [(k, v)]"
| "im_insert k v ((l, w) # m) = (if k = l then (l, v) # m else (l, w) # im_insert k v m)"

lemma keys_im_insert: "fst ` set (im_insert k v m) = insert k (fst ` set m)"
  by (induction k v m rule: im_insert.induct) auto

lemma distinct_im_insert: "distinct (map fst m) \<Longrightarrow> distinct (map fst (im_insert k v m))"
  by (induction k v m rule: im_insert.induct) (auto simp: keys_im_insert)

lemma map_of_im_insert [simp]: "map_of (im_insert k v m) = (map_of m)(k \<mapsto> v)"
  by (induction k v m rule: im_insert.induct) (auto simp: fun_upd_twist)

lemma im_insert_new: "k \<notin> fst ` set m \<Longrightarrow> im_insert k v m = m @ [(k, v)]"
  by (induction k v m rule: im_insert.induct) auto

interpretation index_map: map_interface "[]" im_insert map_of "\<lambda>m. distinct (map fst m)"
  by unfold_locales (auto simp: distinct_im_insert)

abbreviation im_collect :: "('k \<times> 'v) list \<Rightarrow> ('k \<times> 'v) list" where
  "im_collect \<equiv> collect_by im_insert []"

abbreviation bm_collect :: "('k::linorder \<times> 'v) list \<Rightarrow> ('k \<times> 'v) list" where
  "bm_collect \<equiv> collect_by bm_insert []"

lemma collect_im_append:
  "distinct (map fst (m @ kvs)) \<Longrightarrow> collect_by im_insert m kvs = m @ kvs"
proof (induction kvs arbitrary: m)
  case (Cons kv kvs)
  obtain k v where "kv = (k, v)" by (cases kv)
  with Cons.IH[of "m @ [(k, v)]"] Cons.prems show ?case
    by (auto simp: im_insert_new)
qed simp

text \<open>Collecting entries whose keys are distinct keeps them as they are.\<close>

lemma im_collect_distinct: "distinct (map fst kvs) \<Longrightarrow> im_collect kvs = kvs"
  by (simp add: collect_im_append)

text \<open>Collecting entries that are already in key order keeps them as they are.\<close>

lemma bm_collect_sorted: "bm_wf kvs \<Longrightarrow> bm_collect kvs = kvs"
  using btree_map.entries_determined[of "bm_collect kvs" kvs]
  by (simp add: btree_map.collect_wf btree_map.collect_distinct increasing_distinct)

end
