(* ===== verification/Json_Value.thy ===== *)
theory Json_Value
  imports Containers "HOL-Library.Multiset"
begin

text \<open>
  The JSON values of \<open>serde_json\<close>. An object holds its entries in insertion order
  (\<open>preserve_order\<close>), a number the text it prints as. \<open>sort_json\<close>, which the graph
  and the lowering crate both define, puts every object of a value in key order.
\<close>

datatype json =
    JNull
  | JBool bool
  | JNumber string
  | JString string
  | JArray "json list"
  | JObject "(string \<times> json) list"

lemma zip_left_size [termination_simp]:
  "(a, b) \<in> set (zip xs ys) \<Longrightarrow> size a < Suc (size_list size xs)"
  by (induction xs ys rule: list_induct2') auto

fun sort_json :: "json \<Rightarrow> json" where
  "sort_json (JObject m) =
     JObject (im_collect (map (\<lambda>(k, v). (k, sort_json v)) (sort_key fst m)))"
| "sort_json (JArray xs) = JArray (map sort_json xs)"
| "sort_json v = v"

text \<open>The invariant of every value: no object repeats a key.\<close>

fun json_wf :: "json \<Rightarrow> bool" where
  "json_wf (JObject m) \<longleftrightarrow> distinct (map fst m) \<and> list_all (\<lambda>(k, v). json_wf v) m"
| "json_wf (JArray xs) \<longleftrightarrow> list_all json_wf xs"
| "json_wf v \<longleftrightarrow> True"

fun json_sorted :: "json \<Rightarrow> bool" where
  "json_sorted (JObject m) \<longleftrightarrow> increasing (map fst m) \<and> list_all (\<lambda>(k, v). json_sorted v) m"
| "json_sorted (JArray xs) \<longleftrightarrow> list_all json_sorted xs"
| "json_sorted v \<longleftrightarrow> True"

text \<open>
  Equality of values: objects compare by key, whatever the order of their entries, arrays by
  position.
\<close>

fun json_equal :: "json \<Rightarrow> json \<Rightarrow> bool" where
  "json_equal (JObject m) w \<longleftrightarrow>
     (case w of
        JObject n \<Rightarrow> fst ` set m = fst ` set n \<and>
          list_all (\<lambda>(k, v). case map_of n k of None \<Rightarrow> False | Some u \<Rightarrow> json_equal v u) m
      | _ \<Rightarrow> False)"
| "json_equal (JArray xs) w \<longleftrightarrow>
     (case w of
        JArray ys \<Rightarrow> length xs = length ys \<and> list_all (\<lambda>(x, y). json_equal x y) (zip xs ys)
      | _ \<Rightarrow> False)"
| "json_equal v w \<longleftrightarrow> v = w"

text \<open>The member of a value at a path of object keys.\<close>

fun json_at :: "json \<Rightarrow> string list \<Rightarrow> json option" where
  "json_at v [] = Some v"
| "json_at (JObject m) (k # ks) = (case map_of m k of None \<Rightarrow> None | Some v \<Rightarrow> json_at v ks)"
| "json_at v (k # ks) = None"

section \<open>Sorting a value\<close>

lemma distinct_sort_key: "distinct (map fst (sort_key fst m)) \<longleftrightarrow> distinct (map fst m)"
proof -
  have "mset (map fst (sort_key fst m)) = mset (map fst m)"
    by (simp add: mset_map)
  then show ?thesis by (metis mset_eq_imp_distinct_iff)
qed

lemma fst_entry [simp]: "fst \<circ> (\<lambda>(k, v). (k, f v)) = fst"
  by auto

lemma map_of_entries: "map_of (map (\<lambda>(k, v). (k, f v)) m) k = map_option f (map_of m k)"
  by (induction m) auto

lemma map_of_sort_key:
  "distinct (map fst m) \<Longrightarrow> map_of (sort_key fst m) = map_of m"
  by (rule map_of_inject_set[THEN iffD2]) (auto simp: distinct_sort_key)

lemma increasing_sort_key: "distinct (map fst m) \<Longrightarrow> increasing (map fst (sort_key fst m))"
  using distinct_sort_key[of m] by (simp add: strict_sorted_iff)

lemma sort_json_object:
  "distinct (map fst m) \<Longrightarrow>
   sort_json (JObject m) = JObject (map (\<lambda>(k, v). (k, sort_json v)) (sort_key fst m))"
  by (simp add: im_collect_distinct distinct_sort_key)

lemma sort_json_sorted: "json_wf v \<Longrightarrow> json_sorted (sort_json v)"
proof (induction v rule: sort_json.induct)
  case (1 m)
  then show ?case
    by (auto simp: sort_json_object increasing_sort_key list_all_iff simp del: sort_json.simps)
qed (auto simp: list_all_iff)

lemma sort_json_wf: "json_wf v \<Longrightarrow> json_wf (sort_json v)"
proof (induction v rule: sort_json.induct)
  case (1 m)
  then show ?case
    by (auto simp: sort_json_object distinct_sort_key list_all_iff simp del: sort_json.simps)
qed (auto simp: list_all_iff)

lemma sort_json_at:
  "json_wf v \<Longrightarrow> json_at (sort_json v) ks = map_option sort_json (json_at v ks)"
proof (induction v ks rule: json_at.induct)
  case (2 m k ks)
  then have "map_of (sort_key fst m) = map_of m"
    by (simp add: map_of_sort_key)
  with 2 show ?case
    by (auto simp: sort_json_object map_of_entries list_all_iff simp del: sort_json.simps
        split: option.splits dest!: map_of_SomeD)
qed auto

lemma sort_json_id: "json_sorted v \<Longrightarrow> sort_json v = v"
proof (induction v rule: sort_json.induct)
  case (1 m)
  then have "distinct (map fst m)" and "sort_key fst m = m"
    by (auto simp: increasing_distinct strict_sorted_iff sorted_sort_id intro: sort_key_id_if_sorted)
  with 1 show ?case
    by (auto simp: sort_json_object list_all_iff simp del: sort_json.simps intro!: map_idI)
qed (auto simp: list_all_iff intro!: map_idI)

text \<open>Sorted, two values are identical exactly when they are equal as values.\<close>

lemma entries_equal_iff:
  assumes "increasing (map fst m)" and "increasing (map fst n)"
  shows "m = n \<longleftrightarrow> (fst ` set m = fst ` set n \<and> (\<forall>(k, v) \<in> set m. map_of n k = Some v))"
    (is "_ \<longleftrightarrow> ?same")
proof
  assume "m = n"
  then show ?same
    using assms(2) by (auto dest!: increasing_distinct)
next
  assume same: ?same
  have "map_of m = map_of n"
  proof
    fix k
    show "map_of m k = map_of n k"
    proof (cases "map_of m k")
      case None
      then have "k \<notin> fst ` set n" using same by (simp add: map_of_eq_None_iff)
      with None show ?thesis by (simp add: map_of_eq_None_iff[symmetric])
    next
      case (Some v)
      then have "(k, v) \<in> set m" by (rule map_of_SomeD)
      with same Some show ?thesis by auto
    qed
  qed
  then show "m = n"
    using assms by (auto intro: btree_map.entries_determined)
qed

lemma sort_json_canonical:
  "json_wf v \<Longrightarrow> json_wf w \<Longrightarrow> json_equal v w \<longleftrightarrow> sort_json v = sort_json w"
proof (induction v w rule: json_equal.induct)
  case (1 m w)
  show ?case
  proof (cases w)
    case (JObject n)
    let ?f = "map (\<lambda>(k, v). (k, sort_json v))"
    from 1 JObject have dist: "distinct (map fst m)" "distinct (map fst n)"
      and wf: "\<forall>(k, v) \<in> set m. json_wf v" "\<forall>(k, v) \<in> set n. json_wf v"
      by (auto simp: list_all_iff)
    have step: "(case map_of n k of None \<Rightarrow> False | Some u \<Rightarrow> json_equal v u)
        \<longleftrightarrow> map_of (?f (sort_key fst n)) k = Some (sort_json v)" if "(k, v) \<in> set m" for k v
    proof (cases "map_of n k")
      case None
      with dist show ?thesis by (simp add: map_of_entries map_of_sort_key)
    next
      case (Some u)
      then have "json_wf u" and "json_wf v"
        using wf that by (auto dest!: map_of_SomeD)
      then have "json_equal v u \<longleftrightarrow> sort_json v = sort_json u"
        using "1.IH"[OF JObject that refl Some] by simp
      with Some dist show ?thesis by (auto simp: map_of_entries map_of_sort_key)
    qed
    have "sort_json (JObject m) = sort_json w \<longleftrightarrow> ?f (sort_key fst m) = ?f (sort_key fst n)"
      using dist by (simp add: JObject sort_json_object del: sort_json.simps)
    also have "\<dots> \<longleftrightarrow> fst ` set m = fst ` set n \<and>
        (\<forall>(k, v) \<in> set m. map_of (?f (sort_key fst n)) k = Some (sort_json v))"
      using dist
      by (subst entries_equal_iff)
        (auto simp: increasing_sort_key image_image case_prod_beta)
    also have "\<dots> \<longleftrightarrow> json_equal (JObject m) w"
      using step by (auto simp: JObject list_all_iff)
    finally show ?thesis by simp
  qed auto
next
  case (2 xs w)
  show ?case
  proof (cases w)
    case (JArray ys)
    have item: "json_equal x y \<longleftrightarrow> sort_json x = sort_json y" if "(x, y) \<in> set (zip xs ys)" for x y
      using "2.IH"[OF JArray that refl] "2.prems" JArray set_zip_leftD[OF that] set_zip_rightD[OF that]
      by (simp add: list_all_iff)
    have "(\<forall>(x, y) \<in> set (zip xs ys). json_equal x y) \<longleftrightarrow>
        (\<forall>(x, y) \<in> set (zip xs ys). sort_json x = sort_json y)"
      using item by blast
    then show ?thesis
      by (auto simp: JArray list_all_iff list_eq_iff_zip_eq[of "map sort_json xs"] zip_map_map)
  qed auto
qed (case_tac w; auto)+

section \<open>Property\<close>

text \<open>Sorting the keys of every object gives a canonical form: two values of documents
  without repeated keys are equal as \<open>serde_json\<close> compares them, whatever the order of their
  keys, exactly when they sort to the same value.\<close>

lemma sort_json_decides_equal:
  assumes "json_wf v" and "json_wf w"
  shows "json_equal v w \<longleftrightarrow> sort_json v = sort_json w"
  using assms by (rule sort_json_canonical)

lemma sort_json_decides_equal_witness:
  "sort_json (JObject [(''b'', JNull), (''a'', JArray [JBool True])]) =
   sort_json (JObject [(''a'', JArray [JBool True]), (''b'', JNull)])"
  by (subst sort_json_decides_equal[symmetric]) auto

end
