(* ===== verification/Graph_IR.thy ===== *)
theory Graph_IR
  imports Json_Value
begin

text \<open>
  The data model of \<open>crates/graph-ir/src/lib.rs\<close>: addresses and their text form,
  expressions, the specifications a graph document is made of, the references and secrets an
  expression mentions, the dependency edges of a document and the resolution of stack
  references.
\<close>

section \<open>Addresses\<close>

datatype address =
    Resource string string
  | DataSource string string

instantiation address :: linorder
begin

fun less_address :: "address \<Rightarrow> address \<Rightarrow> bool" where
  "less_address (Resource t n) (Resource u m) \<longleftrightarrow> t < u \<or> t = u \<and> n < m"
| "less_address (Resource t n) (DataSource u m) \<longleftrightarrow> True"
| "less_address (DataSource t n) (Resource u m) \<longleftrightarrow> False"
| "less_address (DataSource t n) (DataSource u m) \<longleftrightarrow> t < u \<or> t = u \<and> n < m"

definition less_eq_address :: "address \<Rightarrow> address \<Rightarrow> bool" where
  "less_eq_address a b \<longleftrightarrow> a = b \<or> a < b"

instance
proof
  fix a b c :: address
  show "(a < b) = (a \<le> b \<and> \<not> b \<le> a)"
    by (cases a; cases b) (auto simp: less_eq_address_def)
  show "a \<le> a" by (simp add: less_eq_address_def)
  show "a \<le> c" if "a \<le> b" and "b \<le> c"
    using that by (cases a; cases b; cases c) (auto simp: less_eq_address_def)
  show "a = b" if "a \<le> b" and "b \<le> a"
    using that by (cases a; cases b) (auto simp: less_eq_address_def)
  show "a \<le> b \<or> b \<le> a"
    by (cases a; cases b) (auto simp: less_eq_address_def)
qed

end

fun valid_identifier :: "string \<Rightarrow> bool" where
  "valid_identifier [] = False"
| "valid_identifier (first # rest) =
     ((first = CHR ''_'' \<or> is_ascii_alphabetic first) \<and>
      list_all (\<lambda>c. c = CHR ''_'' \<or> c = CHR ''-'' \<or> is_ascii_alphanumeric c) rest)"

fun valid_environment_name :: "string \<Rightarrow> bool" where
  "valid_environment_name [] = False"
| "valid_environment_name (first # rest) =
     ((first = CHR ''_'' \<or> is_ascii_alphabetic first) \<and>
      list_all (\<lambda>c. c = CHR ''_'' \<or> is_ascii_alphanumeric c) rest)"

definition parse_address :: "string \<Rightarrow> (string, address) result" where
  "parse_address value =
     (case split_on (CHR ''.'') value of
        [resource_type, name] \<Rightarrow>
          if valid_identifier resource_type \<and> valid_identifier name
          then Inr (Resource resource_type name) else Inl value
      | [d, data_source_type, name] \<Rightarrow>
          if d = ''data'' \<and> valid_identifier data_source_type \<and> valid_identifier name
          then Inr (DataSource data_source_type name) else Inl value
      | _ \<Rightarrow> Inl value)"

fun display_address :: "address \<Rightarrow> string" where
  "display_address (Resource resource_type name) = resource_type @ ''.'' @ name"
| "display_address (DataSource data_source_type name) =
     ''data.'' @ data_source_type @ ''.'' @ name"

fun is_resource :: "address \<Rightarrow> bool" where
  "is_resource (Resource _ _) = True"
| "is_resource (DataSource _ _) = False"

fun valid_address :: "address \<Rightarrow> bool" where
  "valid_address (Resource t n) \<longleftrightarrow> valid_identifier t \<and> valid_identifier n"
| "valid_address (DataSource t n) \<longleftrightarrow> valid_identifier t \<and> valid_identifier n"

lemma dot_is_no_name_character [simp]:
  "\<not> is_ascii_alphabetic (CHR ''.'')" "\<not> is_ascii_alphanumeric (CHR ''.'')"
  by (simp_all add: string_simps)

lemma list_all_not_mem: "list_all P xs \<Longrightarrow> \<not> P x \<Longrightarrow> x \<notin> set xs"
  by (auto simp: list_all_iff)

lemma valid_identifier_no_dot: "valid_identifier s \<Longrightarrow> CHR ''.'' \<notin> set s"
proof (cases s)
  case (Cons first rest)
  assume "valid_identifier s"
  then have first: "first = CHR ''_'' \<or> is_ascii_alphabetic first"
    and rest: "list_all (\<lambda>c. c = CHR ''_'' \<or> c = CHR ''-'' \<or> is_ascii_alphanumeric c) rest"
    by (simp_all add: Cons)
  from rest have "CHR ''.'' \<notin> set rest"
    by (rule list_all_not_mem) simp
  moreover from first have "first \<noteq> CHR ''.''"
    by (rule contrapos_pn) simp
  ultimately show ?thesis by (simp add: Cons)
qed simp

lemma display_address_join:
  "display_address (Resource t n) = join ''.'' [t, n]"
  "display_address (DataSource t n) = join ''.'' [''data'', t, n]"
  by simp_all

lemma split_display_address:
  assumes "valid_address a"
  shows "split_on (CHR ''.'') (display_address a) =
     (case a of Resource t n \<Rightarrow> [t, n] | DataSource t n \<Rightarrow> [''data'', t, n])"
proof (cases a)
  case (Resource t n)
  with assms have "CHR ''.'' \<notin> set t" and "CHR ''.'' \<notin> set n"
    by (simp_all add: valid_identifier_no_dot)
  then have "split_on (CHR ''.'') (join ''.'' [t, n]) = [t, n]"
    by (intro split_on_join) auto
  with Resource show ?thesis by simp
next
  case (DataSource t n)
  with assms have "CHR ''.'' \<notin> set t" and "CHR ''.'' \<notin> set n"
    by (simp_all add: valid_identifier_no_dot)
  then have "split_on (CHR ''.'') (join ''.'' [''data'', t, n]) = [''data'', t, n]"
    by (intro split_on_join) auto
  with DataSource show ?thesis by simp
qed

lemma parse_display: "valid_address a \<Longrightarrow> parse_address (display_address a) = Inr a"
  by (cases a) (auto simp: parse_address_def split_display_address simp del: display_address.simps)

lemma parse_address_ok:
  assumes "parse_address s = Inr a"
  shows "display_address a = s \<and> valid_address a"
proof -
  have s: "s = join ''.'' (split_on (CHR ''.'') s)"
    by (simp add: join_split_on)
  from assms show ?thesis
    by (subst (1) s) (auto simp: parse_address_def split: list.splits if_splits)
qed

section \<open>Expressions\<close>

datatype expr =
    Literal json
  | ResourceAttr address "string list"
  | DataSourceAttr address "string list"
  | Array "expr list"
  | Object "(string \<times> expr) list"
  | Index expr expr
  | Attribute expr string
  | Splat expr
  | Conditional expr expr expr
  | Function string "expr list"
  | Template "template_part list"
  | SecretEnv string
  | UnsafeRaw string
and template_part =
    TextPart string
  | Interpolation expr

text \<open>\<open>Expr::references\<close> inserts into a set passed by reference; the model returns it.\<close>

fun references :: "expr \<Rightarrow> address list \<Rightarrow> address list" where
  "references (ResourceAttr address path) refs = bs_insert address refs"
| "references (DataSourceAttr address path) refs = bs_insert address refs"
| "references (Array items) refs = fold references items refs"
| "references (Object fields) refs = fold (\<lambda>(_, value). references value) fields refs"
| "references (Index collection key) refs = references key (references collection refs)"
| "references (Attribute e name) refs = references e refs"
| "references (Splat e) refs = references e refs"
| "references (Conditional condition when_true when_false) refs =
     references when_false (references when_true (references condition refs))"
| "references (Function name args) refs = fold references args refs"
| "references (Template parts) refs =
     fold (\<lambda>part refs. case part of Interpolation e \<Rightarrow> references e refs | TextPart _ \<Rightarrow> refs)
       parts refs"
| "references (Literal value) refs = refs"
| "references (SecretEnv name) refs = refs"
| "references (UnsafeRaw text) refs = refs"

fun collect_secret_environment_names :: "expr \<Rightarrow> string list \<Rightarrow> string list" where
  "collect_secret_environment_names (SecretEnv name) names = bs_insert name names"
| "collect_secret_environment_names (Array items) names =
     fold collect_secret_environment_names items names"
| "collect_secret_environment_names (Object fields) names =
     fold (\<lambda>(_, value). collect_secret_environment_names value) fields names"
| "collect_secret_environment_names (Index collection key) names =
     collect_secret_environment_names key (collect_secret_environment_names collection names)"
| "collect_secret_environment_names (Attribute e name) names =
     collect_secret_environment_names e names"
| "collect_secret_environment_names (Splat e) names = collect_secret_environment_names e names"
| "collect_secret_environment_names (Conditional condition when_true when_false) names =
     collect_secret_environment_names when_false
       (collect_secret_environment_names when_true
         (collect_secret_environment_names condition names))"
| "collect_secret_environment_names (Function name args) names =
     fold collect_secret_environment_names args names"
| "collect_secret_environment_names (Template parts) names =
     fold (\<lambda>part names.
         case part of Interpolation e \<Rightarrow> collect_secret_environment_names e names | TextPart _ \<Rightarrow> names)
       parts names"
| "collect_secret_environment_names (Literal value) names = names"
| "collect_secret_environment_names (ResourceAttr address path) names = names"
| "collect_secret_environment_names (DataSourceAttr address path) names = names"
| "collect_secret_environment_names (UnsafeRaw text) names = names"

text \<open>What the two traversals collect, stated on the expression alone: its subexpressions.\<close>

fun subexprs :: "expr \<Rightarrow> expr set" where
  "subexprs (Array items) = insert (Array items) (\<Union> (subexprs ` set items))"
| "subexprs (Object fields) = insert (Object fields) (\<Union> ((\<lambda>(_, e). subexprs e) ` set fields))"
| "subexprs (Index c k) = insert (Index c k) (subexprs c \<union> subexprs k)"
| "subexprs (Attribute e n) = insert (Attribute e n) (subexprs e)"
| "subexprs (Splat e) = insert (Splat e) (subexprs e)"
| "subexprs (Conditional c t f) =
     insert (Conditional c t f) (subexprs c \<union> subexprs t \<union> subexprs f)"
| "subexprs (Function n args) = insert (Function n args) (\<Union> (subexprs ` set args))"
| "subexprs (Template parts) =
     insert (Template parts)
       (\<Union> ((\<lambda>p. case p of Interpolation e \<Rightarrow> subexprs e | TextPart _ \<Rightarrow> {}) ` set parts))"
| "subexprs e = {e}"

fun own_refs :: "expr \<Rightarrow> address set" where
  "own_refs (ResourceAttr a path) = {a}"
| "own_refs (DataSourceAttr a path) = {a}"
| "own_refs _ = {}"

fun own_secrets :: "expr \<Rightarrow> string set" where
  "own_secrets (SecretEnv n) = {n}"
| "own_secrets _ = {}"

definition refs_of :: "expr \<Rightarrow> address set" where
  "refs_of e = (\<Union>x \<in> subexprs e. own_refs x)"

definition secrets_of :: "expr \<Rightarrow> string set" where
  "secrets_of e = (\<Union>x \<in> subexprs e. own_secrets x)"

lemma UN_part:
  "(\<Union>x \<in> (case p of Interpolation e \<Rightarrow> A e | TextPart _ \<Rightarrow> {}). f x) =
   (case p of Interpolation e \<Rightarrow> (\<Union>x \<in> A e. f x) | TextPart _ \<Rightarrow> {})"
  by (cases p) auto

lemma set_fold_insert:
  "(\<And>x s. x \<in> set xs \<Longrightarrow> set (f x s) = g x \<union> set s) \<Longrightarrow> set (fold f xs s) = (\<Union>x \<in> set xs. g x) \<union> set s"
proof (induction xs arbitrary: s)
  case (Cons x xs)
  then have "set (fold f xs (f x s)) = (\<Union>x \<in> set xs. g x) \<union> (g x \<union> set s)"
    by (metis list.set_intros)
  then show ?case by auto
qed simp

lemma increasing_fold:
  "(\<And>x s. x \<in> set xs \<Longrightarrow> increasing s \<Longrightarrow> increasing (f x s)) \<Longrightarrow> increasing s \<Longrightarrow> increasing (fold f xs s)"
  by (induction xs arbitrary: s) auto

lemma refs_of_simps [simp]:
  "refs_of (ResourceAttr a p) = {a}"
  "refs_of (DataSourceAttr a p) = {a}"
  "refs_of (Array items) = (\<Union>e \<in> set items. refs_of e)"
  "refs_of (Object fields) = (\<Union>f \<in> set fields. refs_of (snd f))"
  "refs_of (Index c k) = refs_of c \<union> refs_of k"
  "refs_of (Attribute e n) = refs_of e"
  "refs_of (Splat e) = refs_of e"
  "refs_of (Conditional c t f) = refs_of c \<union> refs_of t \<union> refs_of f"
  "refs_of (Function n args) = (\<Union>e \<in> set args. refs_of e)"
  "refs_of (Template parts) = (\<Union>p \<in> set parts. case p of Interpolation e \<Rightarrow> refs_of e | TextPart _ \<Rightarrow> {})"
  "refs_of (Literal val) = {}"
  "refs_of (SecretEnv n) = {}"
  "refs_of (UnsafeRaw raw) = {}"
  unfolding refs_of_def by (simp_all add: UN_part case_prod_beta Un_assoc)

lemma secrets_of_simps [simp]:
  "secrets_of (ResourceAttr a p) = {}"
  "secrets_of (DataSourceAttr a p) = {}"
  "secrets_of (Array items) = (\<Union>e \<in> set items. secrets_of e)"
  "secrets_of (Object fields) = (\<Union>f \<in> set fields. secrets_of (snd f))"
  "secrets_of (Index c k) = secrets_of c \<union> secrets_of k"
  "secrets_of (Attribute e n) = secrets_of e"
  "secrets_of (Splat e) = secrets_of e"
  "secrets_of (Conditional c t f) = secrets_of c \<union> secrets_of t \<union> secrets_of f"
  "secrets_of (Function n args) = (\<Union>e \<in> set args. secrets_of e)"
  "secrets_of (Template parts) =
     (\<Union>p \<in> set parts. case p of Interpolation e \<Rightarrow> secrets_of e | TextPart _ \<Rightarrow> {})"
  "secrets_of (Literal val) = {}"
  "secrets_of (SecretEnv n) = {n}"
  "secrets_of (UnsafeRaw raw) = {}"
  unfolding secrets_of_def by (simp_all add: UN_part case_prod_beta Un_assoc)

lemma set_references [simp]: "set (references e s) = refs_of e \<union> set s"
proof (induction e s rule: references.induct)
  case (3 items s)
  then show ?case by (auto simp: set_fold_insert[where g = refs_of])
next
  case (4 fields s)
  then have "set (fold (\<lambda>(_, value). references value) fields s) = (\<Union>f \<in> set fields. refs_of (snd f)) \<union> set s"
    by (intro set_fold_insert) (auto simp: case_prod_beta)
  then show ?case by simp
next
  case (9 n args s)
  then show ?case by (auto simp: set_fold_insert[where g = refs_of])
next
  case (10 parts s)
  then have "set (fold (\<lambda>part refs. case part of Interpolation e \<Rightarrow> references e refs | TextPart _ \<Rightarrow> refs) parts s)
      = (\<Union>p \<in> set parts. case p of Interpolation e \<Rightarrow> refs_of e | TextPart _ \<Rightarrow> {}) \<union> set s"
    by (intro set_fold_insert) (auto split: template_part.splits)
  then show ?case by simp
qed auto

lemma increasing_references [simp]: "increasing s \<Longrightarrow> increasing (references e s)"
proof (induction e s rule: references.induct)
  case (4 fields s)
  then show ?case by (auto intro!: increasing_fold simp: case_prod_beta)
next
  case (10 parts s)
  then show ?case by (auto intro!: increasing_fold split: template_part.splits)
qed (auto intro!: increasing_fold)

lemma set_collect_secrets [simp]:
  "set (collect_secret_environment_names e s) = secrets_of e \<union> set s"
proof (induction e s rule: collect_secret_environment_names.induct)
  case (2 items s)
  then show ?case by (auto simp: set_fold_insert[where g = secrets_of])
next
  case (3 fields s)
  then have "set (fold (\<lambda>(_, value). collect_secret_environment_names value) fields s)
      = (\<Union>f \<in> set fields. secrets_of (snd f)) \<union> set s"
    by (intro set_fold_insert) (auto simp: case_prod_beta)
  then show ?case by simp
next
  case (8 n args s)
  then show ?case by (auto simp: set_fold_insert[where g = secrets_of])
next
  case (9 parts s)
  then have "set (fold (\<lambda>part names.
        case part of Interpolation e \<Rightarrow> collect_secret_environment_names e names | TextPart _ \<Rightarrow> names) parts s)
      = (\<Union>p \<in> set parts. case p of Interpolation e \<Rightarrow> secrets_of e | TextPart _ \<Rightarrow> {}) \<union> set s"
    by (intro set_fold_insert) (auto split: template_part.splits)
  then show ?case by simp
qed auto

lemma increasing_collect_secrets [simp]:
  "increasing s \<Longrightarrow> increasing (collect_secret_environment_names e s)"
proof (induction e s rule: collect_secret_environment_names.induct)
  case (3 fields s)
  then show ?case by (auto intro!: increasing_fold simp: case_prod_beta)
next
  case (9 parts s)
  then show ?case by (auto intro!: increasing_fold split: template_part.splits)
qed (auto intro!: increasing_fold)

section \<open>Documents\<close>

type_synonym 'v btree_map = "(string \<times> 'v) list"

record provider_requirement =
  pr_source :: string
  pr_version :: string

record provider_config =
  pc_provider :: string
  pc_alias :: "string option"
  pc_arguments :: "expr btree_map"

record lifecycle =
  create_before_destroy :: bool
  prevent_destroy :: bool
  ignore_changes :: "string list"
  replace_triggered_by :: "address list"

record resource_spec =
  rs_type :: string
  rs_name :: string
  rs_arguments :: "expr btree_map"
  rs_depends_on :: "address list"
  rs_provider :: "string option"
  rs_lifecycle :: "lifecycle option"

record data_source_spec =
  ds_type :: string
  ds_name :: string
  ds_arguments :: "expr btree_map"
  ds_depends_on :: "address list"
  ds_provider :: "string option"

record output_spec =
  os_value :: expr
  os_sensitive :: bool
  os_description :: "string option"

record move_spec =
  move_from :: address
  move_to :: address

record import_spec =
  import_to :: address
  import_id :: string

record stack_reference =
  sr_stack :: string

record graph_document =
  format_version :: string
  required_providers :: "provider_requirement btree_map"
  provider_configs :: "provider_config list"
  resources :: "resource_spec list"
  data_sources :: "data_source_spec list"
  outputs :: "output_spec btree_map"
  moves :: "move_spec list"
  graph_imports :: "import_spec list"
  stack_references :: "stack_reference list"

definition GRAPH_FORMAT_VERSION :: string where
  "GRAPH_FORMAT_VERSION = ''1.0''"

definition REMOTE_STATE_DATA_SOURCE :: string where
  "REMOTE_STATE_DATA_SOURCE = ''terraform_remote_state''"

definition default_graph :: graph_document where
  "default_graph =
     \<lparr>format_version = GRAPH_FORMAT_VERSION, required_providers = [], provider_configs = [],
      resources = [], data_sources = [], outputs = [], moves = [], graph_imports = [],
      stack_references = []\<rparr>"

definition default_lifecycle :: lifecycle where
  "default_lifecycle =
     \<lparr>create_before_destroy = False, prevent_destroy = False, ignore_changes = [],
      replace_triggered_by = []\<rparr>"

definition resource_address :: "resource_spec \<Rightarrow> address" where
  "resource_address r = Resource (rs_type r) (rs_name r)"

definition data_source_address :: "data_source_spec \<Rightarrow> address" where
  "data_source_address d = DataSource (ds_type d) (ds_name d)"

definition stack_reference_address :: "stack_reference \<Rightarrow> address" where
  "stack_reference_address s = DataSource REMOTE_STATE_DATA_SOURCE (sr_stack s)"

text \<open>The values of a map, in key order.\<close>

definition values_of :: "'v btree_map \<Rightarrow> 'v list" where
  "values_of m = map snd m"

lemma set_values_of [simp]: "set (values_of m) = snd ` set m"
  by (simp add: values_of_def)

definition collect_secret_names :: "expr list \<Rightarrow> string list \<Rightarrow> string list" where
  "collect_secret_names expressions names = fold collect_secret_environment_names expressions names"

definition secret_environment_names :: "graph_document \<Rightarrow> string list" where
  "secret_environment_names g =
     (let names = [];
          names = fold (\<lambda>p. collect_secret_names (values_of (pc_arguments p))) (provider_configs g) names;
          names = fold (\<lambda>r. collect_secret_names (values_of (rs_arguments r))) (resources g) names;
          names = fold (\<lambda>d. collect_secret_names (values_of (ds_arguments d))) (data_sources g) names
      in fold (\<lambda>out. collect_secret_environment_names (os_value out)) (values_of (outputs g)) names)"

text \<open>Every expression of a document.\<close>

definition exprs_of :: "graph_document \<Rightarrow> expr set" where
  "exprs_of g =
     (\<Union>p \<in> set (provider_configs g). snd ` set (pc_arguments p)) \<union>
     (\<Union>r \<in> set (resources g). snd ` set (rs_arguments r)) \<union>
     (\<Union>d \<in> set (data_sources g). snd ` set (ds_arguments d)) \<union>
     os_value ` snd ` set (outputs g)"

lemma set_collect_secret_names [simp]:
  "set (collect_secret_names es s) = (\<Union>e \<in> set es. secrets_of e) \<union> set s"
  unfolding collect_secret_names_def by (rule set_fold_insert) simp

lemma increasing_collect_secret_names [simp]:
  "increasing s \<Longrightarrow> increasing (collect_secret_names es s)"
  unfolding collect_secret_names_def by (rule increasing_fold) simp_all

lemma set_secret_environment_names:
  "set (secret_environment_names g) = (\<Union>e \<in> exprs_of g. secrets_of e)"
proof -
  have fold_names: "set (fold (\<lambda>x. collect_secret_names (values_of (f x))) xs s)
      = (\<Union>x \<in> set xs. \<Union>e \<in> snd ` set (f x). secrets_of e) \<union> set s" for f s and xs :: "'b list"
    by (rule set_fold_insert) simp
  have fold_outputs: "set (fold (\<lambda>out. collect_secret_environment_names (os_value out)) xs s)
      = (\<Union>x \<in> set xs. secrets_of (os_value x)) \<union> set s" for s xs
    by (rule set_fold_insert) simp
  show ?thesis
    by (auto simp: secret_environment_names_def Let_def fold_names fold_outputs exprs_of_def)
qed

lemma increasing_secret_environment_names: "increasing (secret_environment_names g)"
  by (auto simp: secret_environment_names_def Let_def intro!: increasing_fold)

end
