(* ===== verification/Depth_First.thy ===== *)
theory Depth_First
  imports Containers
begin

text \<open>
  Depth-first search with cycle detection, as an interface. The program has two such searches:
  \<open>search_cycle\<close> over the dependency edges of a graph document and \<open>visit_stack\<close>
  over the stack references of a project. Both keep a set of finished nodes and the path of open
  ones, report the part of the path that a node met again closes, and add a node to the finished
  ones after its successors. The locale states these equations as laws; what follows from them
  (a reported cycle is one, a search that reports none has seen an acyclic part of the graph
  closed under successors) is proved once.
\<close>

definition is_cycle :: "('n \<Rightarrow> 'n list) \<Rightarrow> 'n list \<Rightarrow> bool" where
  "is_cycle succs c \<longleftrightarrow>
     2 \<le> length c \<and> hd c = last c \<and> successively (\<lambda>x y. y \<in> set (succs x)) c"

definition step_rel :: "('n \<Rightarrow> 'n list) \<Rightarrow> ('n \<times> 'n) set" where
  "step_rel succs = {(x, y). y \<in> set (succs x)}"

definition closed_under :: "('n \<Rightarrow> 'n list) \<Rightarrow> 'n set \<Rightarrow> bool" where
  "closed_under succs A \<longleftrightarrow> (\<forall>x \<in> A. set (succs x) \<subseteq> A)"

definition acyclic_on :: "('n \<Rightarrow> 'n list) \<Rightarrow> 'n set \<Rightarrow> bool" where
  "acyclic_on succs A \<longleftrightarrow> (\<forall>x \<in> A. (x, x) \<notin> (step_rel succs)\<^sup>+)"

lemma successively_trancl:
  "successively (\<lambda>x y. (x, y) \<in> r) (x # ys @ [z]) \<Longrightarrow> (x, z) \<in> r\<^sup>+"
proof (induction ys arbitrary: x)
  case Nil
  then show ?case by auto
next
  case (Cons y ys)
  then have "(x, y) \<in> r" and "(y, z) \<in> r\<^sup>+"
    by auto
  then show ?case by auto
qed

lemma is_cycle_trancl:
  assumes "is_cycle succs c"
  shows "(hd c, hd c) \<in> (step_rel succs)\<^sup>+"
proof -
  from assms obtain x ys where c: "c = x # ys @ [x]"
    unfolding is_cycle_def
    by (metis append_butlast_last_id hd_Cons_tl last.simps length_0_conv length_Cons
        less_eq_Suc_le list.size(3) not_less_eq numeral_2_eq_2 zero_less_Suc last_tl
        tl_append2 length_greater_0_conv)
  with assms have "successively (\<lambda>x y. (x, y) \<in> step_rel succs) (x # ys @ [x])"
    by (simp add: is_cycle_def step_rel_def)
  then show ?thesis by (simp add: c successively_trancl)
qed

lemma closed_under_trancl:
  assumes "closed_under succs A" and "(x, y) \<in> (step_rel succs)\<^sup>+" and "x \<in> A"
  shows "y \<in> A"
  using assms(2,3)
proof (induction rule: trancl_induct)
  case (base y)
  with assms(1) show ?case by (auto simp: closed_under_def step_rel_def)
next
  case (step y z)
  with assms(1) show ?case by (auto simp: closed_under_def step_rel_def)
qed

text \<open>A node all of whose successors are finished, and which is not, lies on no cycle.\<close>

lemma finished_acyclic:
  assumes "closed_under succs A" and "acyclic_on succs A" and "n \<notin> A" and "set (succs n) \<subseteq> A"
  shows "closed_under succs (insert n A)" and "acyclic_on succs (insert n A)"
proof -
  show "closed_under succs (insert n A)"
    using assms by (auto simp: closed_under_def)
  have "(n, n) \<notin> (step_rel succs)\<^sup>+"
  proof
    assume "(n, n) \<in> (step_rel succs)\<^sup>+"
    then obtain m where m: "(n, m) \<in> step_rel succs" and "m = n \<or> (m, n) \<in> (step_rel succs)\<^sup>+"
      by (metis tranclD rtranclD)
    from m assms(4) have "m \<in> A" by (auto simp: step_rel_def)
    with \<open>m = n \<or> _\<close> assms(1,3) show False
      using closed_under_trancl[OF assms(1)] by blast
  qed
  with assms(2) show "acyclic_on succs (insert n A)"
    by (auto simp: acyclic_on_def)
qed

text \<open>A node met again on the path closes a cycle with the part of the path from it on.\<close>

lemma path_closes_cycle:
  assumes "n \<in> set p" and "successively (\<lambda>x y. y \<in> set (succs x)) (p @ [n])"
  shows "is_cycle succs (dropWhile (\<lambda>x. x \<noteq> n) p @ [n])"
proof -
  have "dropWhile (\<lambda>x. x \<noteq> n) p \<noteq> []"
    using assms(1) by (simp add: dropWhile_eq_Nil_conv)
  moreover from this have "hd (dropWhile (\<lambda>x. x \<noteq> n) p) = n"
    using hd_dropWhile by blast
  ultimately obtain q where d: "dropWhile (\<lambda>x. x \<noteq> n) p = n # q"
    by (cases "dropWhile (\<lambda>x. x \<noteq> n) p") auto
  then have q: "p = takeWhile (\<lambda>x. x \<noteq> n) p @ n # q"
    by (metis takeWhile_dropWhile_id)
  have "successively (\<lambda>x y. y \<in> set (succs x)) (takeWhile (\<lambda>x. x \<noteq> n) p @ (n # q @ [n]))"
    using assms(2) q by (metis append.assoc append_Cons)
  then have "successively (\<lambda>x y. y \<in> set (succs x)) (n # q @ [n])"
    by (simp add: successively_append_iff)
  then show ?thesis by (simp add: d is_cycle_def)
qed

locale depth_first =
  fixes nodes :: "'n set"
    and succs :: "'n \<Rightarrow> 'n list"
    and mem :: "'d \<Rightarrow> 'n \<Rightarrow> bool"
    and add :: "'n \<Rightarrow> 'd \<Rightarrow> 'd"
    and elems :: "'d \<Rightarrow> 'n set"
    and inv :: "'d \<Rightarrow> bool"
    and visit :: "'n \<Rightarrow> 'n list \<Rightarrow> 'd \<Rightarrow> ('n list, 'd) result"
    and visit_all :: "'n list \<Rightarrow> 'n list \<Rightarrow> 'd \<Rightarrow> ('n list, 'd) result"
  assumes finite_nodes: "finite nodes"
    and succs_nodes: "n \<in> nodes \<Longrightarrow> set (succs n) \<subseteq> nodes"
    and mem_elems: "mem d n \<longleftrightarrow> n \<in> elems d"
    and elems_add: "elems (add n d) = insert n (elems d)"
    and inv_add: "inv d \<Longrightarrow> n \<notin> elems d \<Longrightarrow> set (succs n) \<subseteq> elems d \<Longrightarrow> inv (add n d)"
    and visit_eq: "n \<in> nodes \<Longrightarrow> visit n p d =
      (if mem d n then Inr d
       else if n \<in> set p then Inl (dropWhile (\<lambda>x. x \<noteq> n) p @ [n])
       else and_then (visit_all (succs n) (p @ [n]) d) (\<lambda>d'. Inr (add n d')))"
    and visit_all_nil: "visit_all [] p d = Inr d"
    and visit_all_cons: "n \<in> nodes \<Longrightarrow>
      visit_all (n # ns) p d = and_then (visit n p d) (visit_all ns p)"
begin

definition ready :: "'n list \<Rightarrow> 'd \<Rightarrow> bool" where
  "ready p d \<longleftrightarrow> set p \<subseteq> nodes \<and> elems d \<subseteq> nodes \<and> elems d \<inter> set p = {} \<and>
     closed_under succs (elems d) \<and> acyclic_on succs (elems d) \<and> inv d"

definition leads_to :: "'n list \<Rightarrow> 'n \<Rightarrow> bool" where
  "leads_to p n \<longleftrightarrow> successively (\<lambda>x y. y \<in> set (succs x)) (p @ [n])"

definition finished :: "'n set \<Rightarrow> 'n list \<Rightarrow> 'd \<Rightarrow> ('n list, 'd) result \<Rightarrow> bool" where
  "finished ns p d r \<longleftrightarrow>
     (case r of Inl c \<Rightarrow> is_cycle succs c
      | Inr d' \<Rightarrow> ready p d' \<and> elems d \<union> ns \<subseteq> elems d')"

lemma visit_all_finished:
  assumes visits: "\<And>n d. n \<in> set ns \<Longrightarrow> ready p d \<Longrightarrow> finished {n} p d (visit n p d)"
    and "ready p d" and "set ns \<subseteq> nodes"
  shows "finished (set ns) p d (visit_all ns p d)"
  using assms
proof (induction ns arbitrary: d)
  case Nil
  then show ?case by (simp add: visit_all_nil finished_def)
next
  case (Cons n ns)
  have first: "finished {n} p d (visit n p d)"
    using Cons.prems by simp
  show ?case
  proof (cases "visit n p d")
    case (Inl c)
    with first Cons.prems show ?thesis
      by (simp add: visit_all_cons finished_def)
  next
    case (Inr d')
    with first have d': "ready p d'" and sub: "insert n (elems d) \<subseteq> elems d'"
      by (auto simp: finished_def)
    then have "finished (set ns) p d' (visit_all ns p d')"
      using Cons by simp
    with Inr sub Cons.prems show ?thesis
      by (auto simp: visit_all_cons finished_def split: sum.splits)
  qed
qed

lemma visit_finished:
  "n \<in> nodes \<Longrightarrow> ready p d \<Longrightarrow> leads_to p n \<Longrightarrow> finished {n} p d (visit n p d)"
proof (induction "card (nodes - set p)" arbitrary: n p d rule: less_induct)
  case less
  consider (old) "n \<in> elems d" | (opened) "n \<notin> elems d" "n \<in> set p"
    | (new) "n \<notin> elems d" "n \<notin> set p"
    by blast
  then show ?case
  proof cases
    case old
    with less.prems show ?thesis
      by (simp add: visit_eq mem_elems finished_def)
  next
    case opened
    with less.prems show ?thesis
      by (simp add: visit_eq mem_elems finished_def leads_to_def path_closes_cycle)
  next
    case new
    have smaller: "card (nodes - set (p @ [n])) < card (nodes - set p)"
      using new less.prems(1) finite_nodes by (intro psubset_card_mono) auto
    have ready': "ready (p @ [n]) d"
      using less.prems new by (simp add: ready_def)
    have sub: "set (succs n) \<subseteq> nodes"
      using less.prems(1) by (rule succs_nodes)
    have step: "finished {m} (p @ [n]) d' (visit m (p @ [n]) d')"
      if "m \<in> set (succs n)" and "ready (p @ [n]) d'" for m d'
      using that sub less.prems(3)
      by (intro less.hyps[OF smaller]) (auto simp: leads_to_def successively_append_iff)
    have all: "finished (set (succs n)) (p @ [n]) d (visit_all (succs n) (p @ [n]) d)"
      using step ready' sub by (rule visit_all_finished)
    show ?thesis
    proof (cases "visit_all (succs n) (p @ [n]) d")
      case (Inl c)
      with all new less.prems(1) show ?thesis
        by (simp add: visit_eq mem_elems finished_def)
    next
      case (Inr d')
      with all have d': "ready (p @ [n]) d'" and sub2: "elems d \<union> set (succs n) \<subseteq> elems d'"
        by (simp_all add: finished_def)
      then have fresh: "n \<notin> elems d'" by (simp add: ready_def)
      have "ready p (add n d')"
        using d' sub2 fresh new less.prems
          finished_acyclic[of succs "elems d'" n] inv_add[of d' n]
        by (simp add: ready_def elems_add)
      with Inr new sub2 less.prems(1) show ?thesis
        by (auto simp: visit_eq mem_elems finished_def elems_add)
    qed
  qed
qed

text \<open>A search from a list of start nodes.\<close>

lemma search_finished:
  assumes "set ns \<subseteq> nodes" and "inv d" and "elems d = {}"
  shows "finished (set ns) [] d (visit_all ns [] d)"
proof (rule visit_all_finished)
  show "ready [] d"
    using assms by (simp add: ready_def closed_under_def acyclic_on_def)
  show "finished {n} [] d' (visit n [] d')" if "n \<in> set ns" and "ready [] d'" for n d'
    using that assms(1) by (intro visit_finished) (auto simp: leads_to_def)
qed (fact assms(1))

lemma search_reports_cycle:
  assumes "set ns \<subseteq> nodes" and "inv d" and "elems d = {}" and "visit_all ns [] d = Inl c"
  shows "is_cycle succs c"
  using search_finished[OF assms(1-3)] assms(4) by (simp add: finished_def)

lemma search_none:
  assumes "set ns \<subseteq> nodes" and "inv d" and "elems d = {}" and "visit_all ns [] d = Inr d'"
  shows "set ns \<subseteq> elems d'" and "elems d' \<subseteq> nodes" and "inv d'"
    and "closed_under succs (elems d')" and "acyclic_on succs (elems d')"
  using search_finished[OF assms(1-3)] assms(3,4) by (simp_all add: finished_def ready_def)

end

end
