(* ===== verification/Graph_Edges.thy ===== *)
theory Graph_Edges
  imports Graph_IR Depth_First
begin

text \<open>
  The dependency edges of a document (\<open>edges\<close>, \<open>add_dependencies\<close>) and the search
  for a cycle among them (\<open>find_cycle\<close>, \<open>search_cycle\<close>) of
  \<open>crates/graph-ir/src/lib.rs\<close>. The search is an instance of the depth-first interface:
  it reports a cycle exactly when the edges have one, and what it reports is one.
\<close>

section \<open>Edges\<close>

datatype dependency = Dependency (dep_from: address) (dep_to: address) (explicit: bool)

instantiation dependency :: linorder
begin

fun less_dependency :: "dependency \<Rightarrow> dependency \<Rightarrow> bool" where
  "less_dependency (Dependency f t e) (Dependency f' t' e') \<longleftrightarrow>
     f < f' \<or> f = f' \<and> (t < t' \<or> t = t' \<and> e < e')"

definition less_eq_dependency :: "dependency \<Rightarrow> dependency \<Rightarrow> bool" where
  "less_eq_dependency a b \<longleftrightarrow> a = b \<or> a < b"

instance
proof
  fix a b c :: dependency
  show "(a < b) = (a \<le> b \<and> \<not> b \<le> a)"
    by (cases a; cases b) (auto simp: less_eq_dependency_def)
  show "a \<le> a" by (simp add: less_eq_dependency_def)
  show "a \<le> c" if "a \<le> b" and "b \<le> c"
    using that by (cases a; cases b; cases c) (auto simp: less_eq_dependency_def)
  show "a = b" if "a \<le> b" and "b \<le> a"
    using that by (cases a; cases b) (auto simp: less_eq_dependency_def)
  show "a \<le> b \<or> b \<le> a"
    by (cases a; cases b) (auto simp: less_eq_dependency_def)
qed

end

definition add_dependencies ::
  "address \<Rightarrow> expr list \<Rightarrow> address list \<Rightarrow> dependency list \<Rightarrow> dependency list" where
  "add_dependencies owner expressions explicit_targets out =
     (let out = fold (\<lambda>e out.
            fold (\<lambda>from. bs_insert (Dependency from owner False)) (references e []) out)
          expressions out
      in fold (\<lambda>from. bs_insert (Dependency from owner True)) explicit_targets out)"

definition triggers_of :: "resource_spec \<Rightarrow> address list" where
  "triggers_of r = (case rs_lifecycle r of None \<Rightarrow> [] | Some l \<Rightarrow> replace_triggered_by l)"

definition edges :: "graph_document \<Rightarrow> dependency list" where
  "edges g =
     (let out = fold (\<lambda>r.
            add_dependencies (resource_address r) (values_of (rs_arguments r))
              (rs_depends_on r @ triggers_of r))
          (resources g) []
      in fold (\<lambda>d.
            add_dependencies (data_source_address d) (values_of (ds_arguments d)) (ds_depends_on d))
          (data_sources g) out)"

text \<open>The edges, stated declaratively.\<close>

definition owner_edges :: "address \<Rightarrow> expr set \<Rightarrow> address set \<Rightarrow> dependency set" where
  "owner_edges owner es targets =
     {Dependency a owner False | a e. e \<in> es \<and> a \<in> refs_of e} \<union> {Dependency a owner True | a. a \<in> targets}"

lemma fold_bs_insert_image: "set (fold (\<lambda>x. bs_insert (f x)) xs s) = f ` set xs \<union> set s"
  by (induction xs arbitrary: s) auto

lemma set_add_dependencies:
  "set (add_dependencies owner es ts s) = owner_edges owner (set es) (set ts) \<union> set s"
proof -
  have "set (fold (\<lambda>e. fold (\<lambda>from. bs_insert (Dependency from owner False)) (references e [])) es s)
      = (\<Union>e \<in> set es. (\<lambda>a. Dependency a owner False) ` refs_of e) \<union> set s"
    by (rule set_fold_insert) (simp add: fold_bs_insert_image)
  then show ?thesis
    by (auto simp: add_dependencies_def Let_def fold_bs_insert_image owner_edges_def)
qed

lemma increasing_fold_bs_insert:
  "increasing s \<Longrightarrow> increasing (fold (\<lambda>x. bs_insert (f x)) xs s)"
  by (rule increasing_fold) simp_all

lemma increasing_add_dependencies:
  "increasing s \<Longrightarrow> increasing (add_dependencies owner es ts s)"
  by (auto simp: add_dependencies_def Let_def intro!: increasing_fold_bs_insert increasing_fold)

lemma set_edges:
  "set (edges g) =
     (\<Union>r \<in> set (resources g). owner_edges (resource_address r) (snd ` set (rs_arguments r))
        (set (rs_depends_on r) \<union> set (triggers_of r))) \<union>
     (\<Union>d \<in> set (data_sources g). owner_edges (data_source_address d) (snd ` set (ds_arguments d))
        (set (ds_depends_on d)))"
proof -
  have data: "set (fold (\<lambda>d. add_dependencies (data_source_address d) (values_of (ds_arguments d))
        (ds_depends_on d)) xs s)
      = (\<Union>d \<in> set xs. owner_edges (data_source_address d) (snd ` set (ds_arguments d))
        (set (ds_depends_on d))) \<union> set s" for xs s
    by (rule set_fold_insert) (simp add: set_add_dependencies)
  have res: "set (fold (\<lambda>r. add_dependencies (resource_address r) (values_of (rs_arguments r))
        (rs_depends_on r @ triggers_of r)) xs s)
      = (\<Union>r \<in> set xs. owner_edges (resource_address r) (snd ` set (rs_arguments r))
        (set (rs_depends_on r) \<union> set (triggers_of r))) \<union> set s" for xs s
    by (rule set_fold_insert) (simp add: set_add_dependencies)
  show ?thesis by (auto simp: edges_def Let_def data res)
qed

lemma increasing_edges: "increasing (edges g)"
  by (auto simp: edges_def Let_def intro!: increasing_fold increasing_add_dependencies)

text \<open>The relation the edges make: a node and one it depends on.\<close>

definition depends :: "dependency set \<Rightarrow> (address \<times> address) set" where
  "depends es = {(dep_to e, dep_from e) | e. e \<in> es}"

section \<open>The search for a cycle\<close>

text \<open>
  \<open>upstream\<close> maps every target of an edge to the sources of its edges, in edge order. In
  \<open>search_cycle\<close> the path is passed by value: the push on entry and the pop on the way out
  are the extension of the argument, and a path is not read again once a cycle is returned. The
  option the code returns is the sum here, \<open>Inl\<close> for a cycle, and \<open>Inr\<close> carries the
  set of finished nodes the code holds by reference.
\<close>

definition push_edge :: "dependency \<Rightarrow> (address \<times> address list) list \<Rightarrow> (address \<times> address list) list" where
  "push_edge e upstream =
     bm_insert (dep_to e)
       ((case map_of upstream (dep_to e) of None \<Rightarrow> [] | Some froms \<Rightarrow> froms) @ [dep_from e]) upstream"

definition upstream_of :: "dependency list \<Rightarrow> (address \<times> address list) list" where
  "upstream_of es = fold push_edge es []"

definition nexts :: "(address \<times> address list) list \<Rightarrow> address \<Rightarrow> address list" where
  "nexts upstream node = (case map_of upstream node of None \<Rightarrow> [] | Some froms \<Rightarrow> froms)"

lemma nexts_key: "nexts upstream node \<noteq> [] \<Longrightarrow> node \<in> fst ` set upstream"
  by (cases "map_of upstream node") (force simp: nexts_def dest!: map_of_SomeD)+

lemma fewer_open_nodes:
  assumes "node \<in> fst ` set upstream" and "node \<notin> set path"
  shows "card (fst ` set upstream - set (path @ [node])) < card (fst ` set upstream - set path)"
  using assms by (intro psubset_card_mono) auto

function (sequential)
  search_cycle :: "(address \<times> address list) list \<Rightarrow> address \<Rightarrow> address list \<Rightarrow> address list \<Rightarrow>
    (address list, address list) result"
  and search_nexts :: "(address \<times> address list) list \<Rightarrow> address list \<Rightarrow> address list \<Rightarrow> address list \<Rightarrow>
    (address list, address list) result"
where
  "search_cycle upstream node path finished =
     (if bs_contains finished node then Inr finished
      else if node \<in> set path then Inl (dropWhile (\<lambda>seen. seen \<noteq> node) path @ [node])
      else and_then (search_nexts upstream (nexts upstream node) (path @ [node]) finished)
        (\<lambda>finished. Inr (bs_insert node finished)))"
| "search_nexts upstream [] path finished = Inr finished"
| "search_nexts upstream (n # ns) path finished =
     and_then (search_cycle upstream n path finished) (search_nexts upstream ns path)"
  by pat_completeness auto
termination
proof (relation "measures
    [case_sum (\<lambda>(up, n, p, d). card (fst ` set up - set p)) (\<lambda>(up, ns, p, d). card (fst ` set up - set p)),
     case_sum (\<lambda>(up, n, p, d). 1) (\<lambda>(up, ns, p, d). 2 * length ns)]", goal_cases)
  case (2 upstream node path finished)
  show ?case
  proof (cases "node \<in> fst ` set upstream")
    case True
    with 2 fewer_open_nodes[of node upstream path] show ?thesis by simp
  next
    case False
    then have "nexts upstream node = []" using nexts_key[of upstream node] by blast
    moreover have "fst ` set upstream - set (path @ [node]) = fst ` set upstream - set path"
      using False by auto
    ultimately show ?thesis by simp
  qed
qed simp_all

declare search_cycle.simps [simp del]

definition find_cycle :: "dependency list \<Rightarrow> address list option" where
  "find_cycle es =
     (let upstream = upstream_of es in
      case search_nexts upstream (map fst upstream) [] [] of Inl cycle \<Rightarrow> Some cycle | Inr _ \<Rightarrow> None)"

section \<open>What the search finds\<close>

definition nodes_of :: "(address \<times> address list) list \<Rightarrow> address set" where
  "nodes_of up = fst ` set up \<union> (\<Union>froms \<in> snd ` set up. set froms)"

lemma set_nexts_nodes: "set (nexts up n) \<subseteq> nodes_of up"
proof (cases "map_of up n")
  case (Some froms)
  then have "(n, froms) \<in> set up" by (rule map_of_SomeD)
  with Some show ?thesis by (force simp: nexts_def nodes_of_def)
qed (simp add: nexts_def)

interpretation cycle_search: depth_first "nodes_of up" "nexts up" bs_contains bs_insert set increasing
    "search_cycle up" "search_nexts up" for up
proof
  show "finite (nodes_of up)" by (simp add: nodes_of_def)
  show "set (nexts up n) \<subseteq> nodes_of up" for n by (rule set_nexts_nodes)
  show "search_cycle up n p d =
      (if bs_contains d n then Inr d
       else if n \<in> set p then Inl (dropWhile (\<lambda>x. x \<noteq> n) p @ [n])
       else and_then (search_nexts up (nexts up n) (p @ [n]) d) (\<lambda>d'. Inr (bs_insert n d')))" for n p d
    by (subst search_cycle.simps) simp
qed simp_all

lemma push_edge_keys: "bm_wf up \<Longrightarrow> bm_wf (push_edge e up)"
  by (simp add: push_edge_def)

lemma push_edge_nexts:
  "bm_wf up \<Longrightarrow> nexts (push_edge e up) n = nexts up n @ (if dep_to e = n then [dep_from e] else [])"
  by (simp add: push_edge_def nexts_def)

lemma fold_push_edge:
  "bm_wf up \<Longrightarrow> bm_wf (fold push_edge es up) \<and>
     nexts (fold push_edge es up) n = nexts up n @ map dep_from (filter (\<lambda>e. dep_to e = n) es)"
  by (induction es arbitrary: up) (simp_all add: push_edge_keys push_edge_nexts)

lemma nexts_upstream: "nexts (upstream_of es) n = map dep_from (filter (\<lambda>e. dep_to e = n) es)"
  using fold_push_edge[of "[]" es n] by (simp add: upstream_of_def nexts_def)

lemma keys_push_edge: "fst ` set (push_edge e up) = insert (dep_to e) (fst ` set up)"
  unfolding push_edge_def by (metis keys_bm_insert list.set_map set_bs_insert)

lemma keys_upstream: "fst ` set (upstream_of es) = dep_to ` set es"
proof -
  have "fst ` set (fold push_edge es up) = dep_to ` set es \<union> fst ` set up" for up
    by (induction es arbitrary: up) (auto simp: keys_push_edge)
  from this[of "[]"] show ?thesis by (simp add: upstream_of_def)
qed

lemma step_rel_upstream: "step_rel (nexts (upstream_of es)) = depends (set es)"
  by (auto simp: step_rel_def depends_def nexts_upstream)

lemma find_cycle_Some:
  assumes "find_cycle es = Some c"
  shows "is_cycle (nexts (upstream_of es)) c"
proof -
  have "search_nexts (upstream_of es) (map fst (upstream_of es)) [] [] = Inl c"
    using assms by (simp add: find_cycle_def Let_def split: sum.splits)
  then show ?thesis
    by (intro cycle_search.search_reports_cycle) (auto simp: nodes_of_def)
qed

lemma find_cycle_None:
  assumes "find_cycle es = None"
  shows "acyclic (depends (set es))"
proof -
  let ?up = "upstream_of es"
  from assms obtain d where d: "search_nexts ?up (map fst ?up) [] [] = Inr d"
    by (auto simp: find_cycle_def Let_def split: sum.splits)
  have keys: "set (map fst ?up) \<subseteq> nodes_of ?up"
    by (auto simp: nodes_of_def)
  have keys_done: "set (map fst ?up) \<subseteq> set d" and acyclic: "acyclic_on (nexts ?up) (set d)"
    using cycle_search.search_none[OF keys _ _ d] by simp_all
  show ?thesis
    unfolding acyclic_def
  proof (intro allI notI)
    fix x
    assume cyc: "(x, x) \<in> (depends (set es))\<^sup>+"
    then obtain y where "(x, y) \<in> depends (set es)"
      by (metis tranclD)
    then have "x \<in> fst ` set ?up"
      by (auto simp: keys_upstream depends_def)
    with keys_done have "x \<in> set d" by auto
    with acyclic cyc show False
      by (simp add: acyclic_on_def step_rel_upstream)
  qed
qed

text \<open>The search is complete and its answer is a cycle of the edges.\<close>

lemma find_cycle_iff: "find_cycle es = None \<longleftrightarrow> acyclic (depends (set es))"
proof
  assume acyclic: "acyclic (depends (set es))"
  show "find_cycle es = None"
  proof (rule ccontr)
    assume "find_cycle es \<noteq> None"
    then obtain c where "find_cycle es = Some c" by auto
    then have "(hd c, hd c) \<in> (depends (set es))\<^sup>+"
      using find_cycle_Some is_cycle_trancl by (metis step_rel_upstream)
    with acyclic show False by (simp add: acyclic_def)
  qed
qed (rule find_cycle_None)

end
