(* ===== verification/Graph_Validate.thy ===== *)
theory Graph_Validate
  imports Graph_Edges
begin

text \<open>
  \<open>GraphDocument::validate\<close> and its helpers of \<open>crates/graph-ir/src/lib.rs\<close>,
  check by check in the order of the code, the errors they return and the documents they
  accept; \<open>dependencies\<close> and \<open>resolve_stack_references\<close>.
\<close>

section \<open>Errors\<close>

datatype validation_error =
    UnsupportedVersion string
  | InvalidIdentifier string string
  | DuplicateAddress address
  | DuplicateProviderConfig string
  | MissingProviderConfig string string
  | InvalidSecretEnvironment string string
  | MissingReference string address
  | ReferenceKind string address
  | SelfDependency address
  | InvalidReplaceTriggeredBy address address
  | Cycle "address list"
  | MissingImportTarget address
  | InvalidImportTarget address
  | DuplicateImportTarget address
  | EmptyImportId address
  | MissingMoveTarget address
  | DuplicateMoveTarget address

type_synonym 'a validated = "(validation_error, 'a) result"

definition render_cycle :: "address list \<Rightarrow> string" where
  "render_cycle nodes = join '' -> '' (map display_address nodes)"

section \<open>The checks\<close>

definition validate_identifier :: "string \<Rightarrow> string \<Rightarrow> unit validated" where
  "validate_identifier path value =
     (if valid_identifier value then Inr () else Inl (InvalidIdentifier path value))"

definition validate_path :: "string \<Rightarrow> string list \<Rightarrow> unit validated" where
  "validate_path owner path = try_each (validate_identifier owner) path"

fun validate_expr_structure :: "string \<Rightarrow> expr \<Rightarrow> unit validated" where
  "validate_expr_structure owner (ResourceAttr address path) =
     (if \<not> is_resource address then Inl (ReferenceKind owner address)
      else validate_path owner path)"
| "validate_expr_structure owner (DataSourceAttr address path) =
     (if is_resource address then Inl (ReferenceKind owner address)
      else validate_path owner path)"
| "validate_expr_structure owner (Array items) = try_each (validate_expr_structure owner) items"
| "validate_expr_structure owner (Object members) =
     try_each (\<lambda>(_, value). validate_expr_structure owner value) members"
| "validate_expr_structure owner (Index collection key) =
     and_then (validate_expr_structure owner collection) (\<lambda>_. validate_expr_structure owner key)"
| "validate_expr_structure owner (Attribute e name) =
     and_then (validate_identifier owner name) (\<lambda>_. validate_expr_structure owner e)"
| "validate_expr_structure owner (Splat e) = validate_expr_structure owner e"
| "validate_expr_structure owner (Conditional condition when_true when_false) =
     and_then (validate_expr_structure owner condition) (\<lambda>_.
       and_then (validate_expr_structure owner when_true) (\<lambda>_.
         validate_expr_structure owner when_false))"
| "validate_expr_structure owner (Function name args) =
     and_then (validate_identifier owner name) (\<lambda>_. try_each (validate_expr_structure owner) args)"
| "validate_expr_structure owner (Template parts) =
     try_each (\<lambda>part. case part of
         Interpolation e \<Rightarrow> validate_expr_structure owner e | TextPart _ \<Rightarrow> Inr ()) parts"
| "validate_expr_structure owner (SecretEnv name) =
     (if \<not> valid_environment_name name then Inl (InvalidSecretEnvironment owner name) else Inr ())"
| "validate_expr_structure owner (Literal value) = Inr ()"
| "validate_expr_structure owner (UnsafeRaw text) = Inr ()"

definition validate_expr :: "string \<Rightarrow> address list \<Rightarrow> expr \<Rightarrow> unit validated" where
  "validate_expr owner addresses e =
     and_then (validate_expr_structure owner e) (\<lambda>_.
       try_each (\<lambda>target. fail_if (\<not> bs_contains addresses target) (MissingReference owner target))
         (references e []))"

definition validate_owner ::
  "address \<Rightarrow> expr list \<Rightarrow> address list \<Rightarrow> address list \<Rightarrow> unit validated" where
  "validate_owner owner expressions explicit_targets addresses =
     and_then (try_each (validate_expr (display_address owner) addresses) expressions) (\<lambda>_.
       try_each (\<lambda>target.
           if target = owner then Inl (SelfDependency owner)
           else fail_if (\<not> bs_contains addresses target)
             (MissingReference (display_address owner) target))
         explicit_targets)"

definition validate_replacement_triggers :: "resource_spec \<Rightarrow> address list \<Rightarrow> unit validated" where
  "validate_replacement_triggers r addresses =
     (case rs_lifecycle r of
        None \<Rightarrow> Inr ()
      | Some l \<Rightarrow>
          try_each (\<lambda>target.
              if \<not> is_resource target then Inl (InvalidReplaceTriggeredBy (resource_address r) target)
              else fail_if (\<not> bs_contains addresses target)
                (MissingReference (display_address (resource_address r)) target))
            (replace_triggered_by l))"

definition provider_address :: "provider_config \<Rightarrow> string" where
  "provider_address p =
     (case pc_alias p of Some alias \<Rightarrow> pc_provider p @ ''.'' @ alias | None \<Rightarrow> pc_provider p)"

text \<open>\<open>str::split_once\<close> at one character.\<close>

definition split_once :: "char \<Rightarrow> string \<Rightarrow> (string \<times> string) option" where
  "split_once d s =
     (if d \<in> set s then Some (takeWhile (\<lambda>c. c \<noteq> d) s, tl (dropWhile (\<lambda>c. c \<noteq> d) s)) else None)"

definition validate_selected_provider ::
  "string \<Rightarrow> string option \<Rightarrow> string list \<Rightarrow> unit validated" where
  "validate_selected_provider owner selected configured =
     (case selected of
        None \<Rightarrow> Inr ()
      | Some provider \<Rightarrow>
          let valid = (case split_once (CHR ''.'') provider of
              Some (local_name, alias) \<Rightarrow> valid_identifier local_name \<and> valid_identifier alias
            | None \<Rightarrow> valid_identifier provider)
          in if \<not> valid \<or> 1 < count_list provider (CHR ''.'')
             then Inl (InvalidIdentifier (owner @ ''.provider'') provider)
             else fail_if (\<not> bs_contains configured provider) (MissingProviderConfig owner provider))"

definition validate_imports :: "graph_document \<Rightarrow> address list \<Rightarrow> unit validated" where
  "validate_imports g addresses =
     and_then
       (insert_new
          (\<lambda>i. if \<not> is_resource (import_to i) then Inl (InvalidImportTarget (import_to i))
               else if \<not> bs_contains addresses (import_to i)
                 then Inl (MissingImportTarget (import_to i))
               else fail_if (blank (import_id i)) (EmptyImportId (import_to i)))
          import_to (\<lambda>i. DuplicateImportTarget (import_to i)) (graph_imports g) [])
       (\<lambda>_. Inr ())"

definition config_path :: "nat \<Rightarrow> string" where
  "config_path index = ''provider_configs['' @ show_nat index @ '']''"

definition collect_configs :: "graph_document \<Rightarrow> string list validated" where
  "collect_configs g =
     insert_new
       (\<lambda>(index, provider).
          and_then (validate_identifier (config_path index @ ''.provider'') (pc_provider provider)) (\<lambda>_.
            case pc_alias provider of
              None \<Rightarrow> Inr ()
            | Some alias \<Rightarrow> validate_identifier (config_path index @ ''.alias'') alias))
       (\<lambda>(_, provider). provider_address provider)
       (\<lambda>(_, provider). DuplicateProviderConfig (provider_address provider))
       (enumerate 0 (provider_configs g)) []"

definition collect_addresses :: "graph_document \<Rightarrow> address list validated" where
  "collect_addresses g =
     and_then
       (insert_new
          (\<lambda>r. and_then (validate_identifier ''resources[].type'' (rs_type r)) (\<lambda>_.
                 validate_identifier ''resources[].name'' (rs_name r)))
          resource_address (\<lambda>r. DuplicateAddress (resource_address r)) (resources g) [])
     (\<lambda>addresses. and_then
       (insert_new
          (\<lambda>d. and_then (validate_identifier ''data_sources[].type'' (ds_type d)) (\<lambda>_.
                 validate_identifier ''data_sources[].name'' (ds_name d)))
          data_source_address (\<lambda>d. DuplicateAddress (data_source_address d)) (data_sources g) addresses)
     (\<lambda>addresses.
        insert_new (\<lambda>s. validate_identifier ''stack_references[].stack'' (sr_stack s))
          stack_reference_address (\<lambda>s. DuplicateAddress (stack_reference_address s))
          (stack_references g) addresses))"

definition validate_nodes :: "graph_document \<Rightarrow> address list \<Rightarrow> string list \<Rightarrow> unit validated" where
  "validate_nodes g addresses configured =
     and_then
       (try_each (\<lambda>r.
           and_then (validate_owner (resource_address r) (values_of (rs_arguments r))
             (rs_depends_on r) addresses) (\<lambda>_.
           and_then (validate_selected_provider (display_address (resource_address r))
             (rs_provider r) configured) (\<lambda>_.
           validate_replacement_triggers r addresses)))
         (resources g))
     (\<lambda>_. and_then
       (try_each (\<lambda>d.
           and_then (validate_owner (data_source_address d) (values_of (ds_arguments d))
             (ds_depends_on d) addresses) (\<lambda>_.
           validate_selected_provider (display_address (data_source_address d))
             (ds_provider d) configured))
         (data_sources g))
     (\<lambda>_. and_then
       (try_each (\<lambda>(name, out). validate_expr (''output.'' @ name) addresses (os_value out))
         (outputs g))
     (\<lambda>_.
        try_each (\<lambda>(index, provider).
            try_each (validate_expr (config_path index) addresses) (values_of (pc_arguments provider)))
          (enumerate 0 (provider_configs g)))))"

definition validate_moves :: "graph_document \<Rightarrow> address list \<Rightarrow> unit validated" where
  "validate_moves g addresses =
     and_then
       (insert_new
          (\<lambda>m. fail_if (\<not> bs_contains addresses (move_to m)) (MissingMoveTarget (move_to m)))
          move_to (\<lambda>m. DuplicateMoveTarget (move_to m)) (moves g) [])
       (\<lambda>_. Inr ())"

definition validate :: "graph_document \<Rightarrow> unit validated" where
  "validate g =
     (if hd (split_on (CHR ''.'') (format_version g)) \<noteq> ''1''
      then Inl (UnsupportedVersion (format_version g))
      else
        and_then (try_each (\<lambda>(name, _). validate_identifier ''required_providers'' name)
          (required_providers g)) (\<lambda>_.
        and_then (collect_configs g) (\<lambda>configured.
        and_then (collect_addresses g) (\<lambda>addresses.
        and_then (validate_nodes g addresses configured) (\<lambda>_.
        and_then (validate_moves g addresses) (\<lambda>_.
        and_then (validate_imports g addresses) (\<lambda>_.
        case find_cycle (edges g) of
          Some cycle \<Rightarrow> Inl (Cycle cycle)
        | None \<Rightarrow> Inr ())))))))"

definition dependencies :: "graph_document \<Rightarrow> dependency list validated" where
  "dependencies g = and_then (validate g) (\<lambda>_. Inr (edges g))"

text \<open>
  The backend of a stack is the caller's: a function that may fail. The references are replaced
  in order, and the first failure ends the loop.
\<close>

definition resolved_data_source :: "string \<Rightarrow> string \<Rightarrow> (string \<times> json) list \<Rightarrow> data_source_spec" where
  "resolved_data_source stack kind config =
     \<lparr>ds_type = REMOTE_STATE_DATA_SOURCE, ds_name = stack,
      ds_arguments = bm_collect [(''backend'', Literal (JString kind)), (''config'', Literal (JObject config))],
      ds_depends_on = [], ds_provider = None\<rparr>"

definition resolve_stack_references ::
  "graph_document \<Rightarrow> (string \<Rightarrow> ('e, string \<times> (string \<times> json) list) result) \<Rightarrow> ('e, graph_document) result" where
  "resolve_stack_references g backend =
     try_fold (\<lambda>s h.
         and_then (backend (sr_stack s)) (\<lambda>(kind, config).
           Inr (h\<lparr>data_sources := data_sources h @ [resolved_data_source (sr_stack s) kind config]\<rparr>)))
       (stack_references g) (g\<lparr>stack_references := []\<rparr>)"

end
