(* ===== verification/Graph_Valid.thy ===== *)
theory Graph_Valid
  imports Graph_Validate
begin

text \<open>
  What a valid document is, stated without the order of the checks, and the proof that
  \<open>validate\<close> accepts exactly those; what validity gives the code that runs after it (edges
  between declared nodes, no cycle); stack references resolve to a valid document.
\<close>

section \<open>Valid expressions\<close>

fun node_ok :: "expr \<Rightarrow> bool" where
  "node_ok (ResourceAttr a path) \<longleftrightarrow> is_resource a \<and> list_all valid_identifier path"
| "node_ok (DataSourceAttr a path) \<longleftrightarrow> \<not> is_resource a \<and> list_all valid_identifier path"
| "node_ok (Attribute e name) \<longleftrightarrow> valid_identifier name"
| "node_ok (Function name args) \<longleftrightarrow> valid_identifier name"
| "node_ok (SecretEnv name) \<longleftrightarrow> valid_environment_name name"
| "node_ok _ \<longleftrightarrow> True"

definition expr_ok :: "address set \<Rightarrow> expr \<Rightarrow> bool" where
  "expr_ok A e \<longleftrightarrow> (\<forall>x \<in> subexprs e. node_ok x) \<and> refs_of e \<subseteq> A"

lemma validate_identifier_ok [simp]: "validate_identifier path v = Inr u \<longleftrightarrow> valid_identifier v"
  by (simp add: validate_identifier_def)

lemma validate_path_ok [simp]: "validate_path owner path = Inr u \<longleftrightarrow> list_all valid_identifier path"
  by (simp add: validate_path_def list_all_iff)

lemma validate_structure_ok [simp]:
  "validate_expr_structure owner e = Inr u \<longleftrightarrow> (\<forall>x \<in> subexprs e. node_ok x)"
proof (induction owner e rule: validate_expr_structure.induct)
  case (4 owner members)
  then show ?case by (auto simp: case_prod_beta)
next
  case (10 owner parts)
  then show ?case by (auto split: template_part.splits)
qed (auto simp: result_simps)

lemma validate_expr_ok [simp]: "validate_expr owner addrs e = Inr u \<longleftrightarrow> expr_ok (set addrs) e"
  by (auto simp: validate_expr_def expr_ok_def result_simps)

section \<open>Valid documents\<close>

definition node_addresses :: "graph_document \<Rightarrow> address list" where
  "node_addresses g =
     map resource_address (resources g) @ map data_source_address (data_sources g) @
     map stack_reference_address (stack_references g)"

definition configured :: "graph_document \<Rightarrow> string set" where
  "configured g = provider_address ` set (provider_configs g)"

definition owner_ok :: "address set \<Rightarrow> address \<Rightarrow> expr set \<Rightarrow> address set \<Rightarrow> bool" where
  "owner_ok A owner es targets \<longleftrightarrow> (\<forall>e \<in> es. expr_ok A e) \<and> owner \<notin> targets \<and> targets \<subseteq> A"

definition selection_ok :: "string set \<Rightarrow> string option \<Rightarrow> bool" where
  "selection_ok C selected \<longleftrightarrow>
     (case selected of None \<Rightarrow> True
      | Some p \<Rightarrow> p \<in> C \<and> length (split_on (CHR ''.'') p) \<le> 2 \<and>
          list_all valid_identifier (split_on (CHR ''.'') p))"

definition triggers_ok :: "address set \<Rightarrow> resource_spec \<Rightarrow> bool" where
  "triggers_ok A r \<longleftrightarrow> (\<forall>t \<in> set (triggers_of r). is_resource t \<and> t \<in> A)"

definition names_ok :: "graph_document \<Rightarrow> bool" where
  "names_ok g \<longleftrightarrow>
     (\<forall>k \<in> fst ` set (required_providers g). valid_identifier k) \<and>
     (\<forall>p \<in> set (provider_configs g). valid_identifier (pc_provider p) \<and>
        (\<forall>a. pc_alias p = Some a \<longrightarrow> valid_identifier a)) \<and>
     distinct (map provider_address (provider_configs g)) \<and>
     (\<forall>a \<in> set (node_addresses g). valid_address a) \<and> distinct (node_addresses g)"

definition nodes_ok :: "graph_document \<Rightarrow> address set \<Rightarrow> string set \<Rightarrow> bool" where
  "nodes_ok g A C \<longleftrightarrow>
     (\<forall>r \<in> set (resources g). owner_ok A (resource_address r) (snd ` set (rs_arguments r))
          (set (rs_depends_on r)) \<and> selection_ok C (rs_provider r) \<and> triggers_ok A r) \<and>
     (\<forall>d \<in> set (data_sources g). owner_ok A (data_source_address d) (snd ` set (ds_arguments d))
          (set (ds_depends_on d)) \<and> selection_ok C (ds_provider d)) \<and>
     (\<forall>out \<in> snd ` set (outputs g). expr_ok A (os_value out)) \<and>
     (\<forall>p \<in> set (provider_configs g). \<forall>e \<in> snd ` set (pc_arguments p). expr_ok A e)"

definition moves_ok :: "graph_document \<Rightarrow> address set \<Rightarrow> bool" where
  "moves_ok g A \<longleftrightarrow> move_to ` set (moves g) \<subseteq> A \<and> distinct (map move_to (moves g))"

definition imports_ok :: "graph_document \<Rightarrow> address set \<Rightarrow> bool" where
  "imports_ok g A \<longleftrightarrow>
     (\<forall>i \<in> set (graph_imports g). is_resource (import_to i) \<and> import_to i \<in> A \<and> \<not> blank (import_id i)) \<and>
     distinct (map import_to (graph_imports g))"

definition valid_graph :: "graph_document \<Rightarrow> bool" where
  "valid_graph g \<longleftrightarrow>
     hd (split_on (CHR ''.'') (format_version g)) = ''1'' \<and> names_ok g \<and>
     nodes_ok g (set (node_addresses g)) (configured g) \<and>
     moves_ok g (set (node_addresses g)) \<and> imports_ok g (set (node_addresses g)) \<and>
     acyclic (depends (set (edges g)))"

section \<open>The checks accept what they should\<close>

lemma resource_addresses_valid:
  "valid_address (resource_address r) \<longleftrightarrow> valid_identifier (rs_type r) \<and> valid_identifier (rs_name r)"
  "valid_address (data_source_address d) \<longleftrightarrow> valid_identifier (ds_type d) \<and> valid_identifier (ds_name d)"
  by (simp_all add: resource_address_def data_source_address_def)

lemma remote_state_valid: "valid_identifier REMOTE_STATE_DATA_SOURCE"
  unfolding REMOTE_STATE_DATA_SOURCE_def by code_simp

lemma stack_address_valid:
  "valid_address (stack_reference_address s) \<longleftrightarrow> valid_identifier (sr_stack s)"
  by (simp add: stack_reference_address_def remote_state_valid)

lemma node_addresses_valid:
  "(\<forall>a \<in> set (node_addresses g). valid_address a) \<longleftrightarrow>
     (\<forall>r \<in> set (resources g). valid_identifier (rs_type r) \<and> valid_identifier (rs_name r)) \<and>
     (\<forall>d \<in> set (data_sources g). valid_identifier (ds_type d) \<and> valid_identifier (ds_name d)) \<and>
     (\<forall>s \<in> set (stack_references g). valid_identifier (sr_stack s))"
  by (simp add: node_addresses_def ball_Un resource_addresses_valid stack_address_valid)

lemma insert_new_list:
  "(\<exists>t. insert_new chk key dup xs s = Inr t) \<longleftrightarrow>
     (\<forall>x \<in> set xs. chk x = Inr ()) \<and> distinct (map key xs) \<and> set s \<inter> key ` set xs = {}"
  if "increasing s"
  using that by (rule btree_set.insert_new_iff)

lemma insert_new_result:
  assumes "increasing s" and "insert_new chk key dup xs s = Inr t"
  shows "increasing t" and "set t = set s \<union> key ` set xs"
    and "\<forall>x \<in> set xs. chk x = Inr ()" and "distinct (map key xs)" and "set s \<inter> key ` set xs = {}"
  using btree_set.insert_new_ok[OF assms] by auto

lemma validate_owner_ok [simp]:
  "validate_owner owner es ts addrs = Inr u \<longleftrightarrow> owner_ok (set addrs) owner (set es) (set ts)"
  by (auto simp: validate_owner_def owner_ok_def result_simps split: if_splits)

lemma validate_triggers_ok [simp]:
  "validate_replacement_triggers r addrs = Inr u \<longleftrightarrow> triggers_ok (set addrs) r"
  by (auto simp: validate_replacement_triggers_def triggers_ok_def triggers_of_def
      split: option.splits if_splits)

lemma count_list_eq_0: "count_list s c = 0 \<longleftrightarrow> c \<notin> set s"
  by (simp add: count_list_0_iff)

lemma split_once_split_on:
  "split_once d s = Some (a, b) \<Longrightarrow> split_on d s = a # split_on d b \<and> count_list s d = Suc (count_list b d)"
proof -
  assume s: "split_once d s = Some (a, b)"
  then have "d \<in> set s" and a: "a = takeWhile (\<lambda>c. c \<noteq> d) s" and b: "b = tl (dropWhile (\<lambda>c. c \<noteq> d) s)"
    by (auto simp: split_once_def split: if_splits)
  then have "dropWhile (\<lambda>c. c \<noteq> d) s = d # b"
    by (metis (mono_tags, lifting) dropWhile_eq_Nil_conv hd_dropWhile list.collapse)
  then have "s = a @ d # b" and "d \<notin> set a"
    by (metis a takeWhile_dropWhile_id, metis (mono_tags, lifting) a set_takeWhileD)
  then show ?thesis by (simp add: split_on_append count_list_eq_0)
qed

lemma length_split_on: "length (split_on d s) = Suc (count_list s d)"
proof (induction s)
  case (Cons c s)
  then show ?case
    by (cases "split_on d s") auto
qed simp

lemma validate_selected_ok [simp]:
  "validate_selected_provider owner selected addrs = Inr u \<longleftrightarrow> selection_ok (set addrs) selected"
proof (cases selected)
  case (Some p)
  show ?thesis
  proof (cases "split_once (CHR ''.'') p")
    case None
    then have "CHR ''.'' \<notin> set p" by (simp add: split_once_def split: if_splits)
    then show ?thesis
      by (simp add: Some None validate_selected_provider_def selection_ok_def split_on_single
          count_list_eq_0 conj_commute)
  next
    case (Some ab)
    obtain a b where ab: "ab = (a, b)" by (cases ab)
    note split = split_once_split_on[OF Some[unfolded ab]]
    show ?thesis
    proof (cases "CHR ''.'' \<in> set b")
      case True
      then have "count_list b (CHR ''.'') \<noteq> 0" by (simp add: count_list_eq_0)
      then show ?thesis
        using split Some \<open>selected = Some p\<close> ab
        by (simp add: validate_selected_provider_def selection_ok_def length_split_on)
    next
      case False
      then have "count_list b (CHR ''.'') = 0" by (simp add: count_list_eq_0)
      then show ?thesis
        using split Some \<open>selected = Some p\<close> ab False
        by (auto simp: validate_selected_provider_def selection_ok_def split_on_single)
    qed
  qed
qed (simp add: validate_selected_provider_def selection_ok_def)

section \<open>The stages of the validator\<close>

text \<open>
  The sets the stages build are written out, so that the iff of each stage also says what it
  passes on.
\<close>

lemma set_enumerate_snd: "(\<forall>x \<in> set (enumerate n xs). P (snd x)) \<longleftrightarrow> (\<forall>x \<in> set xs. P x)"
  by (metis (mono_tags, lifting) list.set_map map_snd_enumerate ball_imageD image_eqI list.pred_map
      list.pred_set comp_apply list_all_iff)

lemma map_enumerate_snd: "map (\<lambda>(i, x). f x) (enumerate n xs) = map f xs"
  by (induction xs arbitrary: n) auto

lemma collect_configs_ok:
  "(\<exists>c. collect_configs g = Inr c) \<longleftrightarrow>
     (\<forall>p \<in> set (provider_configs g). valid_identifier (pc_provider p) \<and>
        (\<forall>a. pc_alias p = Some a \<longrightarrow> valid_identifier a)) \<and>
     distinct (map provider_address (provider_configs g))"
proof -
  have chk: "(\<forall>x \<in> set (enumerate 0 (provider_configs g)).
       (case x of (index, provider) \<Rightarrow>
          and_then (validate_identifier (config_path index @ ''.provider'') (pc_provider provider)) (\<lambda>_.
            case pc_alias provider of None \<Rightarrow> Inr ()
            | Some alias \<Rightarrow> validate_identifier (config_path index @ ''.alias'') alias)) = Inr ()) \<longleftrightarrow>
     (\<forall>x \<in> set (enumerate 0 (provider_configs g)). valid_identifier (pc_provider (snd x)) \<and>
        (\<forall>a. pc_alias (snd x) = Some a \<longrightarrow> valid_identifier a))"
    by (auto simp: result_simps split: option.splits)
  show ?thesis
    unfolding collect_configs_def
    by (subst insert_new_list) (simp_all add: chk map_enumerate_snd set_enumerate_snd[where
        P = "\<lambda>p. valid_identifier (pc_provider p) \<and> (\<forall>a. pc_alias p = Some a \<longrightarrow> valid_identifier a)"])
qed

lemma collect_configs_set:
  assumes "collect_configs g = Inr c"
  shows "set c = configured g"
proof -
  have "set c = {} \<union> (\<lambda>(_, p). provider_address p) ` set (enumerate 0 (provider_configs g))"
    using insert_new_result(2)[OF _ assms[unfolded collect_configs_def]] by simp
  also have "\<dots> = provider_address ` snd ` set (enumerate 0 (provider_configs g))"
    by (auto simp: case_prod_beta image_image)
  also have "snd ` set (enumerate 0 (provider_configs g)) = set (provider_configs g)"
    by (metis list.set_map map_snd_enumerate)
  finally show ?thesis by (simp add: configured_def)
qed

lemma collect_addresses_sound:
  assumes "collect_addresses g = Inr A"
  shows "set A = set (node_addresses g) \<and> (\<forall>a \<in> set (node_addresses g). valid_address a) \<and>
    distinct (node_addresses g)"
proof -
  from assms obtain A1 A2 where
    1: "insert_new (\<lambda>r. and_then (validate_identifier ''resources[].type'' (rs_type r)) (\<lambda>_.
          validate_identifier ''resources[].name'' (rs_name r)))
        resource_address (\<lambda>r. DuplicateAddress (resource_address r)) (resources g) [] = Inr A1"
    and 2: "insert_new (\<lambda>d. and_then (validate_identifier ''data_sources[].type'' (ds_type d)) (\<lambda>_.
          validate_identifier ''data_sources[].name'' (ds_name d)))
        data_source_address (\<lambda>d. DuplicateAddress (data_source_address d)) (data_sources g) A1 = Inr A2"
    and 3: "insert_new (\<lambda>s. validate_identifier ''stack_references[].stack'' (sr_stack s))
        stack_reference_address (\<lambda>s. DuplicateAddress (stack_reference_address s))
        (stack_references g) A2 = Inr A"
    by (auto simp: collect_addresses_def result_simps)
  note r1 = insert_new_result[OF _ 1, simplified]
  note r2 = insert_new_result[OF r1(1) 2]
  note r3 = insert_new_result[OF r2(1) 3]
  show ?thesis
    using r1 r2 r3
    by (auto simp: node_addresses_def resource_addresses_valid stack_address_valid result_simps)
qed

lemma collect_addresses_complete:
  assumes valid: "\<forall>a \<in> set (node_addresses g). valid_address a" and dist: "distinct (node_addresses g)"
  shows "\<exists>A. collect_addresses g = Inr A"
proof -
  let ?c1 = "\<lambda>r. and_then (validate_identifier ''resources[].type'' (rs_type r)) (\<lambda>_.
          validate_identifier ''resources[].name'' (rs_name r))"
  let ?c2 = "\<lambda>d. and_then (validate_identifier ''data_sources[].type'' (ds_type d)) (\<lambda>_.
          validate_identifier ''data_sources[].name'' (ds_name d))"
  let ?c3 = "\<lambda>s. validate_identifier ''stack_references[].stack'' (sr_stack s)"
  have c1: "\<forall>r \<in> set (resources g). ?c1 r = Inr ()" and c2: "\<forall>d \<in> set (data_sources g). ?c2 d = Inr ()"
    and c3: "\<forall>s \<in> set (stack_references g). ?c3 s = Inr ()"
    using valid by (simp_all add: node_addresses_valid result_simps)
  have "\<exists>A1. insert_new ?c1 resource_address
      (\<lambda>r. DuplicateAddress (resource_address r)) (resources g) [] = Inr A1"
    using dist c1 by (subst insert_new_list) (simp_all add: node_addresses_def)
  then obtain A1 where 1: "insert_new ?c1 resource_address
      (\<lambda>r. DuplicateAddress (resource_address r)) (resources g) [] = Inr A1" by blast
  note r1 = insert_new_result[OF _ 1, simplified]
  have "\<exists>A2. insert_new ?c2 data_source_address
      (\<lambda>d. DuplicateAddress (data_source_address d)) (data_sources g) A1 = Inr A2"
    using dist c2 r1(1,2) by (subst insert_new_list) (auto simp: node_addresses_def)
  then obtain A2 where 2: "insert_new ?c2 data_source_address
      (\<lambda>d. DuplicateAddress (data_source_address d)) (data_sources g) A1 = Inr A2" by blast
  note r2 = insert_new_result[OF r1(1) 2]
  have "\<exists>A3. insert_new ?c3 stack_reference_address
      (\<lambda>s. DuplicateAddress (stack_reference_address s)) (stack_references g) A2 = Inr A3"
    using dist c3 r1(2) r2(1,2) by (subst insert_new_list) (auto simp: node_addresses_def)
  with 1 2 show ?thesis by (simp add: collect_addresses_def)
qed

lemma validate_nodes_ok:
  "validate_nodes g A C = Inr u \<longleftrightarrow> nodes_ok g (set A) (set C)"
proof -
  have configs: "(\<forall>x \<in> set (enumerate 0 (provider_configs g)).
        case x of (index, provider) \<Rightarrow> \<forall>e \<in> snd ` set (pc_arguments provider). expr_ok (set A) e) \<longleftrightarrow>
      (\<forall>p \<in> set (provider_configs g). \<forall>e \<in> snd ` set (pc_arguments p). expr_ok (set A) e)"
    using set_enumerate_snd[of 0 "provider_configs g"
        "\<lambda>p. \<forall>e \<in> snd ` set (pc_arguments p). expr_ok (set A) e"]
    by (simp add: case_prod_beta)
  show ?thesis
    using configs
    by (simp add: validate_nodes_def nodes_ok_def result_simps case_prod_beta)
qed

lemma validate_moves_ok: "validate_moves g A = Inr u \<longleftrightarrow> moves_ok g (set A)"
proof -
  have "validate_moves g A = Inr u \<longleftrightarrow> (\<exists>t. insert_new
      (\<lambda>m. fail_if (\<not> bs_contains A (move_to m)) (MissingMoveTarget (move_to m)))
      move_to (\<lambda>m. DuplicateMoveTarget (move_to m)) (moves g) [] = Inr t)"
    by (auto simp: validate_moves_def result_simps)
  then show ?thesis
    by (subst (asm) insert_new_list) (auto simp: moves_ok_def)
qed

lemma validate_imports_ok: "validate_imports g A = Inr u \<longleftrightarrow> imports_ok g (set A)"
proof -
  have "validate_imports g A = Inr u \<longleftrightarrow> (\<exists>t. insert_new
      (\<lambda>i. if \<not> is_resource (import_to i) then Inl (InvalidImportTarget (import_to i))
           else if \<not> bs_contains A (import_to i) then Inl (MissingImportTarget (import_to i))
           else fail_if (blank (import_id i)) (EmptyImportId (import_to i)))
      import_to (\<lambda>i. DuplicateImportTarget (import_to i)) (graph_imports g) [] = Inr t)"
    by (auto simp: validate_imports_def result_simps)
  then show ?thesis
    by (subst (asm) insert_new_list) (auto simp: imports_ok_def split: if_splits)
qed

lemma validate_stages:
  "validate g = Inr u \<longleftrightarrow>
     hd (split_on (CHR ''.'') (format_version g)) = ''1'' \<and>
     (\<forall>k \<in> fst ` set (required_providers g). valid_identifier k) \<and>
     (\<exists>C A. collect_configs g = Inr C \<and> collect_addresses g = Inr A \<and>
        nodes_ok g (set A) (set C) \<and> moves_ok g (set A) \<and> imports_ok g (set A) \<and>
        find_cycle (edges g) = None)"
  by (auto simp: validate_def result_simps validate_nodes_ok validate_moves_ok validate_imports_ok
      split: option.splits)

lemma validate_iff_valid: "validate g = Inr u \<longleftrightarrow> valid_graph g"
proof
  assume "validate g = Inr u"
  then obtain C A where 1: "hd (split_on (CHR ''.'') (format_version g)) = ''1''"
    "\<forall>k \<in> fst ` set (required_providers g). valid_identifier k"
    and C: "collect_configs g = Inr C" and A: "collect_addresses g = Inr A"
    and 2: "nodes_ok g (set A) (set C)" "moves_ok g (set A)" "imports_ok g (set A)"
    "find_cycle (edges g) = None"
    by (auto simp: validate_stages)
  note configs = collect_configs_ok[THEN iffD1, OF exI, OF C]
  note addresses = collect_addresses_sound[OF A]
  show "valid_graph g"
    using 1 2 configs addresses collect_configs_set[OF C]
    by (simp add: valid_graph_def names_ok_def find_cycle_iff)
next
  assume valid: "valid_graph g"
  then obtain C where C: "collect_configs g = Inr C"
    using collect_configs_ok[of g] by (auto simp: valid_graph_def names_ok_def)
  from valid obtain A where A: "collect_addresses g = Inr A"
    using collect_addresses_complete[of g] by (auto simp: valid_graph_def names_ok_def)
  show "validate g = Inr u"
    using valid C A collect_configs_set[OF C] collect_addresses_sound[OF A]
    by (simp add: validate_stages valid_graph_def names_ok_def find_cycle_iff)
qed

section \<open>What validity gives\<close>

lemma owner_edges_declared:
  assumes "owner_ok A owner es ts" and "owner \<in> A" and "us \<subseteq> A" and "e \<in> owner_edges owner es (ts \<union> us)"
  shows "dep_from e \<in> A \<and> dep_to e \<in> A"
  using assms by (fastforce simp: owner_edges_def owner_ok_def expr_ok_def)

lemma valid_graph_edges:
  assumes valid: "valid_graph g" and e: "e \<in> set (edges g)"
  shows "dep_from e \<in> set (node_addresses g) \<and> dep_to e \<in> set (node_addresses g)"
proof -
  let ?A = "set (node_addresses g)"
  from valid have nodes: "nodes_ok g ?A (configured g)" by (simp add: valid_graph_def)
  from e consider
      (res) r where "r \<in> set (resources g)"
        "e \<in> owner_edges (resource_address r) (snd ` set (rs_arguments r))
          (set (rs_depends_on r) \<union> set (triggers_of r))"
    | (data) d where "d \<in> set (data_sources g)"
        "e \<in> owner_edges (data_source_address d) (snd ` set (ds_arguments d)) (set (ds_depends_on d) \<union> {})"
    by (auto simp: set_edges)
  then show ?thesis
  proof cases
    case res
    with nodes show ?thesis
      by (intro owner_edges_declared[OF _ _ _ res(2)])
        (auto simp: nodes_ok_def triggers_ok_def node_addresses_def)
  next
    case data
    with nodes show ?thesis
      by (intro owner_edges_declared[OF _ _ _ data(2)]) (auto simp: nodes_ok_def node_addresses_def)
  qed
qed

section \<open>Resolving stack references\<close>

lemma resolve_fold:
  "try_fold (\<lambda>s h. and_then (backend (sr_stack s)) (\<lambda>(kind, config).
       Inr (h\<lparr>data_sources := data_sources h @ [resolved_data_source (sr_stack s) kind config]\<rparr>))) refs h = Inr h' \<Longrightarrow>
   \<exists>ds. h' = h\<lparr>data_sources := data_sources h @ ds\<rparr> \<and>
     list_all2 (\<lambda>s d. \<exists>kind config. backend (sr_stack s) = Inr (kind, config) \<and>
       d = resolved_data_source (sr_stack s) kind config) refs ds"
proof (induction refs arbitrary: h)
  case (Cons s refs)
  then obtain kind config where b: "backend (sr_stack s) = Inr (kind, config)"
    by (auto simp: result_simps)
  let ?d = "resolved_data_source (sr_stack s) kind config"
  from Cons.prems b Cons.IH[of "h\<lparr>data_sources := data_sources h @ [?d]\<rparr>"]
  obtain ds where "h' = h\<lparr>data_sources := data_sources h @ ?d # ds\<rparr>"
    and "list_all2 (\<lambda>s d. \<exists>kind config. backend (sr_stack s) = Inr (kind, config) \<and>
       d = resolved_data_source (sr_stack s) kind config) refs ds"
    by auto
  with b show ?case by (intro exI[of _ "?d # ds"]) auto
qed simp

lemma resolve_ok:
  assumes "resolve_stack_references g backend = Inr h"
  obtains ds where "h = g\<lparr>stack_references := [], data_sources := data_sources g @ ds\<rparr>"
    and "list_all2 (\<lambda>s d. \<exists>kind config. backend (sr_stack s) = Inr (kind, config) \<and>
       d = resolved_data_source (sr_stack s) kind config) (stack_references g) ds"
  using resolve_fold[OF assms[unfolded resolve_stack_references_def]] that by auto

lemma resolved_fields:
  "data_source_address (resolved_data_source stack kind config) = DataSource REMOTE_STATE_DATA_SOURCE stack"
  "ds_depends_on (resolved_data_source stack kind config) = []"
  "ds_provider (resolved_data_source stack kind config) = None"
  "snd ` set (ds_arguments (resolved_data_source stack kind config)) =
     {Literal (JString kind), Literal (JObject config)}"
  by (auto simp: resolved_data_source_def data_source_address_def)

lemma resolve_valid:
  assumes valid: "valid_graph g" and resolve: "resolve_stack_references g backend = Inr h"
  shows "valid_graph h \<and> stack_references h = [] \<and> node_addresses h = node_addresses g \<and>
    set (edges h) = set (edges g)"
proof -
  from resolve_ok[OF resolve] obtain ds
    where h: "h = g\<lparr>stack_references := [], data_sources := data_sources g @ ds\<rparr>"
      and ds: "list_all2 (\<lambda>s d. \<exists>kind config. backend (sr_stack s) = Inr (kind, config) \<and>
        d = resolved_data_source (sr_stack s) kind config) (stack_references g) ds" .
  from ds have addrs: "map data_source_address ds = map stack_reference_address (stack_references g)"
    by (induction rule: list_all2_induct) (auto simp: resolved_fields stack_reference_address_def)
  have each: "\<exists>kind config. d = resolved_data_source stack kind config \<and> stack \<in> sr_stack ` set (stack_references g)"
    if "d \<in> set ds" and "stack = ds_name d" for d stack
    using ds that
    by (induction rule: list_all2_induct) (auto simp: resolved_data_source_def)
  have data: "owner_ok (set (node_addresses g)) (data_source_address d) (snd ` set (ds_arguments d)) (set (ds_depends_on d))
      \<and> selection_ok (configured g) (ds_provider d) \<and>
      owner_edges (data_source_address d) (snd ` set (ds_arguments d)) (set (ds_depends_on d)) = {}"
    if "d \<in> set ds" for d
  proof -
    from each[OF that refl] obtain stack kind config where "d = resolved_data_source stack kind config"
      by blast
    then show ?thesis
      by (simp add: resolved_fields owner_ok_def selection_ok_def expr_ok_def owner_edges_def) auto
  qed
  have nodes: "node_addresses h = node_addresses g"
    by (simp add: h node_addresses_def addrs)
  have edges: "set (edges h) = set (edges g)"
    using data by (auto simp: set_edges h)
  have same: "format_version h = format_version g" "required_providers h = required_providers g"
    "provider_configs h = provider_configs g" "resources h = resources g" "outputs h = outputs g"
    "moves h = moves g" "graph_imports h = graph_imports g"
    "set (data_sources h) = set (data_sources g) \<union> set ds"
    by (simp_all add: h)
  have "nodes_ok h (set (node_addresses g)) (configured g)"
    using valid data by (auto simp: valid_graph_def nodes_ok_def same)
  then have "valid_graph h"
    using valid
    by (simp add: valid_graph_def nodes edges names_ok_def moves_ok_def imports_ok_def
        configured_def same)
  with nodes edges show ?thesis by (simp add: h)
qed

section \<open>Properties of documents\<close>

text \<open>
  A small stack: a droplet that reads a tag and another stack's output, and a provider
  whose token comes from the environment.
\<close>

definition sample_tag :: resource_spec where
  "sample_tag =
     \<lparr>rs_type = ''digitalocean_tag'', rs_name = ''app'',
      rs_arguments = [(''name'', Literal (JString ''app''))], rs_depends_on = [],
      rs_provider = Some ''digitalocean'', rs_lifecycle = None\<rparr>"

definition sample_droplet :: resource_spec where
  "sample_droplet =
     \<lparr>rs_type = ''digitalocean_droplet'', rs_name = ''web'',
      rs_arguments =
        [(''tags'', Array [ResourceAttr (Resource ''digitalocean_tag'' ''app'') [''name'']]),
         (''vpc_uuid'', Attribute
            (DataSourceAttr (DataSource REMOTE_STATE_DATA_SOURCE ''network'') [''outputs'']) ''vpc'')],
      rs_depends_on = [], rs_provider = None, rs_lifecycle = None\<rparr>"

definition sample_graph :: graph_document where
  "sample_graph = default_graph
     \<lparr>required_providers := [(''digitalocean'', \<lparr>pr_source = ''digitalocean/digitalocean'', pr_version = ''2.0''\<rparr>)],
      provider_configs :=
        [\<lparr>pc_provider = ''digitalocean'', pc_alias = None, pc_arguments = [(''token'', SecretEnv ''DO_TOKEN'')]\<rparr>],
      resources := [sample_droplet, sample_tag],
      outputs :=
        [(''tag'', \<lparr>os_value = ResourceAttr (Resource ''digitalocean_tag'' ''app'') [''id''],
           os_sensitive = False, os_description = None\<rparr>)],
      stack_references := [\<lparr>sr_stack = ''network''\<rparr>]\<rparr>"

lemmas sample_defs = sample_tag_def sample_droplet_def sample_graph_def default_graph_def

lemma sample_validates: "validate sample_graph = Inr ()"
  by code_simp

text \<open>C1. The checks of \<open>validate\<close>, run in the order of the code and stopping at the first
  failure, accept a document exactly when it is valid: its version is 1, its names are
  identifiers and its addresses distinct, every expression and every dependency, replacement
  trigger, move, import and selected provider refers to something the document declares, and
  no chain of dependencies leads from a node back to itself.\<close>

theorem validate_accepts_valid: "validate g = Inr () \<longleftrightarrow> valid_graph g"
  by (rule validate_iff_valid)

text \<open>C2. In a document that was accepted every dependency edge joins two nodes it declares, no
  two nodes share an address and the edges form no cycle, so the nodes can be applied in order.\<close>

theorem validated_edges:
  assumes "validate g = Inr ()"
  shows "(\<forall>e \<in> set (edges g). dep_from e \<in> set (node_addresses g) \<and> dep_to e \<in> set (node_addresses g)) \<and>
    acyclic (depends (set (edges g))) \<and> distinct (node_addresses g)"
proof -
  from assms have "valid_graph g" by (simp add: validate_iff_valid)
  then show ?thesis using valid_graph_edges by (auto simp: valid_graph_def names_ok_def)
qed

lemma validated_edges_witness:
  "acyclic (depends (set (edges sample_graph))) \<and> distinct (node_addresses sample_graph)"
  using validated_edges[OF sample_validates] by blast

text \<open>C30. \<open>find_cycle\<close> decides whether the edges have a cycle, and what it reports is one: a
  path along the edges of at least one step that ends at the node it starts from.\<close>

theorem find_cycle_decides:
  "case find_cycle es of
     None \<Rightarrow> acyclic (depends (set es))
   | Some c \<Rightarrow> 2 \<le> length c \<and> hd c = last c \<and> successively (\<lambda>x y. (x, y) \<in> depends (set es)) c"
proof (cases "find_cycle es")
  case None
  then show ?thesis by (simp add: find_cycle_None)
next
  case (Some c)
  have "y \<in> set (nexts (upstream_of es) x) \<longleftrightarrow> (x, y) \<in> depends (set es)" for x y
    using step_rel_upstream[of es] by (auto simp: step_rel_def)
  with find_cycle_Some[OF Some] Some show ?thesis
    by (simp add: is_cycle_def)
qed

text \<open>C33. \<open>Address::parse\<close> reads exactly the texts \<open>Display\<close> writes for addresses with valid
  names, and reads each back as the address it was written for.\<close>

theorem parse_display_address: "parse_address s = Inr a \<longleftrightarrow> display_address a = s \<and> valid_address a"
  using parse_display parse_address_ok by auto

text \<open>C34. Resolving the stack references of a valid document gives a valid document without
  any, that declares the same nodes and has the same dependency edges.\<close>

theorem resolve_keeps_valid:
  assumes "validate g = Inr ()" and "resolve_stack_references g backend = Inr h"
  shows "validate h = Inr () \<and> stack_references h = [] \<and> node_addresses h = node_addresses g \<and>
    set (edges h) = set (edges g)"
  using resolve_valid[OF _ assms(2)] assms(1) by (simp add: validate_iff_valid)

definition sample_backend :: "string \<Rightarrow> (string, string \<times> (string \<times> json) list) result" where
  "sample_backend stack = Inr (''local'', [(''path'', JString (stack @ ''.tfstate''))])"

lemma resolve_keeps_valid_witness:
  "validate (projr (resolve_stack_references sample_graph sample_backend)) = Inr () \<and>
   stack_references (projr (resolve_stack_references sample_graph sample_backend)) = [] \<and>
   node_addresses (projr (resolve_stack_references sample_graph sample_backend)) = node_addresses sample_graph \<and>
   set (edges (projr (resolve_stack_references sample_graph sample_backend))) = set (edges sample_graph)"
proof (rule resolve_keeps_valid[OF sample_validates])
  show "resolve_stack_references sample_graph sample_backend =
      Inr (projr (resolve_stack_references sample_graph sample_backend))"
    by (simp add: resolve_stack_references_def sample_backend_def sample_defs)
qed

text \<open>The environment variables a deployment needs are exactly those some expression of a
  provider, resource, data source or output reads, listed once each in order.\<close>

lemma secret_names_complete:
  "increasing (secret_environment_names g) \<and>
   set (secret_environment_names g) = {n. \<exists>e \<in> exprs_of g. SecretEnv n \<in> subexprs e}"
proof -
  have "own_secrets x = {n. x = SecretEnv n}" for x by (cases x) auto
  then show ?thesis
    by (auto simp: set_secret_environment_names increasing_secret_environment_names secrets_of_def)
qed

end
