(* ===== verification/Lower.thy ===== *)
theory Lower
  imports Graph_Valid
begin

text \<open>
  Lowering a document to the JSON configuration syntax of OpenTofu: \<open>lower\<close> and
  \<open>lower_expr\<close> of \<open>crates/opentofu/src/lib.rs\<close> with everything they call. The
  parameter \<open>ser\<close> stands for \<open>serde_json::to_string\<close>, which the code uses to quote
  strings and to print null, booleans and numbers inside an interpolation.
\<close>

section \<open>Template escaping\<close>

text \<open>
  \<open>str::replace\<close> for a pattern given by its first character and the rest: occurrences are
  found from left to right and do not overlap.
\<close>

lemma strip_prefix_length: "strip_prefix p s = Some t \<Longrightarrow> length t \<le> length s"
  by (simp add: strip_prefix_Some)

function replace_all :: "char \<Rightarrow> string \<Rightarrow> string \<Rightarrow> string \<Rightarrow> string" where
  "replace_all p ps rep [] = []"
| "replace_all p ps rep (c # cs) =
     (if c = p
      then (case strip_prefix ps cs of
          Some rest \<Rightarrow> rep @ replace_all p ps rep rest
        | None \<Rightarrow> c # replace_all p ps rep cs)
      else c # replace_all p ps rep cs)"
  by pat_completeness auto
termination
  by (relation "measure (\<lambda>(p, ps, rep, s). length s)") (auto dest: strip_prefix_length)

definition escape_template :: "string \<Rightarrow> string" where
  "escape_template value =
     replace_all (CHR ''%'') ''{'' ''%%{'' (replace_all (CHR ''$'') ''{'' ''$${'' value)"

fun escape_literal :: "json \<Rightarrow> json" where
  "escape_literal (JString text) = JString (escape_template text)"
| "escape_literal (JArray items) = JArray (map escape_literal items)"
| "escape_literal (JObject members) =
     JObject (im_collect (map (\<lambda>(key, value). (escape_template key, escape_literal value)) members))"
| "escape_literal value = value"

section \<open>Expressions\<close>

datatype lower_error =
    InvalidGraph validation_error
  | EmptyRawExpression
  | UnresolvedStackReference string

type_synonym 'a lowered = "(lower_error, 'a) result"

definition quote :: "(json \<Rightarrow> string) \<Rightarrow> string \<Rightarrow> string" where
  "quote ser value = ser (JString value)"

definition render_object :: "string list \<Rightarrow> string" where
  "render_object entries = (if entries = [] then ''{}'' else ''{ '' @ join '', '' entries @ '' }'')"

fun render_literal :: "(json \<Rightarrow> string) \<Rightarrow> json \<Rightarrow> string" where
  "render_literal ser (JString value) = quote ser (escape_template value)"
| "render_literal ser (JArray items) = ''['' @ join '', '' (map (render_literal ser) items) @ '']''"
| "render_literal ser (JObject members) =
     render_object (map (\<lambda>(key, value).
       quote ser (escape_template key) @ '' = '' @ render_literal ser value) members)"
| "render_literal ser value = ser value"

definition secret_variable_name :: "string \<Rightarrow> string" where
  "secret_variable_name environment_name = ''inframe_secret_'' @ environment_name"

definition render_reference :: "address \<Rightarrow> string list \<Rightarrow> string" where
  "render_reference address path = fold (\<lambda>step out. out @ ''.'' @ step) path (display_address address)"

fun render_expression :: "(json \<Rightarrow> string) \<Rightarrow> expr \<Rightarrow> string lowered" where
  "render_expression ser (Literal value) = Inr (render_literal ser value)"
| "render_expression ser (ResourceAttr address path) = Inr (render_reference address path)"
| "render_expression ser (DataSourceAttr address path) = Inr (render_reference address path)"
| "render_expression ser (Array items) =
     and_then (try_map (render_expression ser) items) (\<lambda>values.
       Inr (''['' @ join '', '' values @ '']''))"
| "render_expression ser (Object members) =
     and_then (try_map (\<lambda>(key, value).
         and_then (render_expression ser value) (\<lambda>text.
           Inr (quote ser (escape_template key) @ '' = '' @ text))) members)
       (\<lambda>values. Inr (render_object values))"
| "render_expression ser (Index collection key) =
     and_then (render_expression ser collection) (\<lambda>c.
     and_then (render_expression ser key) (\<lambda>k. Inr (c @ ''['' @ k @ '']'')))"
| "render_expression ser (Attribute e name) =
     and_then (render_expression ser e) (\<lambda>text. Inr (text @ ''.'' @ name))"
| "render_expression ser (Splat e) =
     and_then (render_expression ser e) (\<lambda>text. Inr (text @ ''[*]''))"
| "render_expression ser (Conditional condition when_true when_false) =
     and_then (render_expression ser condition) (\<lambda>c.
     and_then (render_expression ser when_true) (\<lambda>t.
     and_then (render_expression ser when_false) (\<lambda>f. Inr (c @ '' ? '' @ t @ '' : '' @ f))))"
| "render_expression ser (Function name args) =
     and_then (try_map (render_expression ser) args) (\<lambda>values.
       Inr (name @ ''('' @ join '', '' values @ '')''))"
| "render_expression ser (Template parts) =
     and_then
       (try_fold (\<lambda>part template. case part of
            TextPart value \<Rightarrow> Inr (template @ escape_template value)
          | Interpolation e \<Rightarrow>
              and_then (render_expression ser e) (\<lambda>text. Inr (template @ ''${'' @ text @ ''}'')))
          parts [])
       (\<lambda>template. Inr (quote ser template))"
| "render_expression ser (SecretEnv name) = Inr (''var.'' @ secret_variable_name name)"
| "render_expression ser (UnsafeRaw text) =
     (if blank text then Inl EmptyRawExpression else Inr text)"

fun lower_expr :: "(json \<Rightarrow> string) \<Rightarrow> expr \<Rightarrow> json lowered" where
  "lower_expr ser (Literal value) = Inr (escape_literal value)"
| "lower_expr ser (Array items) =
     and_then (try_map (lower_expr ser) items) (\<lambda>values. Inr (JArray values))"
| "lower_expr ser (Object members) =
     and_then (try_map (\<lambda>(key, value).
         and_then (lower_expr ser value) (\<lambda>v. Inr (escape_template key, v))) members)
       (\<lambda>entries. Inr (JObject (im_collect entries)))"
| "lower_expr ser (Template parts) =
     and_then
       (try_fold (\<lambda>part template. case part of
            TextPart value \<Rightarrow> Inr (template @ escape_template value)
          | Interpolation e \<Rightarrow>
              and_then (render_expression ser e) (\<lambda>text. Inr (template @ ''${'' @ text @ ''}'')))
          parts [])
       (\<lambda>template. Inr (JString template))"
| "lower_expr ser e =
     and_then (render_expression ser e) (\<lambda>text. Inr (JString (''${'' @ text @ ''}'')))"

definition lower_arguments :: "(json \<Rightarrow> string) \<Rightarrow> expr btree_map \<Rightarrow> (string \<times> json) list lowered" where
  "lower_arguments ser arguments =
     and_then (try_map (\<lambda>(name, e). and_then (lower_expr ser e) (\<lambda>v. Inr (name, v))) arguments)
       (\<lambda>entries. Inr (im_collect entries))"

section \<open>Documents\<close>

text \<open>One function per section of the configuration, in the order \<open>lower\<close> writes them.\<close>

definition lower_required :: "provider_requirement btree_map \<Rightarrow> json" where
  "lower_required required =
     JObject (im_collect (map (\<lambda>(name, requirement).
       (name, JObject (im_collect [(''source'', JString (pr_source requirement)),
         (''version'', JString (pr_version requirement))]))) required))"

definition secret_variable :: json where
  "secret_variable =
     JObject (im_collect [(''type'', JString ''string''), (''sensitive'', JBool True), (''nullable'', JBool False)])"

definition lower_variables :: "string list \<Rightarrow> json" where
  "lower_variables names =
     JObject (im_collect (map (\<lambda>name. (secret_variable_name name, secret_variable)) names))"

definition provider_body :: "(json \<Rightarrow> string) \<Rightarrow> provider_config \<Rightarrow> json lowered" where
  "provider_body ser config =
     and_then (lower_arguments ser (pc_arguments config)) (\<lambda>body.
       Inr (JObject (case pc_alias config of
           Some alias \<Rightarrow> im_insert ''alias'' (JString alias) body | None \<Rightarrow> body)))"

text \<open>\<open>providers.entry(provider).or_default().push(body)\<close>.\<close>

definition push_provider :: "string \<Rightarrow> json \<Rightarrow> json list btree_map \<Rightarrow> json list btree_map" where
  "push_provider provider body providers =
     bm_insert provider
       ((case map_of providers provider of None \<Rightarrow> [] | Some vs \<Rightarrow> vs) @ [body]) providers"

definition lower_providers :: "(json \<Rightarrow> string) \<Rightarrow> provider_config list \<Rightarrow> json lowered" where
  "lower_providers ser configs =
     and_then
       (try_fold (\<lambda>config providers. and_then (provider_body ser config) (\<lambda>body.
          Inr (push_provider (pc_provider config) body providers))) configs [])
       (\<lambda>providers.
       Inr (JObject (im_collect (map (\<lambda>(name, values). (name, JArray values)) providers))))"

definition addresses_json :: "address list \<Rightarrow> json" where
  "addresses_json addresses = JArray (map (\<lambda>a. JString (display_address a)) addresses)"

text \<open>\<open>serde_json::to_value(lifecycle)\<close>: the fields that are not at their default.\<close>

definition lifecycle_value :: "lifecycle \<Rightarrow> json" where
  "lifecycle_value l =
     JObject (im_collect (
       (if create_before_destroy l then [(''create_before_destroy'', JBool True)] else []) @
       (if prevent_destroy l then [(''prevent_destroy'', JBool True)] else []) @
       (if ignore_changes l \<noteq> [] then [(''ignore_changes'', JArray (map JString (ignore_changes l)))] else []) @
       (if replace_triggered_by l \<noteq> []
        then [(''replace_triggered_by'', addresses_json (replace_triggered_by l))] else [])))"

definition insert_depends_on :: "address list \<Rightarrow> (string \<times> json) list \<Rightarrow> (string \<times> json) list" where
  "insert_depends_on targets body =
     (if targets = [] then body else im_insert ''depends_on'' (addresses_json targets) body)"

definition insert_provider :: "string option \<Rightarrow> (string \<times> json) list \<Rightarrow> (string \<times> json) list" where
  "insert_provider selected body =
     (case selected of None \<Rightarrow> body | Some provider \<Rightarrow> im_insert ''provider'' (JString provider) body)"

definition resource_body :: "(json \<Rightarrow> string) \<Rightarrow> resource_spec \<Rightarrow> json lowered" where
  "resource_body ser r =
     and_then (lower_arguments ser (rs_arguments r)) (\<lambda>body.
       let body = insert_depends_on (rs_depends_on r) body;
           body = insert_provider (rs_provider r) body
       in Inr (JObject (case rs_lifecycle r of
             None \<Rightarrow> body | Some l \<Rightarrow> im_insert ''lifecycle'' (lifecycle_value l) body)))"

definition data_source_body :: "(json \<Rightarrow> string) \<Rightarrow> data_source_spec \<Rightarrow> json lowered" where
  "data_source_body ser d =
     and_then (lower_arguments ser (ds_arguments d)) (\<lambda>body.
       let body = insert_depends_on (ds_depends_on d) body
       in Inr (JObject (insert_provider (ds_provider d) body)))"

text \<open>\<open>types.entry(kind).or_default().insert(name, body)\<close>.\<close>

definition insert_nested :: "string \<Rightarrow> string \<Rightarrow> 'v \<Rightarrow> 'v btree_map btree_map \<Rightarrow> 'v btree_map btree_map" where
  "insert_nested kind name body types =
     bm_insert kind
       (bm_insert name body (case map_of types kind of None \<Rightarrow> [] | Some m \<Rightarrow> m)) types"

definition nested_object :: "json btree_map btree_map \<Rightarrow> json" where
  "nested_object input =
     JObject (im_collect (map (\<lambda>(kind, values). (kind, JObject (im_collect values))) input))"

definition lower_resources :: "(json \<Rightarrow> string) \<Rightarrow> resource_spec list \<Rightarrow> json lowered" where
  "lower_resources ser rs =
     and_then
       (try_fold (\<lambda>r types. and_then (resource_body ser r) (\<lambda>body.
          Inr (insert_nested (rs_type r) (rs_name r) body types))) rs [])
       (\<lambda>types. Inr (nested_object types))"

definition lower_data_sources :: "(json \<Rightarrow> string) \<Rightarrow> data_source_spec list \<Rightarrow> json lowered" where
  "lower_data_sources ser ds =
     and_then
       (try_fold (\<lambda>d types. and_then (data_source_body ser d) (\<lambda>body.
          Inr (insert_nested (ds_type d) (ds_name d) body types))) ds [])
       (\<lambda>types. Inr (nested_object types))"

definition output_body :: "(json \<Rightarrow> string) \<Rightarrow> output_spec \<Rightarrow> json lowered" where
  "output_body ser out =
     and_then (lower_expr ser (os_value out)) (\<lambda>value.
       let body = im_insert ''value'' value [];
           body = (if os_sensitive out then im_insert ''sensitive'' (JBool True) body else body)
       in Inr (JObject (case os_description out of
             None \<Rightarrow> body | Some text \<Rightarrow> im_insert ''description'' (JString text) body)))"

definition lower_outputs :: "(json \<Rightarrow> string) \<Rightarrow> output_spec btree_map \<Rightarrow> json lowered" where
  "lower_outputs ser outs =
     and_then (try_map (\<lambda>(name, out). and_then (output_body ser out) (\<lambda>body. Inr (name, body))) outs)
       (\<lambda>entries. Inr (JObject (im_collect entries)))"

definition lower_moves :: "move_spec list \<Rightarrow> json" where
  "lower_moves ms =
     JArray (map (\<lambda>m. JObject (im_collect [(''from'', JString (display_address (move_from m))),
       (''to'', JString (display_address (move_to m)))])) ms)"

definition lower_imports :: "import_spec list \<Rightarrow> json" where
  "lower_imports adopted =
     JArray (map (\<lambda>i. JObject (im_collect [(''to'', JString (display_address (import_to i))),
       (''id'', JString (escape_template (import_id i)))])) adopted)"

text \<open>A section is inserted in the document when the graph has anything for it.\<close>

definition put_section :: "string \<Rightarrow> bool \<Rightarrow> json lowered \<Rightarrow> (string \<times> json) list \<Rightarrow> (string \<times> json) list lowered" where
  "put_section key present value document =
     (if present then and_then value (\<lambda>v. Inr (im_insert key v document)) else Inr document)"

definition lower_document :: "(json \<Rightarrow> string) \<Rightarrow> graph_document \<Rightarrow> (string \<times> json) list lowered" where
  "lower_document ser g =
     and_then (put_section ''terraform'' (required_providers g \<noteq> [])
       (Inr (JObject (im_insert ''required_providers'' (lower_required (required_providers g)) []))) [])
     (\<lambda>document. and_then (put_section ''variable'' (secret_environment_names g \<noteq> [])
       (Inr (lower_variables (secret_environment_names g))) document)
     (\<lambda>document. and_then (put_section ''provider'' (provider_configs g \<noteq> [])
       (lower_providers ser (provider_configs g)) document)
     (\<lambda>document. and_then (put_section ''resource'' (resources g \<noteq> [])
       (lower_resources ser (resources g)) document)
     (\<lambda>document. and_then (put_section ''data'' (data_sources g \<noteq> [])
       (lower_data_sources ser (data_sources g)) document)
     (\<lambda>document. and_then (put_section ''output'' (outputs g \<noteq> [])
       (lower_outputs ser (outputs g)) document)
     (\<lambda>document. and_then (put_section ''moved'' (moves g \<noteq> []) (Inr (lower_moves (moves g))) document)
     (\<lambda>document. put_section ''import'' (graph_imports g \<noteq> []) (Inr (lower_imports (graph_imports g)))
       document)))))))"

definition lower :: "(json \<Rightarrow> string) \<Rightarrow> graph_document \<Rightarrow> json lowered" where
  "lower ser g =
     (case validate g of
        Inl e \<Rightarrow> Inl (InvalidGraph e)
      | Inr _ \<Rightarrow>
          (case stack_references g of
             reference # _ \<Rightarrow> Inl (UnresolvedStackReference (sr_stack reference))
           | [] \<Rightarrow> and_then (lower_document ser g) (\<lambda>document. Inr (sort_json (JObject document)))))"

definition to_pretty_json :: "(json \<Rightarrow> string) \<Rightarrow> (json \<Rightarrow> string) \<Rightarrow> graph_document \<Rightarrow> string lowered" where
  "to_pretty_json pretty ser g = and_then (lower ser g) (\<lambda>v. Inr (pretty v @ [CHR 0x0A]))"

end
