(* ===== verification/Lower_Correct.thy ===== *)
theory Lower_Correct
  imports Lower
begin

text \<open>
  What lowering guarantees: escaping leaves nothing for OpenTofu to evaluate and loses nothing;
  a document lowers exactly when it is valid, fully resolved and free of empty raw expressions;
  every resource, data source, output, provider configuration and secret variable is found in
  the configuration at its address with the body the graph gives it; the result is in canonical
  key order.
\<close>

section \<open>Escaping\<close>

text \<open>
  A template sequence is a marker character followed by a brace. \<open>inert d guarded s\<close> says that
  no such sequence in \<open>s\<close> stands without another marker before it; \<open>guarded\<close> says
  whether the character before \<open>s\<close> is a marker.
\<close>

fun inert :: "char \<Rightarrow> bool \<Rightarrow> string \<Rightarrow> bool" where
  "inert d guarded (c # c' # cs) \<longleftrightarrow>
     (c = d \<and> c' = CHR ''{'' \<longrightarrow> guarded) \<and> inert d (c = d) (c' # cs)"
| "inert d guarded _ \<longleftrightarrow> True"



text \<open>Replacing a template sequence by its guarded form puts one more marker before it.\<close>

fun guard_marker :: "char \<Rightarrow> string \<Rightarrow> string" where
  "guard_marker d (c # c' # cs) =
     (if c = d \<and> c' = CHR ''{'' then d # c # guard_marker d (c' # cs) else c # guard_marker d (c' # cs))"
| "guard_marker d s = s"

lemma guard_marker_skip: "c \<noteq> d \<Longrightarrow> guard_marker d (c # s) = c # guard_marker d s"
  by (cases s) auto

lemma guard_marker_hd: "guard_marker d (c # s) = c # tl (guard_marker d (c # s))"
  by (cases s) auto

lemma replace_all_guard:
  "d \<noteq> CHR ''{'' \<Longrightarrow> replace_all d ''{'' [d, d, CHR ''{''] s = guard_marker d s"
proof (induction s rule: length_induct)
  case (1 s)
  show ?case
  proof (cases s rule: remdups_adj.cases)
    case (3 c c' cs)
    with 3 "1.IH" "1.prems" have IH: "replace_all d ''{'' [d, d, CHR ''{''] (c' # cs) = guard_marker d (c' # cs)"
      "replace_all d ''{'' [d, d, CHR ''{''] cs = guard_marker d cs"
      by (simp_all del: replace_all.simps)
    show ?thesis
      unfolding 3 replace_all.simps(2)[of _ _ _ c "c' # cs"]
      using "1.prems" by (auto simp: IH guard_marker_skip simp del: replace_all.simps)
  qed (use "1.prems" in auto)
qed

lemma unguard_marker:
  "d \<noteq> CHR ''{'' \<Longrightarrow> replace_all d [d, CHR ''{''] [d, CHR ''{''] (guard_marker d s) = s"
proof (induction s rule: length_induct)
  case (1 s)
  show ?case
  proof (cases s rule: remdups_adj.cases)
    case (3 c c' cs)
    show ?thesis
    proof (cases "c = d \<and> c' = CHR ''{''")
      case True
      with 3 "1.prems" "1.IH" show ?thesis by (auto simp: guard_marker_skip)
    next
      case False
      obtain t where t: "guard_marker d (c' # cs) = c' # t"
        using guard_marker_hd by blast
      have none: "strip_prefix [d, CHR ''{''] (c' # t) = None" if "c = d"
      proof (rule ccontr)
        assume "strip_prefix [d, CHR ''{''] (c' # t) \<noteq> None"
        then obtain u where "strip_prefix [d, CHR ''{''] (c' # t) = Some u" by blast
        then have "c' # t = [d, CHR ''{''] @ u" by (simp only: strip_prefix_Some)
        then have "c' = d" "t = CHR ''{'' # u" by auto
        with t have "guard_marker d (d # cs) = d # CHR ''{'' # u" by simp
        with "1.prems" guard_marker_hd[of d "hd cs" "tl cs"] show False
          by (cases cs) (auto split: if_splits)
      qed
      have "replace_all d [d, CHR ''{''] [d, CHR ''{''] (guard_marker d (c' # cs)) = c' # cs"
        using "1.IH" "1.prems" 3 by simp
      with t none False 3 show ?thesis by (auto simp del: strip_prefix.simps)
    qed
  qed (use "1.prems" in auto)
qed

lemma inert_guard: "d \<noteq> CHR ''{'' \<Longrightarrow> inert d g (guard_marker d s)"
proof (induction d s arbitrary: g rule: guard_marker.induct)
  case (1 d c c' cs)
  obtain t where t: "guard_marker d (c' # cs) = c' # t"
    using guard_marker_hd by blast
  from 1 have "inert d (c = d) (c' # t)" by (metis t)
  with t 1 show ?case by auto
qed auto

text \<open>Guarding one marker leaves the other inert.\<close>

lemma inert_weaken: "inert d False s \<Longrightarrow> inert d g s"
  by (cases "(d, g, s)" rule: inert.cases) auto

lemma inert_other:
  "d \<noteq> CHR ''{'' \<Longrightarrow> d' \<noteq> CHR ''{'' \<Longrightarrow> d \<noteq> d' \<Longrightarrow> inert d g s \<Longrightarrow> inert d g (guard_marker d' s)"
proof (induction d' s arbitrary: g rule: guard_marker.induct)
  case (1 d' c c' cs)
  obtain t where t: "guard_marker d' (c' # cs) = c' # t"
    using guard_marker_hd by blast
  from 1 have "inert d (c = d) (c' # t)" by (metis inert.simps(1) t)
  with t 1 show ?case by auto
qed auto

lemma escape_template_guard:
  "escape_template s = guard_marker (CHR ''%'') (guard_marker (CHR ''$'') s)"
  by (simp add: escape_template_def replace_all_guard)

definition unescape_template :: "string \<Rightarrow> string" where
  "unescape_template value =
     replace_all (CHR ''$'') ''${'' ''${'' (replace_all (CHR ''%'') ''%{'' ''%{'' value)"

lemma unescape_escape: "unescape_template (escape_template s) = s"
  by (simp add: unescape_template_def escape_template_guard unguard_marker)

lemma escape_inert:
  "inert (CHR ''$'') False (escape_template s)" "inert (CHR ''%'') False (escape_template s)"
  unfolding escape_template_guard by (intro inert_other inert_guard; simp)+

section \<open>When a document lowers\<close>

fun raw_ok :: "expr \<Rightarrow> bool" where
  "raw_ok (UnsafeRaw text) \<longleftrightarrow> \<not> blank text"
| "raw_ok _ \<longleftrightarrow> True"

definition renderable :: "expr \<Rightarrow> bool" where
  "renderable e \<longleftrightarrow> (\<forall>x \<in> subexprs e. raw_ok x)"

abbreviation part_renderable :: "template_part \<Rightarrow> bool" where
  "part_renderable p \<equiv> (case p of Interpolation e \<Rightarrow> renderable e | TextPart _ \<Rightarrow> True)"

lemma renderable_simps [simp]:
  "renderable (ResourceAttr a p)" "renderable (DataSourceAttr a p)" "renderable (Literal v)"
  "renderable (SecretEnv n)" "renderable (UnsafeRaw text) \<longleftrightarrow> \<not> blank text"
  "renderable (Array items) \<longleftrightarrow> (\<forall>e \<in> set items. renderable e)"
  "renderable (Object ms) \<longleftrightarrow> (\<forall>m \<in> set ms. renderable (snd m))"
  "renderable (Index c k) \<longleftrightarrow> renderable c \<and> renderable k"
  "renderable (Attribute e n) \<longleftrightarrow> renderable e" "renderable (Splat e) \<longleftrightarrow> renderable e"
  "renderable (Conditional c t f) \<longleftrightarrow> renderable c \<and> renderable t \<and> renderable f"
  "renderable (Function n args) \<longleftrightarrow> (\<forall>e \<in> set args. renderable e)"
  "renderable (Template parts) \<longleftrightarrow> (\<forall>p \<in> set parts. part_renderable p)"
  unfolding renderable_def by (auto simp: case_prod_beta split: template_part.splits)

lemma render_template_ok:
  assumes "\<And>e. Interpolation e \<in> set parts \<Longrightarrow> is_ok (render_expression ser e) \<longleftrightarrow> renderable e"
  shows "is_ok (try_fold (\<lambda>part template. case part of
            TextPart value \<Rightarrow> Inr (template @ escape_template value)
          | Interpolation e \<Rightarrow>
              and_then (render_expression ser e) (\<lambda>text. Inr (template @ ''${'' @ text @ ''}'')))
          parts s) \<longleftrightarrow> (\<forall>p \<in> set parts. part_renderable p)"
  using assms by (intro is_ok_try_fold) (auto split: template_part.splits)

lemma render_expression_ok [simp]: "is_ok (render_expression ser e) \<longleftrightarrow> renderable e"
proof (induction ser e rule: render_expression.induct)
  case (11 ser parts)
  have "is_ok (render_expression ser e) \<longleftrightarrow> renderable e" if "Interpolation e \<in> set parts" for e
    using 11 that by blast
  then show ?case by (simp add: render_template_ok)
next
  case (5 ser members)
  then show ?case by (auto simp: case_prod_beta)
qed (auto simp: case_prod_beta elim!: is_okE)

lemma lower_expr_ok [simp]: "is_ok (lower_expr ser e) \<longleftrightarrow> renderable e"
  by (induction ser e rule: lower_expr.induct) (auto simp: case_prod_beta render_template_ok)

lemma lower_arguments_ok [simp]:
  "is_ok (lower_arguments ser args) \<longleftrightarrow> (\<forall>e \<in> snd ` set args. renderable e)"
  by (auto simp: lower_arguments_def case_prod_beta)

lemma resource_body_ok [simp]:
  "is_ok (resource_body ser r) \<longleftrightarrow> (\<forall>e \<in> snd ` set (rs_arguments r). renderable e)"
  by (simp add: resource_body_def Let_def)

lemma data_source_body_ok [simp]:
  "is_ok (data_source_body ser d) \<longleftrightarrow> (\<forall>e \<in> snd ` set (ds_arguments d). renderable e)"
  by (simp add: data_source_body_def Let_def)

lemma output_body_ok [simp]: "is_ok (output_body ser out) \<longleftrightarrow> renderable (os_value out)"
  by (simp add: output_body_def Let_def)

lemma sections_ok [simp]:
  "is_ok (lower_providers ser ps) \<longleftrightarrow> (\<forall>p \<in> set ps. \<forall>e \<in> snd ` set (pc_arguments p). renderable e)"
  "is_ok (lower_resources ser rs) \<longleftrightarrow> (\<forall>r \<in> set rs. \<forall>e \<in> snd ` set (rs_arguments r). renderable e)"
  "is_ok (lower_data_sources ser ds) \<longleftrightarrow> (\<forall>d \<in> set ds. \<forall>e \<in> snd ` set (ds_arguments d). renderable e)"
  "is_ok (lower_outputs ser os) \<longleftrightarrow> (\<forall>out \<in> snd ` set os. renderable (os_value out))"
proof -
  show "is_ok (lower_providers ser ps) \<longleftrightarrow> (\<forall>p \<in> set ps. \<forall>e \<in> snd ` set (pc_arguments p). renderable e)"
    by (simp add: lower_providers_def) (rule is_ok_try_fold; simp add: provider_body_def)
  show "is_ok (lower_resources ser rs) \<longleftrightarrow> (\<forall>r \<in> set rs. \<forall>e \<in> snd ` set (rs_arguments r). renderable e)"
    by (simp add: lower_resources_def) (rule is_ok_try_fold; simp)
  show "is_ok (lower_data_sources ser ds) \<longleftrightarrow>
      (\<forall>d \<in> set ds. \<forall>e \<in> snd ` set (ds_arguments d). renderable e)"
    by (simp add: lower_data_sources_def) (rule is_ok_try_fold; simp)
qed (auto simp: lower_outputs_def case_prod_beta)

lemma put_section_ok [simp]:
  "is_ok (put_section key present value document) \<longleftrightarrow> (present \<longrightarrow> is_ok value)"
  by (simp add: put_section_def)

lemma lower_document_ok: "is_ok (lower_document ser g) \<longleftrightarrow> (\<forall>e \<in> exprs_of g. renderable e)"
proof -
  have "is_ok (lower_document ser g) \<longleftrightarrow>
      (\<forall>p \<in> set (provider_configs g). \<forall>e \<in> snd ` set (pc_arguments p). renderable e) \<and>
      (\<forall>r \<in> set (resources g). \<forall>e \<in> snd ` set (rs_arguments r). renderable e) \<and>
      (\<forall>d \<in> set (data_sources g). \<forall>e \<in> snd ` set (ds_arguments d). renderable e) \<and>
      (\<forall>out \<in> snd ` set (outputs g). renderable (os_value out))"
    unfolding lower_document_def by simp fastforce
  then show ?thesis by (simp add: exprs_of_def ball_Un)
qed

lemma lower_ok_iff:
  "is_ok (lower ser g) \<longleftrightarrow>
     valid_graph g \<and> stack_references g = [] \<and> (\<forall>e \<in> exprs_of g. renderable e)"
proof (cases "validate g")
  case (Inl e)
  then have "\<not> valid_graph g" using validate_iff_valid[of g "()"] by simp
  with Inl show ?thesis by (simp add: lower_def)
next
  case (Inr u)
  then have "valid_graph g" using validate_iff_valid[of g u] by simp
  with Inr show ?thesis
    by (simp add: lower_def lower_document_ok split: list.splits)
qed

section \<open>Values the lowering builds\<close>

lemma values_im_insert: "snd ` set (im_insert k v m) \<subseteq> insert v (snd ` set m)"
  by (induction k v m rule: im_insert.induct) auto

lemma json_wf_object:
  "json_wf (JObject m) \<longleftrightarrow> distinct (map fst m) \<and> (\<forall>v \<in> snd ` set m. json_wf v)"
  by (simp add: list_all_iff case_prod_beta)

lemma empty_object_wf [simp]: "json_wf (JObject [])"
  by simp

lemma im_insert_wf:
  assumes "json_wf (JObject m)" and "json_wf v"
  shows "json_wf (JObject (im_insert k v m))"
proof -
  have "json_wf w" if "w \<in> snd ` set (im_insert k v m)" for w
  proof -
    from that values_im_insert[of k v m] have "w = v \<or> w \<in> snd ` set m" by blast
    with assms show ?thesis unfolding json_wf_object by blast
  qed
  with assms show ?thesis
    unfolding json_wf_object by (blast intro: distinct_im_insert)
qed

lemma collect_wf_object:
  "json_wf (JObject m) \<Longrightarrow> \<forall>v \<in> snd ` set kvs. json_wf v \<Longrightarrow> json_wf (JObject (collect_by im_insert m kvs))"
proof (induction kvs arbitrary: m)
  case (Cons kv kvs)
  then show ?case
    by (cases kv) (simp add: im_insert_wf del: json_wf.simps)
qed simp

lemma im_collect_wf: "\<forall>v \<in> snd ` set kvs. json_wf v \<Longrightarrow> json_wf (JObject (im_collect kvs))"
  by (rule collect_wf_object) simp_all

lemma escape_literal_wf: "json_wf (escape_literal v)"
proof (induction v rule: escape_literal.induct)
  case (3 ms)
  then show ?case
    unfolding escape_literal.simps by (intro im_collect_wf) (auto simp: image_image case_prod_beta)
qed (auto simp: list_all_iff)

lemma lower_expr_wf: "lower_expr ser e = Inr v \<Longrightarrow> json_wf v"
proof (induction ser e arbitrary: v rule: lower_expr.induct)
  case (2 ser items)
  then show ?case
    by (auto simp: result_simps list_all_iff list_all2_conv_all_nth in_set_conv_nth) metis
next
  case (3 ser members)
  from 3(2) obtain es where v: "v = JObject (im_collect es)"
    and es: "try_map (\<lambda>(key, value). and_then (lower_expr ser value) (\<lambda>v. Inr (escape_template key, v)))
      members = Inr es"
    by (auto simp: and_then_ok)
  from es have es: "es = map (\<lambda>m. (escape_template (fst m), projr (lower_expr ser (snd m)))) members"
    "\<forall>m \<in> set members. \<exists>y. lower_expr ser (snd m) = Inr y"
    using try_map_pairs[of "\<lambda>m. lower_expr ser (snd m)" "\<lambda>m v. (escape_template (fst m), v)" members es]
    by (simp_all add: case_prod_unfold)
  have "json_wf w" if "w \<in> snd ` set es" for w
    using that es 3(1) by (auto simp: image_image)
  then show ?case unfolding v by (intro im_collect_wf) simp
qed (auto simp: escape_literal_wf result_simps)

lemma lower_arguments_entries:
  assumes "lower_arguments ser args = Inr body"
  shows "body = im_collect (map (\<lambda>(name, e). (name, projr (lower_expr ser e))) args)"
    and "\<forall>e \<in> snd ` set args. \<exists>v. lower_expr ser e = Inr v"
proof -
  from assms obtain es where body: "body = im_collect es"
    and es: "try_map (\<lambda>(name, e). and_then (lower_expr ser e) (\<lambda>v. Inr (name, v))) args = Inr es"
    by (auto simp: lower_arguments_def and_then_ok)
  from try_map_pairs[of "\<lambda>m. lower_expr ser (snd m)" "\<lambda>m v. (fst m, v)" args es] es
  show "body = im_collect (map (\<lambda>(name, e). (name, projr (lower_expr ser e))) args)"
    and "\<forall>e \<in> snd ` set args. \<exists>v. lower_expr ser e = Inr v"
    by (auto simp: body case_prod_unfold)
qed

lemma lower_arguments_wf:
  assumes "lower_arguments ser args = Inr body"
  shows "json_wf (JObject body)"
proof -
  note entries = lower_arguments_entries[OF assms]
  have "json_wf (projr (lower_expr ser e))" if "e \<in> snd ` set args" for e
    using that entries(2) lower_expr_wf by fastforce
  then show ?thesis unfolding entries(1)
    by (intro im_collect_wf) (auto simp: image_image case_prod_beta)
qed

lemma addresses_json_wf [simp]: "json_wf (addresses_json as)"
  by (simp add: addresses_json_def list_all_iff)

lemma lifecycle_value_wf [simp]: "json_wf (lifecycle_value l)"
  unfolding lifecycle_value_def by (intro im_collect_wf) (auto simp: list_all_iff)

lemma insert_meta_wf:
  "json_wf (JObject body) \<Longrightarrow> json_wf (JObject (insert_depends_on ts body))"
  "json_wf (JObject body) \<Longrightarrow> json_wf (JObject (insert_provider p body))"
  unfolding insert_depends_on_def insert_provider_def
  by (auto simp del: json_wf.simps(1) split: option.splits intro!: im_insert_wf)

lemma resource_body_wf: "resource_body ser r = Inr b \<Longrightarrow> json_wf b"
  by (auto simp: resource_body_def Let_def and_then_ok simp del: json_wf.simps(1) split: option.splits
      intro!: im_insert_wf insert_meta_wf dest!: lower_arguments_wf)

lemma data_source_body_wf: "data_source_body ser d = Inr b \<Longrightarrow> json_wf b"
  by (auto simp: data_source_body_def Let_def and_then_ok simp del: json_wf.simps(1)
      intro!: insert_meta_wf dest!: lower_arguments_wf)

lemma output_body_wf: "output_body ser out = Inr b \<Longrightarrow> json_wf b"
  by (auto simp: output_body_def Let_def and_then_ok simp del: im_insert.simps json_wf.simps(1) split: option.splits
      intro!: im_insert_wf dest!: lower_expr_wf)

section \<open>Maps of maps\<close>

text \<open>
  \<open>types.entry(kind).or_default().insert(name, body)\<close> makes a map of maps a map on pairs of
  keys.
\<close>

definition nested_wf :: "'v btree_map btree_map \<Rightarrow> bool" where
  "nested_wf types \<longleftrightarrow> bm_wf types \<and> (\<forall>m \<in> ran (map_of types). bm_wf m)"

definition lookup_nested :: "'v btree_map btree_map \<Rightarrow> string \<times> string \<Rightarrow> 'v option" where
  "lookup_nested types k =
     (case map_of types (fst k) of None \<Rightarrow> None | Some m \<Rightarrow> map_of m (snd k))"

definition put_nested :: "string \<times> string \<Rightarrow> 'v \<Rightarrow> 'v btree_map btree_map \<Rightarrow> 'v btree_map btree_map" where
  "put_nested k = insert_nested (fst k) (snd k)"

interpretation nested_map: map_interface "[]" put_nested lookup_nested nested_wf
proof
  show "nested_wf []" by (simp add: nested_wf_def)
  show "lookup_nested [] = Map.empty" by (simp add: lookup_nested_def fun_eq_iff)
next
  fix m :: "'v btree_map btree_map" and k :: "string \<times> string" and v
  assume wf: "nested_wf m"
  let ?inner = "case map_of m (fst k) of None \<Rightarrow> [] | Some n \<Rightarrow> n"
  from wf have inner: "bm_wf ?inner"
    by (auto simp: nested_wf_def ran_def split: option.splits)
  have get: "map_of (put_nested k v m) = (map_of m)(fst k \<mapsto> bm_insert (snd k) v ?inner)"
    using wf by (simp add: put_nested_def insert_nested_def nested_wf_def)
  then show "nested_wf (put_nested k v m)"
    using wf inner by (auto simp: nested_wf_def put_nested_def insert_nested_def ran_def)
  show "lookup_nested (put_nested k v m) = (lookup_nested m)(k \<mapsto> v)"
    using inner by (auto simp: lookup_nested_def get fun_eq_iff prod_eq_iff split: option.splits)
qed

lemma nested_object_at:
  assumes wf: "nested_wf types"
  shows "json_at (nested_object types) [kind, name] = lookup_nested types (kind, name)"
proof -
  have dist: "distinct (map fst (map (\<lambda>(kind, values). (kind, JObject (im_collect values))) types))"
    using wf by (simp add: nested_wf_def increasing_distinct)
  have inner: "im_collect m = m" if "map_of types kind = Some m" for m
    using wf that by (intro im_collect_distinct increasing_distinct) (auto simp: nested_wf_def ran_def)
  show ?thesis
    by (auto simp: nested_object_def im_collect_distinct[OF dist] map_of_entries lookup_nested_def inner
        split: option.splits)
qed

lemma nested_object_wf:
  assumes "nested_wf types" and "\<And>k v. lookup_nested types k = Some v \<Longrightarrow> json_wf v"
  shows "json_wf (nested_object types)"
proof -
  have "json_wf (JObject (im_collect m))" if "(kind, m) \<in> set types" for kind m
  proof (rule im_collect_wf, rule ballI)
    fix v assume "v \<in> snd ` set m"
    then obtain name where "(name, v) \<in> set m" by auto
    moreover from assms(1) that have m: "map_of types kind = Some m"
      by (intro map_of_is_SomeI increasing_distinct) (auto simp: nested_wf_def)
    moreover from m assms(1) have "distinct (map fst m)"
      by (intro increasing_distinct) (auto simp: nested_wf_def ran_def)
    ultimately have "lookup_nested types (kind, name) = Some v"
      by (simp add: lookup_nested_def)
    then show "json_wf v" by (rule assms(2))
  qed
  then show ?thesis
    unfolding nested_object_def by (intro im_collect_wf) (auto simp del: json_wf.simps)
qed

text \<open>The section of resources, or of data sources: every body at its type and name.\<close>

lemma lower_nested:
  assumes fold: "try_fold (\<lambda>x types. and_then (body x) (\<lambda>b. Inr (insert_nested (kind x) (name x) b types))) xs [] = Inr types"
    and dist: "distinct (map (\<lambda>x. (kind x, name x)) xs)"
    and wf: "\<And>x b. body x = Inr b \<Longrightarrow> json_wf b"
  shows "json_at (nested_object types) [k, n] = map_of (map (\<lambda>x. ((kind x, name x), projr (body x))) xs) (k, n)"
    and "json_wf (nested_object types)"
proof -
  let ?kvs = "map (\<lambda>x. ((kind x, name x), projr (body x))) xs"
  from fold obtain ys
    where ys: "try_map (\<lambda>x. and_then (body x) (\<lambda>y. Inr (x, y))) xs = Inr ys"
      and types: "types = fold (\<lambda>(x, y). insert_nested (kind x) (name x) y) ys []"
    unfolding try_fold_values[of body "\<lambda>x. insert_nested (kind x) (name x)"] by (auto simp: and_then_ok)
  note ys = try_map_pairs[of body Pair, OF ys]
  have types: "types = collect_by put_nested [] ?kvs"
    by (simp add: types ys collect_by_def put_nested_def fold_map comp_def)
  have kvs: "distinct (map fst ?kvs)" using dist by (simp add: comp_def)
  have nested: "nested_wf types" "lookup_nested types = map_of ?kvs"
    unfolding types using nested_map.collect_wf[OF nested_map.wf_emp] nested_map.collect_distinct[OF kvs]
    by auto
  from nested show "json_at (nested_object types) [k, n] = map_of ?kvs (k, n)"
    by (simp add: nested_object_at)
  have vals: "json_wf (projr (body x))" if "x \<in> set xs" for x
    using that ys wf by fastforce
  then show "json_wf (nested_object types)"
    using nested vals by (intro nested_object_wf) (auto dest!: map_of_SomeD)
qed

section \<open>What the configuration contains\<close>

lemma put_section_result:
  assumes "put_section key present value document = Inr document'"
  shows "map_of document' = (if present then (map_of document)(key \<mapsto> projr value) else map_of document)"
    and "present \<Longrightarrow> is_ok value"
  using assms
  by (auto simp: put_section_def and_then_ok simp del: json_wf.simps split: if_splits intro!: im_insert_wf)

lemma put_section_wf:
  "put_section key present value document = Inr document' \<Longrightarrow> json_wf (JObject document) \<Longrightarrow>
     (\<And>v. value = Inr v \<Longrightarrow> json_wf v) \<Longrightarrow> json_wf (JObject document')"
  by (auto simp: put_section_def and_then_ok simp del: json_wf.simps split: if_splits intro!: im_insert_wf)

text \<open>The sections of the document, by name, and that each is well formed.\<close>

definition section_of :: "(json \<Rightarrow> string) \<Rightarrow> graph_document \<Rightarrow> string \<Rightarrow> json lowered option" where
  "section_of ser g key =
     (if key = ''terraform'' then
        (if required_providers g \<noteq> []
         then Some (Inr (JObject (im_insert ''required_providers'' (lower_required (required_providers g)) [])))
         else None)
      else if key = ''variable'' then
        (if secret_environment_names g \<noteq> [] then Some (Inr (lower_variables (secret_environment_names g))) else None)
      else if key = ''provider'' then
        (if provider_configs g \<noteq> [] then Some (lower_providers ser (provider_configs g)) else None)
      else if key = ''resource'' then
        (if resources g \<noteq> [] then Some (lower_resources ser (resources g)) else None)
      else if key = ''data'' then
        (if data_sources g \<noteq> [] then Some (lower_data_sources ser (data_sources g)) else None)
      else if key = ''output'' then
        (if outputs g \<noteq> [] then Some (lower_outputs ser (outputs g)) else None)
      else if key = ''moved'' then (if moves g \<noteq> [] then Some (Inr (lower_moves (moves g))) else None)
      else if key = ''import'' then
        (if graph_imports g \<noteq> [] then Some (Inr (lower_imports (graph_imports g))) else None)
      else None)"

lemma lower_document_steps:
  assumes "lower_document ser g = Inr document"
  obtains d1 d2 d3 d4 d5 d6 d7 where
    "put_section ''terraform'' (required_providers g \<noteq> [])
       (Inr (JObject (im_insert ''required_providers'' (lower_required (required_providers g)) []))) [] = Inr d1"
    "put_section ''variable'' (secret_environment_names g \<noteq> [])
       (Inr (lower_variables (secret_environment_names g))) d1 = Inr d2"
    "put_section ''provider'' (provider_configs g \<noteq> []) (lower_providers ser (provider_configs g)) d2 = Inr d3"
    "put_section ''resource'' (resources g \<noteq> []) (lower_resources ser (resources g)) d3 = Inr d4"
    "put_section ''data'' (data_sources g \<noteq> []) (lower_data_sources ser (data_sources g)) d4 = Inr d5"
    "put_section ''output'' (outputs g \<noteq> []) (lower_outputs ser (outputs g)) d5 = Inr d6"
    "put_section ''moved'' (moves g \<noteq> []) (Inr (lower_moves (moves g))) d6 = Inr d7"
    "put_section ''import'' (graph_imports g \<noteq> []) (Inr (lower_imports (graph_imports g))) d7 = Inr document"
  using assms unfolding lower_document_def by (auto simp only: and_then_ok)

lemma lower_document_sections:
  assumes "lower_document ser g = Inr document"
  shows "map_of document key = map_option projr (section_of ser g key)"
  using assms
proof (rule lower_document_steps)
  fix d1 d2 d3 d4 d5 d6 d7
  assume steps:
    "put_section ''terraform'' (required_providers g \<noteq> [])
       (Inr (JObject (im_insert ''required_providers'' (lower_required (required_providers g)) []))) [] = Inr d1"
    "put_section ''variable'' (secret_environment_names g \<noteq> [])
       (Inr (lower_variables (secret_environment_names g))) d1 = Inr d2"
    "put_section ''provider'' (provider_configs g \<noteq> []) (lower_providers ser (provider_configs g)) d2 = Inr d3"
    "put_section ''resource'' (resources g \<noteq> []) (lower_resources ser (resources g)) d3 = Inr d4"
    "put_section ''data'' (data_sources g \<noteq> []) (lower_data_sources ser (data_sources g)) d4 = Inr d5"
    "put_section ''output'' (outputs g \<noteq> []) (lower_outputs ser (outputs g)) d5 = Inr d6"
    "put_section ''moved'' (moves g \<noteq> []) (Inr (lower_moves (moves g))) d6 = Inr d7"
    "put_section ''import'' (graph_imports g \<noteq> []) (Inr (lower_imports (graph_imports g))) d7 = Inr document"
  show ?thesis
    by (simp add: steps[THEN put_section_result(1)] section_of_def)
qed

lemma provider_body_wf: "provider_body ser c = Inr b \<Longrightarrow> json_wf b"
  by (auto simp: provider_body_def and_then_ok simp del: json_wf.simps(1) split: option.splits
      intro!: im_insert_wf dest!: lower_arguments_wf)

lemma push_all_providers:
  "bm_wf m \<Longrightarrow> bm_wf (fold (\<lambda>(c, b). push_provider (pc_provider c) b) cs m) \<and>
     map_of (fold (\<lambda>(c, b). push_provider (pc_provider c) b) cs m) p =
       (let own = map snd (filter (\<lambda>(c, b). pc_provider c = p) cs)
        in if own = [] then map_of m p
           else Some ((case map_of m p of None \<Rightarrow> [] | Some vs \<Rightarrow> vs) @ own))"
proof (induction cs arbitrary: m)
  case (Cons c cs)
  have wf: "bm_wf (push_provider (pc_provider (fst c)) (snd c) m)"
    using Cons.prems by (simp add: push_provider_def)
  show ?case
    using Cons.IH[OF wf] Cons.prems
    by (auto simp: push_provider_def Let_def case_prod_beta split: option.splits)
qed (simp add: Let_def)

lemma lower_providers_result:
  assumes "lower_providers ser configs = Inr v"
  shows "json_at v [p] =
      (let own = filter (\<lambda>c. pc_provider c = p) configs
       in if own = [] then None else Some (JArray (map (\<lambda>c. projr (provider_body ser c)) own)))"
    and "json_wf v"
proof -
  from assms obtain m
    where m: "try_fold (\<lambda>config providers. and_then (provider_body ser config) (\<lambda>body.
        Inr (push_provider (pc_provider config) body providers))) configs [] = Inr m"
      and v: "v = JObject (im_collect (map (\<lambda>(name, values). (name, JArray values)) m))"
    by (auto simp: lower_providers_def and_then_ok)
  from m obtain ys
    where ys: "try_map (\<lambda>c. and_then (provider_body ser c) (\<lambda>b. Inr (c, b))) configs = Inr ys"
      and m: "m = fold (\<lambda>(c, b). push_provider (pc_provider c) b) ys []"
    unfolding try_fold_values[of "provider_body ser" "\<lambda>c. push_provider (pc_provider c)"]
    by (auto simp: and_then_ok)
  note ys = try_map_pairs[of "provider_body ser" Pair, OF ys]
  note pushed = push_all_providers[of "[]" ys, folded m, simplified]
  have own: "map snd (filter (\<lambda>(c, b). pc_provider c = q) ys) =
      map (\<lambda>c. projr (provider_body ser c)) (filter (\<lambda>c. pc_provider c = q) configs)" for q
    using ys by (simp add: filter_map comp_def)
  have dist: "distinct (map fst m)" using pushed by (simp add: increasing_distinct)
  then show "json_at v [p] =
      (let own = filter (\<lambda>c. pc_provider c = p) configs
       in if own = [] then None else Some (JArray (map (\<lambda>c. projr (provider_body ser c)) own)))"
    using pushed[of p] own[of p]
    by (auto simp: v im_collect_distinct map_of_entries Let_def)
  have wf: "json_wf (projr (provider_body ser c))" if "c \<in> set configs" for c
    using that ys provider_body_wf by fastforce
  have "json_wf (JArray vs)" if "(q, vs) \<in> set m" for q vs
  proof -
    from that dist have "map_of m q = Some vs" by simp
    with pushed[of q] own[of q] have "vs = map (\<lambda>c. projr (provider_body ser c)) (filter (\<lambda>c. pc_provider c = q) configs)"
      by (auto simp: Let_def split: if_splits)
    with wf show ?thesis by (auto simp: list_all_iff)
  qed
  then show "json_wf v"
    unfolding v by (intro im_collect_wf) (auto simp del: json_wf.simps)
qed

lemma lower_outputs_result:
  assumes "lower_outputs ser os = Inr v" and "bm_wf os"
  shows "json_at v [name] = map_option (\<lambda>out. projr (output_body ser out)) (map_of os name)"
    and "json_wf v"
proof -
  from assms obtain es
    where es: "try_map (\<lambda>(name, out). and_then (output_body ser out) (\<lambda>body. Inr (name, body))) os = Inr es"
      and v: "v = JObject (im_collect es)"
    by (auto simp: lower_outputs_def and_then_ok)
  with try_map_pairs[of "\<lambda>m. output_body ser (snd m)" "\<lambda>m v. (fst m, v)" os es]
  have es: "es = map (\<lambda>(name, out). (name, projr (output_body ser out))) os"
    and ok: "\<forall>m \<in> set os. \<exists>b. output_body ser (snd m) = Inr b"
    by (simp_all add: case_prod_unfold)
  have "distinct (map fst es)" using assms(2) by (simp add: es increasing_distinct)
  then show "json_at v [name] = map_option (\<lambda>out. projr (output_body ser out)) (map_of os name)"
    by (auto simp: v im_collect_distinct es map_of_entries split: option.splits)
  have "json_wf b" if "b \<in> snd ` set es" for b
    using that ok output_body_wf by (fastforce simp: es)
  then show "json_wf v" unfolding v by (intro im_collect_wf) simp
qed

lemma secret_variable_name_inj: "inj secret_variable_name"
  by (rule injI) (simp add: secret_variable_name_def)

lemma lower_variables_result:
  assumes "distinct names"
  shows "json_at (lower_variables names) [secret_variable_name n] =
      (if n \<in> set names then Some secret_variable else None)"
    and "json_wf (lower_variables names)"
proof -
  have "distinct (map fst (map (\<lambda>name. (secret_variable_name name, secret_variable)) names))"
    using assms secret_variable_name_inj by (auto simp: comp_def distinct_map inj_on_def inj_def)
  then show "json_at (lower_variables names) [secret_variable_name n] =
      (if n \<in> set names then Some secret_variable else None)"
    using secret_variable_name_inj
    by (auto simp: lower_variables_def im_collect_distinct map_of_eq_None_iff inj_def image_image split: option.splits
        dest!: map_of_SomeD)
  have "json_wf secret_variable" by (simp add: secret_variable_def)
  then show "json_wf (lower_variables names)"
    unfolding lower_variables_def by (intro im_collect_wf) auto
qed

lemma wf_sections:
  assumes doc: "lower_document ser g = Inr document" and valid: "valid_graph g" and outs: "bm_wf (outputs g)"
  shows "json_wf (JObject document)"
proof -
  have dist: "distinct (map (\<lambda>r. (rs_type r, rs_name r)) (resources g))"
    "distinct (map (\<lambda>d. (ds_type d, ds_name d)) (data_sources g))"
    using valid by (auto simp: valid_graph_def names_ok_def node_addresses_def resource_address_def[abs_def]
        data_source_address_def[abs_def] distinct_map inj_on_def)
  have res: "json_wf v" if "lower_resources ser (resources g) = Inr v" for v
    using that dist(1) lower_nested(2)[of "resource_body ser" rs_type rs_name "resources g"] resource_body_wf
    by (auto simp: lower_resources_def and_then_ok)
  have data: "json_wf v" if "lower_data_sources ser (data_sources g) = Inr v" for v
    using that dist(2) lower_nested(2)[of "data_source_body ser" ds_type ds_name "data_sources g"]
      data_source_body_wf
    by (auto simp: lower_data_sources_def and_then_ok)
  have required: "json_wf (JObject (im_insert ''required_providers'' (lower_required (required_providers g)) []))"
    unfolding lower_required_def
    by (intro im_insert_wf im_collect_wf) (auto simp del: collect_by_simps im_insert.simps json_wf.simps(1)
        intro!: im_collect_wf)
  have lists: "json_wf (lower_moves (moves g))" "json_wf (lower_imports (graph_imports g))"
    unfolding lower_moves_def lower_imports_def
    by (auto simp: list_all_iff simp del: collect_by_simps json_wf.simps(1) intro!: im_collect_wf)
  have variables: "json_wf (lower_variables (secret_environment_names g))"
    by (intro lower_variables_result increasing_distinct increasing_secret_environment_names)
  show ?thesis
    using doc
  proof (rule lower_document_steps)
    fix d1 d2 d3 d4 d5 d6 d7
    assume steps:
      "put_section ''terraform'' (required_providers g \<noteq> [])
       (Inr (JObject (im_insert ''required_providers'' (lower_required (required_providers g)) []))) [] = Inr d1"
      "put_section ''variable'' (secret_environment_names g \<noteq> [])
       (Inr (lower_variables (secret_environment_names g))) d1 = Inr d2"
      "put_section ''provider'' (provider_configs g \<noteq> []) (lower_providers ser (provider_configs g)) d2 = Inr d3"
      "put_section ''resource'' (resources g \<noteq> []) (lower_resources ser (resources g)) d3 = Inr d4"
      "put_section ''data'' (data_sources g \<noteq> []) (lower_data_sources ser (data_sources g)) d4 = Inr d5"
      "put_section ''output'' (outputs g \<noteq> []) (lower_outputs ser (outputs g)) d5 = Inr d6"
      "put_section ''moved'' (moves g \<noteq> []) (Inr (lower_moves (moves g))) d6 = Inr d7"
      "put_section ''import'' (graph_imports g \<noteq> []) (Inr (lower_imports (graph_imports g))) d7 = Inr document"
    note wf = put_section_wf[OF steps(8)] put_section_wf[OF steps(7)] put_section_wf[OF steps(6)]
      put_section_wf[OF steps(5)] put_section_wf[OF steps(4)] put_section_wf[OF steps(3)]
      put_section_wf[OF steps(2)] put_section_wf[OF steps(1)]
    show ?thesis
      by (rule wf)+ (use res data required lists variables lower_providers_result(2)
          lower_outputs_result(2)[OF _ outs] in \<open>auto simp del: json_wf.simps\<close>)
  qed
qed

lemma map_of_keyed: "map_of (map (\<lambda>x. (key x, f x)) xs) k = map_option f (find (\<lambda>x. key x = k) xs)"
  by (induction xs) auto

lemma lower_at:
  assumes "lower ser g = Inr v" and outs: "bm_wf (outputs g)"
  shows "valid_graph g"
    and "json_wf v" and "json_sorted v"
    and "json_at v (key # ks) =
      (case section_of ser g key of None \<Rightarrow> None | Some s \<Rightarrow> map_option sort_json (json_at (projr s) ks))"
    and "section_of ser g key = Some s \<Longrightarrow> is_ok s"
proof -
  have ok: "is_ok (lower ser g)" using assms(1) by simp
  then show valid: "valid_graph g" by (simp add: lower_ok_iff)
  from assms(1) obtain document where doc: "lower_document ser g = Inr document"
    and v: "v = sort_json (JObject document)"
    by (auto simp: lower_def and_then_ok simp del: sort_json.simps split: sum.splits list.splits)
  have wf: "json_wf (JObject document)" using doc valid outs by (rule wf_sections)
  then show "json_wf v" "json_sorted v"
    unfolding v by (rule sort_json_wf, rule sort_json_sorted)
  show "json_at v (key # ks) =
      (case section_of ser g key of None \<Rightarrow> None | Some s \<Rightarrow> map_option sort_json (json_at (projr s) ks))"
    unfolding v sort_json_at[OF wf]
    by (auto simp: lower_document_sections[OF doc] split: option.splits)
  from ok have "\<forall>e \<in> exprs_of g. renderable e" by (simp add: lower_ok_iff)
  then show "section_of ser g key = Some s \<Longrightarrow> is_ok s"
    by (auto simp: section_of_def exprs_of_def ball_Un split: if_splits)
qed

lemma lowered_resource:
  assumes "lower ser g = Inr v" and outs: "bm_wf (outputs g)"
  shows "json_at v [''resource'', t, n] =
    map_option (\<lambda>r. sort_json (projr (resource_body ser r)))
      (find (\<lambda>r. rs_type r = t \<and> rs_name r = n) (resources g))"
proof (cases "resources g = []")
  case True
  then show ?thesis
    by (subst lower_at(4)[OF assms]) (simp add: section_of_def)
next
  case False
  then have s: "section_of ser g ''resource'' = Some (lower_resources ser (resources g))"
    by (simp add: section_of_def)
  from lower_at(5)[OF assms s] obtain w where w: "lower_resources ser (resources g) = Inr w"
    unfolding is_ok_iff by blast
  have dist: "distinct (map (\<lambda>r. (rs_type r, rs_name r)) (resources g))"
    using lower_at(1)[OF assms] by (auto simp: valid_graph_def names_ok_def node_addresses_def
        resource_address_def[abs_def] distinct_map inj_on_def)
  from w have "json_at w [t, n] =
      map_of (map (\<lambda>r. ((rs_type r, rs_name r), projr (resource_body ser r))) (resources g)) (t, n)"
    using lower_nested(1)[OF _ dist resource_body_wf] by (auto simp: lower_resources_def and_then_ok)
  then show ?thesis
    by (subst lower_at(4)[OF assms])
      (simp add: s w map_of_keyed[where key = "\<lambda>r. (rs_type r, rs_name r)"] option.map_comp comp_def)
qed

lemma lowered_data_source:
  assumes "lower ser g = Inr v" and outs: "bm_wf (outputs g)"
  shows "json_at v [''data'', t, n] =
    map_option (\<lambda>d. sort_json (projr (data_source_body ser d)))
      (find (\<lambda>d. ds_type d = t \<and> ds_name d = n) (data_sources g))"
proof (cases "data_sources g = []")
  case True
  then show ?thesis
    by (subst lower_at(4)[OF assms]) (simp add: section_of_def)
next
  case False
  then have s: "section_of ser g ''data'' = Some (lower_data_sources ser (data_sources g))"
    by (simp add: section_of_def)
  from lower_at(5)[OF assms s] obtain w where w: "lower_data_sources ser (data_sources g) = Inr w"
    unfolding is_ok_iff by blast
  have dist: "distinct (map (\<lambda>d. (ds_type d, ds_name d)) (data_sources g))"
    using lower_at(1)[OF assms] by (auto simp: valid_graph_def names_ok_def node_addresses_def
        data_source_address_def[abs_def] distinct_map inj_on_def)
  from w have "json_at w [t, n] =
      map_of (map (\<lambda>d. ((ds_type d, ds_name d), projr (data_source_body ser d))) (data_sources g)) (t, n)"
    using lower_nested(1)[OF _ dist data_source_body_wf] by (auto simp: lower_data_sources_def and_then_ok)
  then show ?thesis
    by (subst lower_at(4)[OF assms])
      (simp add: s w map_of_keyed[where key = "\<lambda>d. (ds_type d, ds_name d)"] option.map_comp comp_def)
qed

lemma lowered_output:
  assumes "lower ser g = Inr v" and outs: "bm_wf (outputs g)"
  shows "json_at v [''output'', n] =
    map_option (\<lambda>out. sort_json (projr (output_body ser out))) (map_of (outputs g) n)"
proof (cases "outputs g = []")
  case True
  then show ?thesis
    by (subst lower_at(4)[OF assms]) (simp add: section_of_def)
next
  case False
  then have s: "section_of ser g ''output'' = Some (lower_outputs ser (outputs g))"
    by (simp add: section_of_def)
  from lower_at(5)[OF assms s] obtain w where w: "lower_outputs ser (outputs g) = Inr w"
    unfolding is_ok_iff by blast
  from lower_outputs_result(1)[OF w outs] show ?thesis
    by (subst lower_at(4)[OF assms]) (simp add: s w option.map_comp comp_def)
qed

lemma lowered_provider:
  assumes "lower ser g = Inr v" and outs: "bm_wf (outputs g)"
  shows "json_at v [''provider'', p] =
    (let own = filter (\<lambda>c. pc_provider c = p) (provider_configs g)
     in if own = [] then None
        else Some (JArray (map (\<lambda>c. sort_json (projr (provider_body ser c))) own)))"
proof (cases "provider_configs g = []")
  case True
  then show ?thesis
    by (subst lower_at(4)[OF assms]) (simp add: section_of_def)
next
  case False
  then have s: "section_of ser g ''provider'' = Some (lower_providers ser (provider_configs g))"
    by (simp add: section_of_def)
  from lower_at(5)[OF assms s] obtain w where w: "lower_providers ser (provider_configs g) = Inr w"
    unfolding is_ok_iff by blast
  from lower_providers_result(1)[OF w, of p] show ?thesis
    by (subst lower_at(4)[OF assms]) (simp add: s w Let_def)
qed

lemma lowered_variable:
  assumes "lower ser g = Inr v" and outs: "bm_wf (outputs g)"
  shows "json_at v [''variable'', secret_variable_name n] =
    (if \<exists>e \<in> exprs_of g. n \<in> secrets_of e then Some (sort_json secret_variable) else None)"
proof -
  have names: "n \<in> set (secret_environment_names g) \<longleftrightarrow> (\<exists>e \<in> exprs_of g. n \<in> secrets_of e)"
    by (simp add: set_secret_environment_names)
  show ?thesis
  proof (cases "secret_environment_names g = []")
    case True
    with names show ?thesis
      by (subst lower_at(4)[OF assms]) (auto simp: section_of_def)
  next
    case False
    then have s: "section_of ser g ''variable'' = Some (Inr (lower_variables (secret_environment_names g)))"
      by (simp add: section_of_def)
    show ?thesis
      using lower_variables_result(1)[OF increasing_distinct[OF increasing_secret_environment_names], of g n] names
      by (subst lower_at(4)[OF assms]) (simp add: s)
  qed
qed

section \<open>Properties\<close>

text \<open>The sample with its stack reference resolved, and a serializer that writes nothing.\<close>

definition sample_resolved :: graph_document where
  "sample_resolved = sample_graph
     \<lparr>stack_references := [],
      data_sources := [resolved_data_source ''network'' ''local'' [(''path'', JString ''network.tfstate'')]]\<rparr>"

definition plain_serializer :: "json \<Rightarrow> string" where
  "plain_serializer v = (case v of JString s \<Rightarrow> s | _ \<Rightarrow> [])"

definition sample_lowered :: json where
  "sample_lowered = projr (lower plain_serializer sample_resolved)"

lemma sample_lowers: "lower plain_serializer sample_resolved = Inr sample_lowered"
proof -
  have "is_ok (lower plain_serializer sample_resolved)" by code_simp
  then show ?thesis by (auto simp: sample_lowered_def elim!: is_okE)
qed

lemma sample_outputs: "bm_wf (outputs sample_resolved)"
  by (simp add: sample_resolved_def sample_defs)

text \<open>C5. Lowering to OpenTofu JSON succeeds exactly on the valid documents without stack
  references none of whose expressions holds a blank raw fragment: no other error is possible
  after validation.\<close>

theorem lower_succeeds:
  "is_ok (lower ser g) \<longleftrightarrow>
     valid_graph g \<and> stack_references g = [] \<and> (\<forall>e \<in> exprs_of g. renderable e)"
  by (rule lower_ok_iff)

lemma lower_succeeds_witness:
  "valid_graph sample_resolved \<and> stack_references sample_resolved = []"
  using lower_succeeds[of plain_serializer sample_resolved] sample_lowers by simp

text \<open>The lowered document is canonical: no object in it repeats a key, and all are in key
  order, at every depth.\<close>

lemma lowered_is_canonical:
  assumes "lower ser g = Inr v" and "bm_wf (outputs g)"
  shows "json_wf v \<and> json_sorted v"
  using lower_at(2,3)[OF assms] by blast

lemma lowered_is_canonical_witness: "json_wf sample_lowered \<and> json_sorted sample_lowered"
  by (rule lowered_is_canonical[OF sample_lowers sample_outputs])

text \<open>C4. The block of a resource or data source in the lowered document is found under its
  type and name, is the lowering of that node alone, and there is one for the nodes of the
  graph only: no node overwrites another, whatever the order they are declared in.\<close>

theorem lowered_nodes:
  assumes "lower ser g = Inr v" and "bm_wf (outputs g)"
  shows "json_at v [''resource'', t, n] =
      map_option (\<lambda>r. sort_json (projr (resource_body ser r)))
        (find (\<lambda>r. rs_type r = t \<and> rs_name r = n) (resources g)) \<and>
    json_at v [''data'', t, n] =
      map_option (\<lambda>d. sort_json (projr (data_source_body ser d)))
        (find (\<lambda>d. ds_type d = t \<and> ds_name d = n) (data_sources g))"
  using lowered_resource[OF assms] lowered_data_source[OF assms] by blast

lemma lowered_nodes_witness:
  "json_at sample_lowered [''resource'', ''digitalocean_tag'', ''app''] =
     Some (JObject [(''name'', JString ''app''), (''provider'', JString ''digitalocean'')]) \<and>
   json_at sample_lowered [''data'', REMOTE_STATE_DATA_SOURCE, ''app''] = None"
proof -
  have "map_option (\<lambda>r. sort_json (projr (resource_body plain_serializer r)))
      (find (\<lambda>r. rs_type r = ''digitalocean_tag'' \<and> rs_name r = ''app'') (resources sample_resolved)) =
    Some (JObject [(''name'', JString ''app''), (''provider'', JString ''digitalocean'')])"
    by code_simp
  moreover have "map_option (\<lambda>d. sort_json (projr (data_source_body plain_serializer d)))
      (find (\<lambda>d. ds_type d = REMOTE_STATE_DATA_SOURCE \<and> ds_name d = ''app'') (data_sources sample_resolved)) = None"
    by code_simp
  ultimately show ?thesis
    using lowered_nodes[OF sample_lowers sample_outputs, of "''digitalocean_tag''" "''app''"]
      lowered_nodes[OF sample_lowers sample_outputs, of REMOTE_STATE_DATA_SOURCE "''app''"]
    by argo
qed

text \<open>A provider of the lowered document lists its configurations, in the order the graph
  declares them and only its own.\<close>

lemma lowered_provider_configs:
  assumes "lower ser g = Inr v" and "bm_wf (outputs g)"
  shows "json_at v [''provider'', p] =
    (let own = filter (\<lambda>c. pc_provider c = p) (provider_configs g)
     in if own = [] then None
        else Some (JArray (map (\<lambda>c. sort_json (projr (provider_body ser c))) own)))"
  using assms by (rule lowered_provider)

lemma lowered_provider_configs_witness: "json_at sample_lowered [''provider'', ''aws''] = None"
  using lowered_provider_configs[OF sample_lowers sample_outputs, of "''aws''"]
  by (simp add: sample_resolved_def sample_defs Let_def)

text \<open>An output of the lowered document is the lowering of the graph's output of that name.\<close>

lemma lowered_outputs:
  assumes "lower ser g = Inr v" and "bm_wf (outputs g)"
  shows "json_at v [''output'', n] =
    map_option (\<lambda>out. sort_json (projr (output_body ser out))) (map_of (outputs g) n)"
  using assms by (rule lowered_output)

lemma lowered_outputs_witness:
  "json_at sample_lowered [''output'', ''tag''] = Some (JObject [(''value'', JString ''${digitalocean_tag.app.id}'')])"
proof -
  have "map_option (\<lambda>out. sort_json (projr (output_body plain_serializer out)))
      (map_of (outputs sample_resolved) ''tag'') =
    Some (JObject [(''value'', JString ''${digitalocean_tag.app.id}'')])"
    by code_simp
  with lowered_outputs[OF sample_lowers sample_outputs, of "''tag''"] show ?thesis by argo
qed

text \<open>The lowered document declares a sensitive input variable for every environment
  variable an expression reads, and for no other name.\<close>

lemma lowered_variables:
  assumes "lower ser g = Inr v" and "bm_wf (outputs g)"
  shows "json_at v [''variable'', secret_variable_name n] =
    (if \<exists>e \<in> exprs_of g. n \<in> secrets_of e then Some (sort_json secret_variable) else None)"
  using assms by (rule lowered_variable)

lemma lowered_variables_witness:
  "json_at sample_lowered [''variable'', secret_variable_name ''DO_TOKEN''] = Some (sort_json secret_variable)"
proof -
  have "\<exists>e \<in> exprs_of sample_resolved. ''DO_TOKEN'' \<in> secrets_of e"
    by (auto simp: exprs_of_def sample_resolved_def sample_defs)
  with lowered_variables[OF sample_lowers sample_outputs, of "''DO_TOKEN''"] show ?thesis by simp
qed

text \<open>C6. Escaping a literal loses nothing, and what it gives holds no unguarded start of an
  interpolation or directive, so no text of the program is evaluated by OpenTofu.\<close>

theorem escape_template_safe:
  "unescape_template (escape_template s) = s \<and>
   inert (CHR ''$'') False (escape_template s) \<and> inert (CHR ''%'') False (escape_template s)"
  using unescape_escape escape_inert by blast

end
