(* ===== verification/Compact_Json.thy ===== *)
theory Compact_Json
  imports Prelude
begin

text \<open>
  \<open>crates/provider-schema/src/compact.rs\<close>: reading JSON without its insignificant white
  space. The reader is the sequence of what its \<open>read\<close> calls return; the scanner \<open>push\<close>
  works on whole chunks, and is shown to be a byte automaton, so that the chunk boundaries do
  not matter; the text it keeps has the tokens of the text it reads.
\<close>

section \<open>The scanner\<close>

definition json_space :: "char \<Rightarrow> bool" where
  "json_space c \<longleftrightarrow> c = CHR '' '' \<or> c = CHR 0x09 \<or> c = CHR 0x0A \<or> c = CHR 0x0D"

definition atom_byte :: "char \<Rightarrow> bool" where
  "atom_byte c \<longleftrightarrow> is_ascii_alphanumeric c \<or> c = CHR ''-'' \<or> c = CHR ''+'' \<or> c = CHR ''.''"

function whitespace_from :: "string \<Rightarrow> nat \<Rightarrow> nat" where
  "whitespace_from bytes run =
     (if run + 8 \<le> length bytes \<and> take 8 (drop run bytes) = ''        ''
      then whitespace_from bytes (run + 8)
      else if run < length bytes \<and> json_space (bytes ! run) then whitespace_from bytes (run + 1)
      else run)"
  by pat_completeness auto
termination by (relation "measure (\<lambda>(bytes, run). length bytes - run)") auto

declare whitespace_from.simps [simp del]

definition whitespace_run :: "string \<Rightarrow> nat" where
  "whitespace_run bytes = whitespace_from bytes 0"

definition is_quote :: "char \<Rightarrow> bool" where
  "is_quote c \<longleftrightarrow> c = CHR 0x22"

definition is_backslash :: "char \<Rightarrow> bool" where
  "is_backslash c \<longleftrightarrow> c = CHR 0x5C"

text \<open>\<open>memchr2\<close>: the position of the first quote or backslash.\<close>

definition memchr2 :: "string \<Rightarrow> nat option" where
  "memchr2 bytes =
     (let at = length (takeWhile (\<lambda>c. \<not> is_quote c \<and> \<not> is_backslash c) bytes)
      in if at < length bytes then Some at else None)"

record compacting =
  in_string :: bool
  escaped :: bool
  pending :: bool
  dropped :: nat

definition compacting_default :: compacting where
  "compacting_default = \<lparr>in_string = False, escaped = False, pending = False, dropped = 0\<rparr>"

text \<open>A space that must stay: the bytes around the dropped white space belong to two atoms.\<close>

definition keep_apart :: "compacting \<Rightarrow> string \<Rightarrow> char \<Rightarrow> string" where
  "keep_apart st compact b =
     (if pending st \<and> compact \<noteq> [] \<and> atom_byte (last compact) \<and> atom_byte b then '' '' else '''')"

function push :: "compacting \<Rightarrow> string \<Rightarrow> string \<Rightarrow> compacting \<times> string" where
  "push st [] compact = (st, compact)"
| "push st (b # bytes) compact =
     (if in_string st then
        if escaped st then push (st\<lparr>escaped := False\<rparr>) bytes (compact @ [b])
        else (case memchr2 (b # bytes) of
            None \<Rightarrow> (st, compact @ b # bytes)
          | Some offset \<Rightarrow>
              push (if is_quote ((b # bytes) ! offset) then st\<lparr>in_string := False\<rparr> else st\<lparr>escaped := True\<rparr>)
                (drop (Suc offset) (b # bytes)) (compact @ take (Suc offset) (b # bytes)))
      else
        let whitespace = whitespace_run (b # bytes)
        in if 0 < whitespace
           then push (st\<lparr>pending := True, dropped := dropped st + whitespace\<rparr>)
                  (drop whitespace (b # bytes)) compact
           else push (st\<lparr>pending := False, in_string := is_quote b\<rparr>) bytes
                  (compact @ keep_apart st compact b @ [b]))"
  by pat_completeness auto
termination by (relation "measure (\<lambda>(st, bytes, compact). length bytes)") auto

section \<open>The scanner as a byte automaton\<close>

lemma space_is_json_space: "json_space (CHR '' '')"
  by (simp add: json_space_def)

lemma whitespace_from_takeWhile:
  "run \<le> length bytes \<Longrightarrow> whitespace_from bytes run = run + length (takeWhile json_space (drop run bytes))"
proof (induction bytes run rule: whitespace_from.induct)
  case (1 bytes run)
  show ?case
  proof (cases "run + 8 \<le> length bytes \<and> take 8 (drop run bytes) = ''        ''")
    case True
    then have ys: "drop run bytes = ''        '' @ drop (run + 8) bytes"
      using append_take_drop_id[of 8 "drop run bytes"] by (simp add: add.commute)
    with True 1 ys show ?thesis
      by (subst whitespace_from.simps) (simp add: space_is_json_space)
  next
    case no8: False
    show ?thesis
    proof (cases "run < length bytes \<and> json_space (bytes ! run)")
      case True
      then have "drop run bytes = bytes ! run # drop (Suc run) bytes" by (simp add: Cons_nth_drop_Suc)
      with no8 True 1 show ?thesis by (subst whitespace_from.simps) auto
    next
      case False
      then have "takeWhile json_space (drop run bytes) = []"
        by (cases "run < length bytes") (auto simp: takeWhile_eq_Nil_iff hd_drop_conv_nth)
      with no8 False show ?thesis by (subst whitespace_from.simps) auto
    qed
  qed
qed

lemma whitespace_run_takeWhile: "whitespace_run bytes = length (takeWhile json_space bytes)"
  by (simp add: whitespace_run_def whitespace_from_takeWhile)

fun push_byte :: "char \<Rightarrow> compacting \<times> string \<Rightarrow> compacting \<times> string" where
  "push_byte b (st, compact) =
     (if in_string st then
        (if escaped st then st\<lparr>escaped := False\<rparr>
         else if is_quote b then st\<lparr>in_string := False\<rparr>
         else if is_backslash b then st\<lparr>escaped := True\<rparr> else st, compact @ [b])
      else if json_space b then (st\<lparr>pending := True, dropped := Suc (dropped st)\<rparr>, compact)
      else (st\<lparr>pending := False, in_string := is_quote b\<rparr>, compact @ keep_apart st compact b @ [b]))"

lemma memchr2_simps [simp]:
  "memchr2 [] = None"
  "memchr2 (b # bytes) = (if is_quote b \<or> is_backslash b then Some 0 else map_option Suc (memchr2 bytes))"
  by (auto simp: memchr2_def Let_def)

lemma push_in_string:
  "in_string st \<Longrightarrow> \<not> escaped st \<Longrightarrow>
   fold push_byte bytes (st, compact) =
     (case memchr2 bytes of
        None \<Rightarrow> (st, compact @ bytes)
      | Some at \<Rightarrow>
          fold push_byte (drop (Suc at) bytes)
            (if is_quote (bytes ! at) then st\<lparr>in_string := False\<rparr> else st\<lparr>escaped := True\<rparr>,
             compact @ take (Suc at) bytes))"
proof (induction bytes arbitrary: compact)
  case (Cons b bytes)
  then show ?case by (auto split: option.splits)
qed simp

lemma fold_spaces:
  "\<not> in_string st \<Longrightarrow> \<forall>c \<in> set xs. json_space c \<Longrightarrow> xs \<noteq> [] \<Longrightarrow>
   fold push_byte xs (st, compact) = (st\<lparr>pending := True, dropped := dropped st + length xs\<rparr>, compact)"
proof (induction xs arbitrary: st)
  case (Cons x xs)
  then show ?case by (cases "xs = []") auto
qed simp

lemma push_bytes: "push st bytes compact = fold push_byte bytes (st, compact)"
proof (induction st bytes compact rule: push.induct)
  case (2 st b bytes compact)
  let ?bs = "b # bytes"
  show ?case
  proof (cases "in_string st")
    case quoted: True
    show ?thesis
    proof (cases "escaped st")
      case True
      with quoted 2 show ?thesis by simp
    next
      case False
      note fold = push_in_string[OF quoted False, of ?bs compact]
      show ?thesis
      proof (cases "memchr2 ?bs")
        case None
        with fold quoted False show ?thesis by (simp del: memchr2_simps fold_simps fold.simps)
      next
        case (Some at)
        with fold quoted False 2(2)[OF quoted False Some] show ?thesis
          by (simp del: memchr2_simps fold_simps fold.simps)
      qed
    qed
  next
    case plain: False
    show ?thesis
    proof (cases "json_space b")
      case True
      let ?ws = "takeWhile json_space ?bs"
      have "fold push_byte ?bs (st, compact) = fold push_byte (drop (length ?ws) ?bs) (fold push_byte ?ws (st, compact))"
        by (metis fold_append comp_apply takeWhile_dropWhile_id dropWhile_eq_drop)
      also have "fold push_byte ?ws (st, compact) =
          (st\<lparr>pending := True, dropped := dropped st + length ?ws\<rparr>, compact)"
        using plain True by (intro fold_spaces) (auto dest: set_takeWhileD)
      finally show ?thesis
        using 2(3)[OF plain refl] plain True by (simp add: whitespace_run_takeWhile)
    next
      case False
      with plain 2(4)[OF plain refl] show ?thesis by (simp add: whitespace_run_takeWhile)
    qed
  qed
qed simp

section \<open>What compacting keeps\<close>

text \<open>
  The tokens of a text: strings with their quotes, maximal runs of atom bytes, and every other
  byte that is not white space on its own.
\<close>

datatype lexing = Between | Atom string | Quoted bool string

fun lex_flush :: "lexing \<Rightarrow> string list" where
  "lex_flush Between = []"
| "lex_flush (Atom w) = [w]"
| "lex_flush (Quoted esc w) = [w]"

fun lex_byte :: "char \<Rightarrow> lexing \<times> string list \<Rightarrow> lexing \<times> string list" where
  "lex_byte b (Quoted esc w, ts) =
     (if esc then (Quoted False (w @ [b]), ts)
      else if is_quote b then (Between, ts @ [w @ [b]])
      else (Quoted (is_backslash b) (w @ [b]), ts))"
| "lex_byte b (m, ts) =
     (if json_space b then (Between, ts @ lex_flush m)
      else if is_quote b then (Quoted False [b], ts @ lex_flush m)
      else if atom_byte b then (Atom (concat (lex_flush m) @ [b]), ts)
      else (Between, ts @ lex_flush m @ [[b]]))"

definition lex_all :: "string \<Rightarrow> lexing \<times> string list" where
  "lex_all doc = fold lex_byte doc (Between, [])"

definition json_tokens :: "string \<Rightarrow> string list" where
  "json_tokens doc = (let (m, ts) = lex_all doc in ts @ lex_flush m)"

lemma lex_all_snoc: "lex_all (doc @ [b]) = lex_byte b (lex_all doc)"
  by (simp add: lex_all_def)

text \<open>
  After any prefix of the input, the lexer on the kept doc is where it is on the input, except
  that it has not seen white space that was dropped. The scanner's flags say in which state the
  lexer is.
\<close>

definition mode_ok :: "compacting \<Rightarrow> string \<Rightarrow> lexing \<Rightarrow> bool" where
  "mode_ok st compact m \<longleftrightarrow>
     (case m of
        Quoted esc w \<Rightarrow> in_string st \<and> escaped st = esc \<and> \<not> pending st
      | Atom w \<Rightarrow> \<not> in_string st \<and> \<not> escaped st \<and> compact \<noteq> [] \<and> atom_byte (last compact)
      | Between \<Rightarrow> \<not> in_string st \<and> \<not> escaped st \<and> (compact = [] \<or> \<not> atom_byte (last compact)))"

definition compact_sim :: "string \<Rightarrow> compacting \<times> string \<Rightarrow> bool" where
  "compact_sim doc sc \<longleftrightarrow>
     (case sc of (st, compact) \<Rightarrow>
        mode_ok st compact (fst (lex_all compact)) \<and>
        lex_all doc =
          (if pending st then (Between, snd (lex_all compact) @ lex_flush (fst (lex_all compact)))
           else lex_all compact))"

lemma byte_classes:
  "is_quote b \<Longrightarrow> \<not> json_space b" "is_quote b \<Longrightarrow> \<not> atom_byte b" "atom_byte b \<Longrightarrow> \<not> json_space b"
  "is_quote b \<Longrightarrow> \<not> is_backslash b"
  by (auto simp: is_quote_def is_backslash_def json_space_def atom_byte_def string_simps)

lemma compact_sim_byte:
  assumes "compact_sim doc (st, compact)"
  shows "compact_sim (doc @ [b]) (push_byte b (st, compact))"
proof -
  obtain m ts where lex: "lex_all compact = (m, ts)" by (cases "lex_all compact")
  show ?thesis
  proof (cases m)
    case (Quoted esc w)
    then show ?thesis
      using assms lex byte_classes[of b]
      by (auto simp: compact_sim_def mode_ok_def lex_all_snoc)
  next
    case Between
    show ?thesis
    proof (cases "json_space b")
      case True
      then show ?thesis
        using assms lex Between by (auto simp: compact_sim_def mode_ok_def lex_all_snoc)
    next
      case False
      then show ?thesis
        using assms lex Between byte_classes[of b]
        by (auto simp: compact_sim_def mode_ok_def lex_all_snoc keep_apart_def)
    qed
  next
    case (Atom w)
    show ?thesis
    proof (cases "json_space b")
      case True
      then show ?thesis
        using assms lex Atom by (auto simp: compact_sim_def mode_ok_def lex_all_snoc)
    next
      case False
      have "lex_all (compact @ '' '') = (Between, ts @ [w])"
        using lex Atom by (simp add: lex_all_snoc space_is_json_space)
      then have apart: "lex_all (compact @ '' '' @ [b]) = lex_byte b (Between, ts @ [w])"
        by (metis append_assoc lex_all_snoc)
      show ?thesis
      proof (cases "pending st \<and> atom_byte b")
        case True
        then show ?thesis
          using assms lex Atom byte_classes[of b] apart False
          by (auto simp: compact_sim_def mode_ok_def lex_all_snoc keep_apart_def)
      next
        case no: False
        then have "keep_apart st compact b = []" by (auto simp: keep_apart_def)
        with no show ?thesis
          using assms lex Atom byte_classes[of b] False
          by (auto simp: compact_sim_def mode_ok_def lex_all_snoc)
      qed
    qed
  qed
qed

lemma compact_sim_all:
  "compact_sim doc sc \<Longrightarrow> compact_sim (doc @ bytes) (fold push_byte bytes sc)"
proof (induction bytes arbitrary: doc sc)
  case (Cons b bytes)
  from Cons.prems have "compact_sim (doc @ [b]) (push_byte b sc)"
    by (cases sc) (simp only: compact_sim_byte)
  from Cons.IH[OF this] show ?case by simp
qed simp

lemma compact_sim_start: "compact_sim [] (compacting_default, [])"
  by (simp add: compact_sim_def mode_ok_def compacting_default_def lex_all_def)

lemma compact_sim_tokens: "compact_sim doc (st, compact) \<Longrightarrow> json_tokens compact = json_tokens doc"
  by (auto simp: compact_sim_def json_tokens_def case_prod_beta split: if_splits)

section \<open>Reading\<close>

text \<open>
  What one call of \<open>read\<close> returns: a chunk (empty at the end), an interruption or another
  error. \<open>read_to_end\<close> of the standard library retries an interrupted read. When the list of
  calls is used up the reader is at its end.
\<close>

datatype 'e read_call = Chunk string | Interrupted | Failed 'e

fun read_to_end :: "'e read_call list \<Rightarrow> string \<Rightarrow> ('e, string) result" where
  "read_to_end [] compact = Inr compact"
| "read_to_end (Chunk bytes # calls) compact =
     (if bytes = [] then Inr compact else read_to_end calls (compact @ bytes))"
| "read_to_end (Interrupted # calls) compact = read_to_end calls compact"
| "read_to_end (Failed e # calls) compact = Inl e"

fun read_loop ::
  "'e read_call list \<Rightarrow> compacting \<Rightarrow> bool \<Rightarrow> string \<Rightarrow> ('e, string) result" where
  "read_loop [] st first compact = Inr compact"
| "read_loop (Chunk bytes # calls) st first compact =
     (if bytes = [] then Inr compact
      else
        let (st, compact) = push st bytes compact
        in if first \<and> dropped st = 0 then read_to_end calls compact
           else read_loop calls st False compact)"
| "read_loop (Interrupted # calls) st first compact = read_loop calls st first compact"
| "read_loop (Failed e # calls) st first compact = Inl e"

definition read_compact_json :: "'e read_call list \<Rightarrow> ('e, string) result" where
  "read_compact_json calls = read_loop calls compacting_default True []"

text \<open>What the reader delivers, or the error it stops at.\<close>

definition read_all :: "'e read_call list \<Rightarrow> ('e, string) result" where
  "read_all calls = read_to_end calls []"

lemma read_to_end_append: "read_to_end calls compact = and_then (read_all calls) (\<lambda>bytes. Inr (compact @ bytes))"
proof -
  have "read_to_end calls (xs @ ys) = and_then (read_to_end calls ys) (\<lambda>bytes. Inr (xs @ bytes))" for xs ys
    by (induction calls ys rule: read_to_end.induct) auto
  from this[of compact "[]"] show ?thesis by (simp add: read_all_def)
qed

lemma dropped_mono: "dropped (fst sc) \<le> dropped (fst (push_byte b sc))"
  by (cases sc) auto

lemma dropped_fold_mono: "dropped (fst sc) \<le> dropped (fst (fold push_byte bytes sc))"
proof (induction bytes arbitrary: sc)
  case (Cons b bytes)
  from order_trans[OF dropped_mono Cons.IH, of sc b] show ?case by simp
qed simp

text \<open>A chunk with nothing to drop is kept as it is.\<close>

lemma nothing_dropped:
  "\<not> pending st \<Longrightarrow> dropped (fst (fold push_byte bytes (st, compact))) = dropped st \<Longrightarrow>
     snd (fold push_byte bytes (st, compact)) = compact @ bytes"
proof (induction bytes arbitrary: st compact)
  case (Cons b bytes)
  obtain st' compact' where step: "push_byte b (st, compact) = (st', compact')" by (cases "push_byte b (st, compact)")
  have "dropped st \<le> dropped st'" "dropped st' \<le> dropped (fst (fold push_byte bytes (st', compact')))"
    using dropped_mono[of "(st, compact)" b] dropped_fold_mono[of "(st', compact')" bytes] step by simp_all
  with Cons.prems step have same: "dropped st' = dropped st" by simp
  then have "\<not> pending st' \<and> compact' = compact @ [b]"
    using step Cons.prems(1) by (auto simp: keep_apart_def split: if_splits)
  with Cons step same show ?case by simp
qed simp

lemma read_loop_tokens:
  "compact_sim seen (st, compact) \<Longrightarrow>
   (case read_loop calls st False compact of
      Inl e \<Rightarrow> read_all calls = Inl e
    | Inr out \<Rightarrow> \<exists>bytes. read_all calls = Inr bytes \<and> json_tokens out = json_tokens (seen @ bytes))"
proof (induction calls st False compact arbitrary: seen rule: read_loop.induct)
  case (2 bytes calls st compact)
  obtain st' compact' where push: "push st bytes compact = (st', compact')" by (cases "push st bytes compact")
  then have sim: "compact_sim (seen @ bytes) (st', compact')"
    using compact_sim_all[OF 2(2), of bytes] by (simp add: push_bytes)
  show ?case
  proof (cases "bytes = []")
    case True
    with 2(2) show ?thesis by (auto simp: read_all_def dest: compact_sim_tokens)
  next
    case False
    have rest: "read_all (Chunk bytes # calls) = and_then (read_all calls) (\<lambda>more. Inr (bytes @ more))"
      using False by (simp add: read_all_def read_to_end_append[of calls bytes])
    show ?thesis
      using 2(1)[OF False push[symmetric] refl _ sim] False push
      by (auto simp: rest split: sum.splits)
  qed
qed (auto simp: read_all_def dest: compact_sim_tokens split: sum.splits)

lemma read_compact_tokens:
  "case read_compact_json calls of
      Inl e \<Rightarrow> read_all calls = Inl e
    | Inr out \<Rightarrow> \<exists>bytes. read_all calls = Inr bytes \<and> json_tokens out = json_tokens bytes"
proof (induction calls)
  case Nil
  then show ?case by (simp add: read_compact_json_def read_all_def)
next
  case (Cons call calls)
  show ?case
  proof (cases call)
    case (Chunk bytes)
    obtain st compact where push: "push compacting_default bytes [] = (st, compact)"
      by (cases "push compacting_default bytes []")
    then have sim: "compact_sim bytes (st, compact)"
      using compact_sim_all[OF compact_sim_start, of bytes] by (simp add: push_bytes)
    show ?thesis
    proof (cases "bytes = [] \<or> dropped st = 0")
      case True
      have "compact = bytes" if "dropped st = 0"
        using nothing_dropped[of compacting_default bytes "[]"] push that
        by (simp add: push_bytes compacting_default_def)
      with True push show ?thesis
        by (auto simp: Chunk read_compact_json_def read_all_def split: sum.splits)
    next
      case False
      have "read_all (Chunk bytes # calls) = and_then (read_all calls) (\<lambda>more. Inr (bytes @ more))"
        using False by (simp add: read_all_def read_to_end_append[of calls bytes])
      with read_loop_tokens[OF sim, of calls] False push show ?thesis
        by (auto simp: Chunk read_compact_json_def split: sum.splits)
    qed
  next
    case Interrupted
    have "read_all (Interrupted # calls) = read_all calls" by (simp add: read_all_def)
    with Cons Interrupted show ?thesis
      by (auto simp: read_compact_json_def split: sum.splits)
  qed (simp add: read_compact_json_def read_all_def)
qed

section \<open>Properties\<close>

text \<open>C37. Dropping the spaces of a document as it is read, in whatever chunks the reader
  delivers it, changes none of its tokens: the result lexes to the tokens of the whole input,
  and an error of the reader is the error returned.\<close>

theorem compacted_tokens:
  "case read_compact_json calls of
      Inl e \<Rightarrow> read_all calls = Inl e
    | Inr out \<Rightarrow> \<exists>bytes. read_all calls = Inr bytes \<and> json_tokens out = json_tokens bytes"
  by (rule read_compact_tokens)

text \<open>Pushing a buffer at a time, with its search for the next quote, backslash or run of
  spaces, is pushing each byte, so where a read ends makes no difference.\<close>

lemma push_is_bytewise:
  "push st bytes compact = fold push_byte bytes (st, compact) \<and>
   push st (before @ after) compact = (case push st before compact of (st, compact) \<Rightarrow> push st after compact)"
  by (simp add: push_bytes case_prod_beta)

end
