(* ===== verification/Shared_Names.thy ===== *)
theory Shared_Names
  imports Containers "HOL-Library.Word"
begin

text \<open>
  \<open>crates/provider-schema/src/shared.rs\<close>, hash-consed lists, and \<open>merge_repeated_keys\<close> of
  \<open>decode.rs\<close>. The heap is the list of the slices allocated so far, an \<open>Arc\<close> an index
  into it. The parameter \<open>hash\<close> stands for \<open>FxBuildHasher.hash_one\<close>; nothing is assumed
  of it.
\<close>

section \<open>Shared slices\<close>

record shared =
  sh_hash :: "64 word"
  sh_items :: nat

type_synonym 'a heap = "'a list list"

definition shared_new :: "('a list \<Rightarrow> 64 word) \<Rightarrow> 'a list \<Rightarrow> 'a heap \<Rightarrow> shared \<times> 'a heap" where
  "shared_new hash items h = (\<lparr>sh_hash = hash items, sh_items = length h\<rparr>, h @ [items])"

definition shared_deref :: "'a heap \<Rightarrow> shared \<Rightarrow> 'a list" where
  "shared_deref h s = h ! sh_items s"

definition ptr_eq :: "shared \<Rightarrow> shared \<Rightarrow> bool" where
  "ptr_eq a b \<longleftrightarrow> sh_items a = sh_items b"

definition shared_eq :: "'a heap \<Rightarrow> shared \<Rightarrow> shared \<Rightarrow> bool" where
  "shared_eq h a b \<longleftrightarrow>
     ptr_eq a b \<or> (sh_hash a = sh_hash b \<and> shared_deref h a = shared_deref h b)"

text \<open>A handle is valid when it points into the heap and caches the hash of what it points at.\<close>

definition shared_ok :: "('a list \<Rightarrow> 64 word) \<Rightarrow> 'a heap \<Rightarrow> shared \<Rightarrow> bool" where
  "shared_ok hash h s \<longleftrightarrow> sh_items s < length h \<and> sh_hash s = hash (shared_deref h s)"

lemma shared_new_ok:
  assumes "shared_new hash items h = (s, h')"
  shows "shared_ok hash h' s" and "shared_deref h' s = items" and "h' = h @ [items]"
  using assms by (auto simp: shared_new_def shared_ok_def shared_deref_def)

lemma shared_ok_append:
  assumes "shared_ok hash h s"
  shows "shared_ok hash (h @ h') s" and "shared_deref (h @ h') s = shared_deref h s"
  using assms by (auto simp: shared_ok_def shared_deref_def nth_append)

lemma shared_eq_iff:
  "shared_ok hash h a \<Longrightarrow> shared_ok hash h b \<Longrightarrow>
     shared_eq h a b \<longleftrightarrow> shared_deref h a = shared_deref h b"
  by (auto simp: shared_eq_def ptr_eq_def shared_ok_def shared_deref_def)

section \<open>The interner\<close>

text \<open>
  A \<open>HashSet\<close> of handles: a lookup finds the member equal to the candidate. Equal handles
  have equal hashes, so which bucket they are in does not show.
\<close>

definition intern ::
  "('a list \<Rightarrow> 64 word) \<Rightarrow> 'a list \<Rightarrow> shared list \<Rightarrow> 'a heap \<Rightarrow> shared \<times> shared list \<times> 'a heap" where
  "intern hash items vals h =
     (let (candidate, h') = shared_new hash items h
      in case find (\<lambda>existing. shared_eq h' existing candidate) vals of
           Some existing \<Rightarrow> (existing, vals, h')
         | None \<Rightarrow> (candidate, vals @ [candidate], h'))"

definition interner_ok :: "('a list \<Rightarrow> 64 word) \<Rightarrow> shared list \<Rightarrow> 'a heap \<Rightarrow> bool" where
  "interner_ok hash vals h \<longleftrightarrow>
     (\<forall>s \<in> set vals. shared_ok hash h s) \<and> distinct (map (shared_deref h) vals)"

lemma intern_ok:
  assumes ok: "interner_ok hash vals h" and step: "intern hash items vals h = (s, vals', h')"
  shows "interner_ok hash vals' h'" and "s \<in> set vals'" and "shared_deref h' s = items"
    and "set vals \<subseteq> set vals'" and "\<exists>new. h' = h @ new"
proof -
  let ?c = "\<lparr>sh_hash = hash items, sh_items = length h\<rparr>"
  have new: "shared_new hash items h = (?c, h @ [items])" by (simp add: shared_new_def)
  note c = shared_new_ok[OF new]
  have old: "shared_ok hash (h @ [items]) v \<and> shared_deref (h @ [items]) v = shared_deref h v"
    if "v \<in> set vals" for v
    using that ok shared_ok_append[of hash h v "[items]"] by (auto simp: interner_ok_def)
  have dist: "distinct (map (shared_deref (h @ [items])) vals)"
    using ok old by (simp add: interner_ok_def cong: map_cong)
  have grow: "\<exists>new. h @ [items] = h @ new" by blast
  have "interner_ok hash vals' h' \<and> s \<in> set vals' \<and> shared_deref h' s = items \<and>
      set vals \<subseteq> set vals' \<and> (\<exists>new. h' = h @ new)"
  proof (cases "find (\<lambda>e. shared_eq (h @ [items]) e ?c) vals")
    case None
    then have "shared_deref (h @ [items]) v \<noteq> items" if "v \<in> set vals" for v
      using that old c shared_eq_iff[of hash "h @ [items]" v ?c] by (auto simp: find_None_iff)
    then have "items \<notin> shared_deref (h @ [items]) ` set vals" by (metis imageE)
    moreover from None step new have "s = ?c" "vals' = vals @ [?c]" "h' = h @ [items]"
      by (auto simp: intern_def)
    ultimately show ?thesis using dist old c grow by (auto simp: interner_ok_def)
  next
    case (Some e)
    then have "e \<in> set vals" "shared_eq (h @ [items]) e ?c"
      by (auto simp: find_Some_iff)
    moreover from Some step new have "s = e" "vals' = vals" "h' = h @ [items]"
      by (auto simp: intern_def)
    ultimately show ?thesis
      using dist old c grow shared_eq_iff[of hash "h @ [items]" e ?c] by (simp add: interner_ok_def)
  qed
  then show "interner_ok hash vals' h'" "s \<in> set vals'" "shared_deref h' s = items"
    "set vals \<subseteq> set vals'" "\<exists>new. h' = h @ new" by auto
qed

text \<open>Interning a sequence of lists, one after the other.\<close>

fun intern_all ::
  "('a list \<Rightarrow> 64 word) \<Rightarrow> 'a list list \<Rightarrow> shared list \<Rightarrow> 'a heap \<Rightarrow> shared list \<times> shared list \<times> 'a heap" where
  "intern_all hash [] vals h = ([], vals, h)"
| "intern_all hash (x # xs) vals h =
     (let (s, vals, h) = intern hash x vals h;
          (ss, vals, h) = intern_all hash xs vals h
      in (s # ss, vals, h))"

lemma intern_all_ok:
  "interner_ok hash vals h \<Longrightarrow> intern_all hash xs vals h = (ss, vals', h') \<Longrightarrow>
     interner_ok hash vals' h' \<and> set ss \<subseteq> set vals' \<and> set vals \<subseteq> set vals' \<and>
     (\<exists>new. h' = h @ new) \<and> map (shared_deref h') ss = xs"
proof (induction xs arbitrary: vals h ss)
  case (Cons x xs)
  obtain s v1 h1 where 1: "intern hash x vals h = (s, v1, h1)" by (metis prod_cases3)
  obtain ts where 2: "intern_all hash xs v1 h1 = (ts, vals', h')" and ss: "ss = s # ts"
    using Cons.prems(2) 1 by (auto split: prod.splits)
  note i = intern_ok[OF Cons.prems(1) 1]
  note IH = Cons.IH[OF i(1) 2]
  have "shared_deref h' s = x"
    using i IH shared_ok_append(2)[of hash h1 s] by (auto simp: interner_ok_def)
  with IH i ss show ?case by auto
qed simp

lemma interned_ptr_eq:
  assumes "interner_ok hash vals h" and "a \<in> set vals" and "b \<in> set vals"
  shows "ptr_eq a b \<longleftrightarrow> shared_deref h a = shared_deref h b"
proof
  assume "shared_deref h a = shared_deref h b"
  with assms have "a = b" by (auto simp: interner_ok_def distinct_map inj_on_def)
  then show "ptr_eq a b" by (simp add: ptr_eq_def)
qed (simp add: ptr_eq_def shared_deref_def)

section \<open>Sorted entries\<close>

fun dedup_keep_last :: "('k \<times> 'v) list \<Rightarrow> ('k \<times> 'v) list" where
  "dedup_keep_last (kept # later # rest) =
     (if fst later = fst kept then dedup_keep_last (later # rest)
      else kept # dedup_keep_last (later # rest))"
| "dedup_keep_last rest = rest"

definition sort_unique :: "('k::linorder \<times> 'v) list \<Rightarrow> ('k \<times> 'v) list" where
  "sort_unique entries = dedup_keep_last (sort_key fst entries)"

lemma dedup_hd: "xs \<noteq> [] \<Longrightarrow> fst (hd (dedup_keep_last xs)) = fst (hd xs) \<and> dedup_keep_last xs \<noteq> []"
  by (induction xs rule: dedup_keep_last.induct) auto

lemma dedup_keys: "fst ` set (dedup_keep_last xs) = fst ` set xs"
  by (induction xs rule: dedup_keep_last.induct) auto

lemma dedup_increasing: "sorted (map fst xs) \<Longrightarrow> increasing (map fst (dedup_keep_last xs))"
proof (induction xs rule: dedup_keep_last.induct)
  case (1 kept later rest)
  show ?case
  proof (cases "fst later = fst kept")
    case False
    have "fst kept < k" if "k \<in> fst ` set (dedup_keep_last (later # rest))" for k
      using that 1(3) False unfolding dedup_keys by (auto simp: order.strict_iff_order)
    with 1 False show ?thesis by auto
  qed (use 1 in auto)
qed auto

lemma dedup_map_of:
  "sorted (map fst xs) \<Longrightarrow> map_of (dedup_keep_last xs) = map_of (rev xs)"
proof (induction xs rule: dedup_keep_last.induct)
  case (1 kept later rest)
  have rev: "map_of (rev (kept # later # rest)) = map_of [kept] ++ map_of (rev (later # rest))"
    by simp
  show ?case
  proof (cases "fst later = fst kept")
    case True
    then have "map_of [kept] ++ map_of (rev (later # rest)) = map_of (rev (later # rest))"
      by (auto simp: map_add_def fun_eq_iff split: option.splits)
    with True 1 rev show ?thesis by simp
  next
    case False
    from 1(3) have "increasing (map fst (kept # dedup_keep_last (later # rest)))"
      using False dedup_increasing[of "kept # later # rest"] by simp
    then have new: "map_of (dedup_keep_last (later # rest)) (fst kept) = None"
      by (auto simp: map_of_eq_None_iff)
    have "map_of (kept # dedup_keep_last (later # rest)) = map_of [kept] ++ map_of (dedup_keep_last (later # rest))"
      using new by (auto simp: map_add_def fun_eq_iff split: option.splits)
    also have "map_of (dedup_keep_last (later # rest)) = map_of (rev (later # rest))"
      using 1(2)[OF False] 1(3) by simp
    finally show ?thesis using False by (simp only: rev dedup_keep_last.simps if_False)
  qed
qed auto

lemma sort_unique_result:
  "bm_wf (sort_unique kvs)" "map_of (sort_unique kvs) = map_of (rev kvs)"
proof -
  show "bm_wf (sort_unique kvs)"
    unfolding sort_unique_def by (intro dedup_increasing) simp
  have "map_of (rev (sort_key fst kvs)) k = map_of (rev kvs) k" for k
  proof -
    have last_of: "map_of (rev xs) k = map_option snd (find (\<lambda>e. fst e = k) (rev (filter (\<lambda>e. fst e = k) xs)))"
      for xs :: "('a \<times> 'b) list"
      by (induction xs rule: rev_induct) (auto simp: map_add_def)
    have "filter (\<lambda>e. fst e = k) (sort_key fst kvs) = filter (\<lambda>e. fst e = k) kvs"
      by (rule sort_key_stable)
    then show ?thesis by (simp add: last_of)
  qed
  then show "map_of (sort_unique kvs) = map_of (rev kvs)"
    unfolding sort_unique_def by (subst dedup_map_of) auto
qed

text \<open>Sorting and keeping the last of equal keys is inserting every entry in turn into a map.\<close>

lemma sort_unique_collect: "sort_unique kvs = bm_collect kvs"
  using btree_map.entries_determined[of "sort_unique kvs" "bm_collect kvs"]
  by (simp add: sort_unique_result btree_map.collect_wf btree_map.collect_get)

section \<open>Looking a name up\<close>

text \<open>
  \<open>binary_search_by\<close> of the standard library: the search window starts at \<open>base\<close> and
  holds \<open>width\<close> entries.
\<close>

function search_window :: "'k::linorder \<Rightarrow> ('k \<times> 'v) list \<Rightarrow> nat \<Rightarrow> nat \<Rightarrow> nat" where
  "search_window k m base width =
     (if 1 < width
      then let half = width div 2; mid = base + half
           in search_window k m (if k < fst (m ! mid) then base else mid) (width - half)
      else base)"
  by pat_completeness auto
termination by (relation "measure (\<lambda>(k, m, base, width). width)") auto

declare search_window.simps [simp del]

definition name_map_get :: "('k::linorder \<times> 'v) list \<Rightarrow> 'k \<Rightarrow> 'v option" where
  "name_map_get m k =
     (if m = [] then None
      else let at = search_window k m 0 (length m)
           in if fst (m ! at) = k then Some (snd (m ! at)) else None)"

lemma increasing_nth: "increasing (map fst m) \<Longrightarrow> i < j \<Longrightarrow> j < length m \<Longrightarrow> fst (m ! i) < fst (m ! j)"
  using sorted_wrt_nth_less[of "(<)" "map fst m" i j] by simp

text \<open>
  The loop keeps the window inside the slice, its start at an entry that is not above the
  name unless it is the first, and everything after it above the name.
\<close>

lemma search_window_spec:
  assumes "increasing (map fst m)" and "0 < width" and "base + width \<le> length m"
    and "\<And>j. base + width \<le> j \<Longrightarrow> j < length m \<Longrightarrow> k < fst (m ! j)"
    and "i < length m" and "fst (m ! i) = k" and "base \<le> i"
  shows "search_window k m base width = i"
  using assms
proof (induction k m base width rule: search_window.induct)
  case (1 k m base width)
  show ?case
  proof (cases "1 < width")
    case True
    let ?half = "width div 2"
    let ?mid = "base + ?half"
    show ?thesis
    proof (cases "k < fst (m ! ?mid)")
      case less: True
      have "k < fst (m ! j)" if "base + (width - ?half) \<le> j" "j < length m" for j
      proof -
        from that have "?mid \<le> j" by linarith
        with less increasing_nth[OF "1.prems"(1), of ?mid j] that show ?thesis
          by (cases "?mid = j") auto
      qed
      with True less 1 show ?thesis
        by (subst search_window.simps) (simp add: Let_def)
    next
      case ge: False
      have "?mid \<le> i"
      proof (rule ccontr)
        assume "\<not> ?mid \<le> i"
        with "1.prems" True have "fst (m ! i) < fst (m ! ?mid)" by (intro increasing_nth) auto
        with ge "1.prems"(6) show False by auto
      qed
      with True ge 1 show ?thesis
        by (subst search_window.simps) (simp add: Let_def)
    qed
  next
    case False
    with "1.prems" have "width = 1" by linarith
    have "i = base"
    proof (rule ccontr)
      assume "i \<noteq> base"
      with "1.prems"(7) \<open>width = 1\<close> have "base + width \<le> i" by simp
      with "1.prems"(4)[of i] "1.prems"(5,6) show False by simp
    qed
    with \<open>width = 1\<close> show ?thesis by (subst search_window.simps) simp
  qed
qed

lemma search_window_in:
  "0 < width \<Longrightarrow> base + width \<le> length m \<Longrightarrow> search_window k m base width < length m"
proof (induction k m base width rule: search_window.induct)
  case (1 k m base width)
  then show ?case
    by (cases "k < fst (m ! (base + width div 2))"; subst search_window.simps)
      (simp_all add: Let_def)
qed

lemma name_map_get_correct:
  assumes "bm_wf m"
  shows "name_map_get m k = map_of m k"
proof (cases "map_of m k")
  case None
  then have "fst (m ! i) \<noteq> k" if "i < length m" for i
    using that by (auto simp: map_of_eq_None_iff)
  with None show ?thesis
    by (auto simp: name_map_get_def Let_def search_window_in)
next
  case (Some v)
  then obtain i where i: "i < length m" "m ! i = (k, v)"
    by (metis in_set_conv_nth map_of_SomeD)
  with assms have "search_window k m 0 (length m) = i"
    by (intro search_window_spec) auto
  with i Some show ?thesis by (auto simp: name_map_get_def Let_def)
qed

section \<open>Merging repeated keys\<close>

text \<open>\<open>slice::chunk_by\<close>: maximal runs of neighbours related to each other.\<close>

fun chunk_by :: "('a \<Rightarrow> 'a \<Rightarrow> bool) \<Rightarrow> 'a list \<Rightarrow> 'a list list" where
  "chunk_by same [] = []"
| "chunk_by same [x] = [[x]]"
| "chunk_by same (x # y # xs) =
     (case chunk_by same (y # xs) of
        run # runs \<Rightarrow> if same x y then (x # run) # runs else [x] # run # runs
      | [] \<Rightarrow> [[x]])"

definition swap_at :: "nat \<times> nat \<Rightarrow> 'a list \<Rightarrow> 'a list" where
  "swap_at p xs = xs[fst p := xs ! snd p, snd p := xs ! fst p]"

definition merge_repeated_keys :: "('k::linorder \<times> 'v) list \<Rightarrow> ('k \<times> 'v) list" where
  "merge_repeated_keys entries =
     (if length entries < 2 then entries
      else
        let key = (\<lambda>i. fst (entries ! i));
            order = sort_key key [0..<length entries];
            long = filter (\<lambda>run. 2 \<le> length run) (chunk_by (\<lambda>i j. key i = key j) order);
            moves = map (\<lambda>run. (hd run, last run)) long;
            repeated = concat (map tl long);
            swapped = fold swap_at moves entries
        in map snd (filter (\<lambda>(position, _). position \<notin> set repeated) (enumerate 0 swapped)))"

lemma chunk_by_nonempty: "xs \<noteq> [] \<Longrightarrow> chunk_by same xs \<noteq> []"
  by (induction same xs rule: chunk_by.induct) (auto split: list.splits)

lemma increasing_remdups_adj: "sorted xs \<Longrightarrow> increasing (remdups_adj xs)"
proof (induction xs rule: remdups_adj.induct)
  case (3 x y xs)
  then show ?case by (auto simp: less_le_not_le)
qed auto

text \<open>The runs of a sorted list are the groups of its keys.\<close>

lemma chunk_by_groups:
  "sorted (map key xs) \<Longrightarrow>
   chunk_by (\<lambda>i j. key i = key j) xs = map (\<lambda>k. filter (\<lambda>x. key x = k) xs) (remdups_adj (map key xs))"
proof (induction "\<lambda>i j. key i = key j" xs rule: chunk_by.induct)
  case (3 x y xs)
  let ?g = "\<lambda>xs k. filter (\<lambda>x. key x = k) xs"
  obtain ks where ks: "remdups_adj (map key (y # xs)) = key y # ks"
    using remdups_adj_Cons_alt[of "key y" "map key xs"] by (metis list.simps(9))
  with 3 have IH: "chunk_by (\<lambda>i j. key i = key j) (y # xs) = ?g (y # xs) (key y) # map (?g (y # xs)) ks"
    by simp
  have "key y \<notin> set ks"
    using increasing_distinct[OF increasing_remdups_adj, of "map key (y # xs)"] 3(2) ks by simp
  then have others: "map (?g (x # y # xs)) ks = map (?g (y # xs)) ks" if "key x = key y \<or> key x \<notin> set ks"
    using that by auto
  show ?case
  proof (cases "key x = key y")
    case True
    then show ?thesis using IH others ks by simp
  next
    case False
    with 3(2) have "key x \<notin> key ` set (y # xs)" by force
    moreover have "set (key y # ks) \<subseteq> key ` set (y # xs)"
      by (metis ks list.set_map remdups_adj_set subset_refl)
    ultimately have "key x \<notin> set ks" "\<forall>z \<in> set xs. key z \<noteq> key x" "key y \<noteq> key x"
      by (auto simp: image_iff)
    with False IH others ks show ?thesis by (auto simp: filter_empty_conv)
  qed
qed auto

text \<open>Swapping pairs of positions, all of them different, exchanges exactly those.\<close>

lemma fold_swap_other:
  "i \<notin> fst ` set ps \<union> snd ` set ps \<Longrightarrow> fold swap_at ps xs ! i = xs ! i"
  by (induction ps arbitrary: xs) (auto simp: swap_at_def)

lemma fold_swap_length [simp]: "length (fold swap_at ps xs) = length xs"
  by (induction ps arbitrary: xs) (auto simp: swap_at_def)

lemma fold_swap_pair:
  assumes "(a, b) \<in> set ps" and "distinct (concat (map (\<lambda>p. [fst p, snd p]) ps))"
    and "\<forall>p \<in> set ps. fst p < length xs \<and> snd p < length xs"
  shows "fold swap_at ps xs ! a = xs ! b \<and> fold swap_at ps xs ! b = xs ! a"
  using assms
proof (induction ps arbitrary: xs)
  case (Cons p ps)
  show ?case
  proof (cases "p = (a, b)")
    case True
    with Cons.prems have "a \<notin> fst ` set ps \<union> snd ` set ps" "b \<notin> fst ` set ps \<union> snd ` set ps" "a \<noteq> b"
      by auto
    with True Cons.prems show ?thesis by (simp add: fold_swap_other) (simp add: swap_at_def)
  next
    case False
    with Cons.prems have mem: "(a, b) \<in> set ps" by auto
    with Cons.prems have "a \<noteq> fst p" "a \<noteq> snd p" "b \<noteq> fst p" "b \<noteq> snd p" by force+
    then have "swap_at p xs ! a = xs ! a" "swap_at p xs ! b = xs ! b" by (simp_all add: swap_at_def)
    with Cons.IH[OF mem, of "swap_at p xs"] Cons.prems show ?thesis
      by (simp add: swap_at_def)
  qed
qed simp

text \<open>What collecting the entries into a \<open>serde_json\<close> map gives, position by position.\<close>

lemma map_of_rev_last:
  assumes "j < length es" and "fst (es ! j) = k" and "\<forall>i. j < i \<and> i < length es \<longrightarrow> fst (es ! i) \<noteq> k"
  shows "map_of (rev es) k = Some (snd (es ! j))"
proof -
  have "fst (drop (Suc j) es ! i) \<noteq> k" if "i < length es - Suc j" for i
    using that assms(1,3) by simp
  then have "k \<notin> fst ` set (drop (Suc j) es)"
    by (auto simp: in_set_conv_nth) (metis fst_conv)
  then have rest: "map_of (rev (drop (Suc j) es)) k = None"
    by (simp add: map_of_eq_None_iff)
  have "rev es = rev (drop (Suc j) es) @ [es ! j] @ rev (take j es)"
    by (subst id_take_nth_drop[OF assms(1)]) simp
  with rest assms(2) show ?thesis
    by (cases "es ! j") (simp add: map_add_def)
qed

lemma keys_im_insert_list:
  "map fst (im_insert k v m) = (if k \<in> fst ` set m then map fst m else map fst m @ [k])"
  by (induction k v m rule: im_insert.induct) auto

lemma keys_collect: "fst ` set (collect_by im_insert m kvs) = fst ` set m \<union> fst ` set kvs"
proof (induction kvs arbitrary: m)
  case (Cons kv kvs)
  then show ?case by (cases kv) (simp add: keys_im_insert)
qed simp

lemma keys_im_collect:
  "map fst (im_collect es) =
     map (\<lambda>i. fst (es ! i)) (filter (\<lambda>i. \<forall>j < i. fst (es ! j) \<noteq> fst (es ! i)) [0..<length es])"
proof (induction es rule: rev_induct)
  case (snoc e es)
  let ?n = "length es"
  have "fst ` set (im_collect es) = fst ` set es"
    by (simp add: keys_collect)
  moreover have "filter (\<lambda>i. \<forall>j < i. fst ((es @ [e]) ! j) \<noteq> fst ((es @ [e]) ! i)) [0..<?n] =
      filter (\<lambda>i. \<forall>j < i. fst (es ! j) \<noteq> fst (es ! i)) [0..<?n]"
    by (rule filter_cong) (auto simp: nth_append)
  moreover have "(\<forall>j < ?n. fst ((es @ [e]) ! j) \<noteq> fst e) \<longleftrightarrow> fst e \<notin> fst ` set es"
    by (auto simp: nth_append image_iff) (metis in_set_conv_nth fst_conv nth_mem)+
  moreover have "map (\<lambda>i. fst ((es @ [e]) ! i)) (filter P [0..<?n]) = map (\<lambda>i. fst (es ! i)) (filter P [0..<?n])"
    for P by (auto simp: nth_append)
  ultimately show ?case
    using snoc by (cases e) (simp add: collect_by_def keys_im_insert_list)
qed simp

lemma enumerate_upt: "enumerate 0 xs = map (\<lambda>i. (i, xs ! i)) [0..<length xs]"
  by (rule nth_equalityI) (auto simp: nth_enumerate_eq)

lemma retain_positions:
  "map snd (filter (\<lambda>(position, _). P position) (enumerate 0 xs)) = map ((!) xs) (filter P [0..<length xs])"
  by (simp add: enumerate_upt filter_map comp_def)

lemma distinct_pairs:
  "distinct ks \<Longrightarrow> (\<And>k. k \<in> set ks \<Longrightarrow> f k \<noteq> g k \<and> key (f k) = k \<and> key (g k) = k) \<Longrightarrow>
   distinct (concat (map (\<lambda>p. [fst p, snd p]) (map (\<lambda>k. (f k, g k)) ks)))"
proof (induction ks)
  case (Cons k ks)
  have "f k \<noteq> f j \<and> f k \<noteq> g j \<and> g k \<noteq> f j \<and> g k \<noteq> g j" if "j \<in> set ks" for j
  proof -
    from that Cons.prems(1) have "j \<noteq> k" by auto
    with that Cons.prems(2)[of k] Cons.prems(2)[of j] show ?thesis by (metis list.set_intros)
  qed
  then have "f k \<notin> set (concat (map (\<lambda>p. [fst p, snd p]) (map (\<lambda>k. (f k, g k)) ks)))"
    "g k \<notin> set (concat (map (\<lambda>p. [fst p, snd p]) (map (\<lambda>k. (f k, g k)) ks)))"
    by auto
  with Cons show ?case by simp
qed simp

lemma distinct_tl_iff: "distinct xs \<Longrightarrow> xs \<noteq> [] \<Longrightarrow> x \<in> set (tl xs) \<longleftrightarrow> x \<in> set xs \<and> x \<noteq> hd xs"
  by (cases xs) auto

lemma group_first:
  assumes "filter P [0..<n] \<noteq> []" and "P i" and "i < n"
  shows "hd (filter P [0..<n]) = i \<longleftrightarrow> (\<forall>j < i. \<not> P j)"
proof -
  let ?xs = "filter P [0..<n]"
  have mem: "hd ?xs \<in> set ?xs" using assms(1) by (rule hd_in_set)
  have least: "hd ?xs \<le> j" if "j \<in> set ?xs" for j
    using that sorted_wrt_filter[of "(\<le>)" "[0..<n]" P] by (cases ?xs) auto
  show ?thesis
  proof
    assume first: "hd ?xs = i"
    show "\<forall>j < i. \<not> P j"
    proof (intro allI impI notI)
      fix j assume "j < i" and "P j"
      with assms(3) have "j \<in> set ?xs" by simp
      from least[OF this] first \<open>j < i\<close> show False by simp
    qed
  next
    assume none: "\<forall>j < i. \<not> P j"
    have "i \<in> set ?xs" using assms(2,3) by simp
    then have "hd ?xs \<le> i" by (rule least)
    moreover have "\<not> hd ?xs < i" using none mem by auto
    ultimately show "hd ?xs = i" by simp
  qed
qed

lemma group_last:
  assumes "filter P [0..<n] \<noteq> []" and "last (filter P [0..<n]) < i" and "i < n"
  shows "\<not> P i"
proof
  let ?xs = "filter P [0..<n]"
  assume "P i"
  with assms(3) have "i \<in> set ?xs" by simp
  moreover have "sorted ?xs" by (rule sorted_wrt_filter) simp
  ultimately have "i \<le> last ?xs"
    by (cases ?xs rule: rev_cases) (auto simp: sorted_append)
  with assms(2) show False by simp
qed

text \<open>The positions of a key, and the keys with more than one, in key order.\<close>

definition group_at :: "('k \<times> 'v) list \<Rightarrow> 'k \<Rightarrow> nat list" where
  "group_at es k = filter (\<lambda>i. fst (es ! i) = k) [0..<length es]"

definition repeated_keys :: "('k::linorder \<times> 'v) list \<Rightarrow> 'k list" where
  "repeated_keys es = filter (\<lambda>k. 2 \<le> length (group_at es k))
     (remdups_adj (map (\<lambda>i. fst (es ! i)) (sort_key (\<lambda>i. fst (es ! i)) [0..<length es])))"

definition key_moves :: "('k::linorder \<times> 'v) list \<Rightarrow> (nat \<times> nat) list" where
  "key_moves es = map (\<lambda>k. (hd (group_at es k), last (group_at es k))) (repeated_keys es)"

definition repeated_positions :: "('k::linorder \<times> 'v) list \<Rightarrow> nat list" where
  "repeated_positions es = concat (map (\<lambda>k. tl (group_at es k)) (repeated_keys es))"

lemma merge_by_groups:
  assumes "\<not> length es < 2"
  shows "merge_repeated_keys es =
    map ((!) (fold swap_at (key_moves es) es)) (filter (\<lambda>i. i \<notin> set (repeated_positions es)) [0..<length es])"
proof -
  define key where "key = (\<lambda>i. fst (es ! i))"
  define order where "order = sort_key key [0..<length es]"
  have sorted: "sorted (map key order)" by (simp add: order_def)
  have "chunk_by (\<lambda>i j. key i = key j) order =
      map (\<lambda>k. filter (\<lambda>i. key i = k) order) (remdups_adj (map key order))"
    using chunk_by_groups[OF sorted] .
  also have "\<dots> = map (group_at es) (remdups_adj (map key order))"
    by (simp add: order_def group_at_def key_def sort_key_stable)
  finally have "filter (\<lambda>run. 2 \<le> length run) (chunk_by (\<lambda>i j. key i = key j) order) =
      map (group_at es) (repeated_keys es)"
    by (simp add: repeated_keys_def filter_map comp_def order_def key_def)
  then show ?thesis
    using assms
    by (simp add: merge_repeated_keys_def Let_def key_moves_def repeated_positions_def comp_def retain_positions
        order_def key_def del: set_concat set_map set_filter)
qed

lemma group_at_set: "distinct (group_at es k)" "set (group_at es k) = {i. i < length es \<and> fst (es ! i) = k}"
  by (auto simp: group_at_def)

lemma group_at_self: "i < length es \<Longrightarrow> i \<in> set (group_at es (fst (es ! i)))"
  by (simp add: group_at_set)

lemma repeated_keys_set:
  "distinct (repeated_keys es)"
  "k \<in> set (repeated_keys es) \<longleftrightarrow> 2 \<le> length (group_at es k)"
proof -
  let ?key = "\<lambda>i. fst (es ! i)"
  have "sorted (map ?key (sort_key ?key [0..<length es]))" by simp
  then show "distinct (repeated_keys es)"
    unfolding repeated_keys_def by (intro distinct_filter increasing_distinct increasing_remdups_adj)
  have "k \<in> ?key ` {0..<length es}" if "2 \<le> length (group_at es k)"
  proof -
    from that have "hd (group_at es k) \<in> set (group_at es k)" by (cases "group_at es k") auto
    then show ?thesis unfolding group_at_set by force
  qed
  then show "k \<in> set (repeated_keys es) \<longleftrightarrow> 2 \<le> length (group_at es k)"
    by (auto simp: repeated_keys_def)
qed

lemma group_ends:
  assumes "k \<in> set (repeated_keys es)"
  shows "hd (group_at es k) \<in> set (group_at es k)" "last (group_at es k) \<in> set (group_at es k)"
    "hd (group_at es k) \<noteq> last (group_at es k)"
proof -
  from assms obtain a b xs where g: "group_at es k = a # b # xs"
    by (cases "group_at es k" rule: remdups_adj.cases) (auto simp: repeated_keys_set)
  with group_at_set(1)[of es k] show "hd (group_at es k) \<noteq> last (group_at es k)" by auto
  from g show "hd (group_at es k) \<in> set (group_at es k)" "last (group_at es k) \<in> set (group_at es k)"
    by simp_all
qed

lemma repeated_positions_set:
  assumes "i < length es"
  shows "i \<in> set (repeated_positions es) \<longleftrightarrow> hd (group_at es (fst (es ! i))) \<noteq> i"
proof -
  let ?k = "fst (es ! i)"
  have "k = ?k" if "i \<in> set (tl (group_at es k))" for k
    using that group_at_set(2)[of es k] list.set_sel(2)[of "group_at es k" i]
    by (cases "group_at es k") auto
  then have "i \<in> set (repeated_positions es) \<longleftrightarrow> ?k \<in> set (repeated_keys es) \<and> i \<in> set (tl (group_at es ?k))"
    by (auto simp: repeated_positions_def)
  also have "\<dots> \<longleftrightarrow> i \<in> set (tl (group_at es ?k))"
    by (cases "group_at es ?k" rule: remdups_adj.cases) (auto simp: repeated_keys_set)
  finally show ?thesis
    using group_at_self[OF assms] distinct_tl_iff[OF group_at_set(1), of es ?k i]
    by (cases "group_at es ?k") auto
qed

lemma swapped_first:
  assumes "i < length es" and "hd (group_at es (fst (es ! i))) = i"
  shows "fold swap_at (key_moves es) es ! i = es ! last (group_at es (fst (es ! i)))"
proof (cases "fst (es ! i) \<in> set (repeated_keys es)")
  case True
  then have "(hd (group_at es (fst (es ! i))), last (group_at es (fst (es ! i)))) \<in> set (key_moves es)"
    by (simp add: key_moves_def)
  then have "(i, last (group_at es (fst (es ! i)))) \<in> set (key_moves es)"
    by (simp only: assms(2))
  moreover have "distinct (concat (map (\<lambda>p. [fst p, snd p]) (key_moves es)))"
    unfolding key_moves_def
  proof (rule distinct_pairs[where key = "\<lambda>i. fst (es ! i)", OF repeated_keys_set(1)])
    fix k assume "k \<in> set (repeated_keys es)"
    note e = group_ends[OF this]
    from e(1,2) have "fst (es ! hd (group_at es k)) = k" "fst (es ! last (group_at es k)) = k"
      unfolding group_at_set by blast+
    with e(3) show "hd (group_at es k) \<noteq> last (group_at es k) \<and>
        fst (es ! hd (group_at es k)) = k \<and> fst (es ! last (group_at es k)) = k" by blast
  qed
  moreover have "\<forall>p \<in> set (key_moves es). fst p < length es \<and> snd p < length es"
    using group_ends(1,2) unfolding key_moves_def group_at_set by fastforce
  ultimately show ?thesis using fold_swap_pair by blast
next
  case False
  with group_at_self[OF assms(1)] have single: "last (group_at es (fst (es ! i))) = i"
    by (cases "group_at es (fst (es ! i))" rule: remdups_adj.cases) (auto simp: repeated_keys_set)
  have "i \<notin> fst ` set (key_moves es) \<union> snd ` set (key_moves es)"
    using False group_ends(1,2) unfolding key_moves_def group_at_set by force
  with single show ?thesis by (simp add: fold_swap_other)
qed

lemma first_position:
  assumes "i < length es"
  shows "hd (group_at es (fst (es ! i))) = i \<longleftrightarrow> (\<forall>j < i. fst (es ! j) \<noteq> fst (es ! i))"
proof -
  have "filter (\<lambda>j. fst (es ! j) = fst (es ! i)) [0..<length es] \<noteq> []"
    using group_at_self[OF assms] unfolding group_at_def by force
  from group_first[OF this refl assms] show ?thesis unfolding group_at_def .
qed

lemma last_position:
  assumes "i < length es"
  shows "map_of (rev es) (fst (es ! i)) = Some (snd (es ! last (group_at es (fst (es ! i)))))"
    and "fst (es ! last (group_at es (fst (es ! i)))) = fst (es ! i)"
proof -
  have ne: "group_at es (fst (es ! i)) \<noteq> []" using group_at_self[OF assms] by auto
  then have last: "last (group_at es (fst (es ! i))) \<in> set (group_at es (fst (es ! i)))" by simp
  then show "fst (es ! last (group_at es (fst (es ! i)))) = fst (es ! i)" by (simp add: group_at_set)
  with last show "map_of (rev es) (fst (es ! i)) = Some (snd (es ! last (group_at es (fst (es ! i)))))"
  proof (intro map_of_rev_last)
    show "\<forall>j. last (group_at es (fst (es ! i))) < j \<and> j < length es \<longrightarrow> fst (es ! j) \<noteq> fst (es ! i)"
      using group_last[OF ne[unfolded group_at_def]] unfolding group_at_def by blast
  qed (auto simp: group_at_set)
qed

text \<open>
  Merging keeps each key at its first position with its last value: the entries a
  \<open>serde_json\<close> map would hold.
\<close>

lemma merge_repeated_keys_collect: "merge_repeated_keys es = im_collect es"
proof (cases "length es < 2")
  case True
  then have "distinct (map fst es)" by (cases es rule: remdups_adj.cases) auto
  with True show ?thesis by (simp add: merge_repeated_keys_def im_collect_distinct)
next
  case False
  let ?first = "filter (\<lambda>i. \<forall>j < i. fst (es ! j) \<noteq> fst (es ! i)) [0..<length es]"
  have "filter (\<lambda>i. i \<notin> set (repeated_positions es)) [0..<length es] = ?first"
    by (rule filter_cong) (simp_all add: repeated_positions_set first_position)
  then have "merge_repeated_keys es = map ((!) (fold swap_at (key_moves es) es)) ?first"
    using merge_by_groups[OF False] by simp
  also have "\<dots> = map (\<lambda>i. (fst (es ! i), the (map_of (rev es) (fst (es ! i))))) ?first"
  proof (rule map_cong[OF refl])
    fix i assume "i \<in> set ?first"
    then have i: "i < length es" and "\<forall>j < i. fst (es ! j) \<noteq> fst (es ! i)" by simp_all
    then have "hd (group_at es (fst (es ! i))) = i" using first_position[OF i] by blast
    from swapped_first[OF i this] last_position[OF i]
    show "fold swap_at (key_moves es) es ! i = (fst (es ! i), the (map_of (rev es) (fst (es ! i))))"
      by (simp add: prod_eq_iff)
  qed
  also have "\<dots> = map (\<lambda>k. (k, the (map_of (im_collect es) k))) (map fst (im_collect es))"
    using index_map.collect_get[OF index_map.wf_emp, of es]
    by (simp add: keys_im_collect comp_def index_map.get_emp)
  also have "\<dots> = im_collect es"
    by (rule entries_from_keys[symmetric]) (simp add: index_map.collect_wf)
  finally show ?thesis .
qed

section \<open>Properties\<close>

text \<open>Interning shares storage exactly between equal runs: after a sequence of runs has
  been interned each handle reads back its run, and two handles point to the same storage
  exactly when the runs are equal. \<open>ptr_eq\<close> alone then decides equality.\<close>

lemma interning_shares:
  assumes "intern_all hash xs [] [] = (ss, vals, h)" and "i < length xs" and "j < length xs"
  shows "map (shared_deref h) ss = xs \<and> (ptr_eq (ss ! i) (ss ! j) \<longleftrightarrow> xs ! i = xs ! j)"
proof -
  have "interner_ok hash [] []" by (simp add: interner_ok_def)
  from intern_all_ok[OF this assms(1)] have ok: "interner_ok hash vals h" "set ss \<subseteq> set vals"
    "map (shared_deref h) ss = xs" by blast+
  then have len: "length ss = length xs" by auto
  have "ss ! i \<in> set vals" "ss ! j \<in> set vals" using assms(2,3) ok(2) len by auto
  note ptr = interned_ptr_eq[OF ok(1) this]
  have item: "shared_deref h (ss ! k) = xs ! k" if "k < length xs" for k
    using that nth_map[of k ss "shared_deref h"] unfolding ok(3) len by simp
  have "ptr_eq (ss ! i) (ss ! j) \<longleftrightarrow> xs ! i = xs ! j"
    unfolding ptr item[OF assms(2)] item[OF assms(3)] by (rule refl)
  with ok(3) show ?thesis by blast
qed

lemma interning_shares_witness:
  "case intern_all (\<lambda>_. 0) [[1::nat], [2], [1]] [] [] of (ss, vals, h) \<Rightarrow>
     map (shared_deref h) ss = [[1], [2], [1]] \<and> ptr_eq (ss ! 0) (ss ! 2)"
proof -
  obtain ss vals h where run: "intern_all (\<lambda>_. 0) [[1::nat], [2], [1]] [] [] = (ss, vals, h)"
    using prod_cases3 by blast
  from interning_shares[OF run, of 0 2] show ?thesis unfolding run by simp
qed

text \<open>Comparing two handles by hash, address and only then items decides whether their
  items are equal, as long as each carries the hash of its items.\<close>

lemma shared_eq_decides:
  assumes "shared_ok hash h a" and "shared_ok hash h b"
  shows "shared_eq h a b \<longleftrightarrow> shared_deref h a = shared_deref h b"
  using assms by (rule shared_eq_iff)

lemma shared_eq_decides_witness:
  "shared_eq [[1::nat], [1]] \<lparr>sh_hash = 5, sh_items = 0\<rparr> \<lparr>sh_hash = 5, sh_items = 1\<rparr>"
  by (subst shared_eq_decides[of "\<lambda>_. 5"]) (simp_all add: shared_ok_def shared_deref_def)

text \<open>Looking a name up in a map built from a document's entries gives the last entry of
  that name, as in a map the entries were inserted into one by one, and the map lists its keys
  in order, once each.\<close>

lemma name_map_lookup:
  "increasing (map fst (sort_unique es)) \<and> name_map_get (sort_unique es) k = map_of (rev es) k"
  using sort_unique_result[of es] by (simp add: name_map_get_correct)

text \<open>Merging the repeated keys of an object keeps what inserting its entries one by one
  into a map in insertion order keeps: each key where it first stood, with its last value.\<close>

lemma merge_repeated_keys_inserts: "merge_repeated_keys es = im_collect es"
  by (rule merge_repeated_keys_collect)

end
