(* ===== verification/Provider_Schema.thy ===== *)
theory Provider_Schema
  imports Shared_Names
begin

text \<open>
  Reading provider schemas: \<open>crates/provider-schema/src/lib.rs\<close>, \<open>decode.rs\<close> and
  \<open>decode/stored.rs\<close>. One function per serde seed, on the document \<open>serde_json\<close> hands it:
  a JSON value whose objects keep their entries in document order, repeated keys included.
  Interning is left out of these definitions: an interned list is equal to the list it is made
  from (\<open>intern_ok\<close>), so a name map is the list of its entries in name order.
\<close>

section \<open>Schemas\<close>

datatype nesting_mode = SingleNesting | ListNesting | SetNesting | MapNesting | GroupNesting

datatype schema_type =
    StringType | BoolType | NumberType
  | ListType schema_type | SetType schema_type | MapType schema_type
  | ObjectType "(string \<times> attribute_schema) list"
  | TupleType "schema_type list"
  | DynamicType
and attribute_schema =
    AttributeSchema (at_type: schema_type) (at_required: bool) (at_optional: bool)
      (at_computed: bool) (at_sensitive: bool) (at_description: "string option")

type_synonym u64 = "64 word"

datatype block_schema =
    BlockSchema (bl_attributes: "(string \<times> attribute_schema) list")
      (bl_blocks: "(string \<times> nested_block_schema) list")
and nested_block_schema =
    NestedBlockSchema (nb_nesting_mode: nesting_mode) (nb_min_items: "u64 option")
      (nb_max_items: "u64 option") (nb_block: block_schema)

text \<open>\<open>ResourceSchema\<close> holds nothing but its block, and is modelled as the block.\<close>

type_synonym resource_schema = block_schema

record provider_schema =
  ps_source :: string
  ps_version :: string
  provider_config :: block_schema
  ps_resources :: "(string \<times> resource_schema) list"
  ps_data_sources :: "(string \<times> resource_schema) list"

record provider_request =
  req_source :: string
  req_version :: string

definition rsplit_last :: "char \<Rightarrow> string \<Rightarrow> string" where
  "rsplit_last d s = last (split_on d s)"

definition local_name :: "provider_request \<Rightarrow> string" where
  "local_name request = rsplit_last (CHR ''/'') (req_source request)"

definition ends_with :: "string \<Rightarrow> string \<Rightarrow> bool" where
  "ends_with suffix s \<longleftrightarrow> strip_suffix suffix s \<noteq> None"

definition request_matches :: "provider_request \<Rightarrow> string \<Rightarrow> bool" where
  "request_matches request address \<longleftrightarrow>
     address = req_source request \<or>
     (case strip_suffix (req_source request) address of
        None \<Rightarrow> False
      | Some prefix \<Rightarrow> ends_with ''/'' prefix)"

section \<open>Documents and problems\<close>

text \<open>A number of the document, as the unsigned 64-bit integer it is, if it is one.\<close>

datatype doc =
    DNull | DBool bool | DNumber "u64 option" | DString string
  | DArray "doc list" | DObject "(string \<times> doc) list"

text \<open>Problems serde reports end the decoding; problems of the schema are carried as values.\<close>

datatype de_error =
    DuplicateField string
  | MissingField string
  | UnexpectedValue string
  | CustomError string
  | UnknownVariant string

type_synonym 'a decoded = "(de_error, 'a) result"

datatype normalize_error =
    JsonError
  | UnsupportedFormat string
  | MissingProvider string
  | MissingType string
  | InvalidType string string
  | UnsupportedNesting string string

type_synonym 'a normalized = "(normalize_error, 'a) result"

datatype segment = PathRoot string | PathField string | PathIndex nat

type_synonym schema_path = "segment list"

fun segment_text :: "segment \<Rightarrow> string" where
  "segment_text (PathRoot name) = name"
| "segment_text (PathField name) = ''.'' @ name"
| "segment_text (PathIndex index) = ''['' @ show_nat index @ '']''"

definition path_text :: "schema_path \<Rightarrow> string" where
  "path_text path = concat (map segment_text path)"

definition invalid_type :: "schema_path \<Rightarrow> string \<Rightarrow> normalize_error" where
  "invalid_type path message = InvalidType (path_text path) message"

definition parse_nesting_mode :: "string \<Rightarrow> schema_path \<Rightarrow> nesting_mode normalized" where
  "parse_nesting_mode value path =
     (if value = ''single'' then Inr SingleNesting
      else if value = ''list'' then Inr ListNesting
      else if value = ''set'' then Inr SetNesting
      else if value = ''map'' then Inr MapNesting
      else if value = ''group'' then Inr GroupNesting
      else Inl (UnsupportedNesting (path_text path) value))"

definition first_time :: "'a option \<Rightarrow> string \<Rightarrow> unit decoded" where
  "first_time seen field = (case seen of Some _ \<Rightarrow> Inl (DuplicateField field) | None \<Rightarrow> Inr ())"

definition required_field :: "'a option \<Rightarrow> string \<Rightarrow> 'a decoded" where
  "required_field seen field = (case seen of None \<Rightarrow> Inl (MissingField field) | Some x \<Rightarrow> Inr x)"

text \<open>Values of the document as serde's primitive types.\<close>

fun text_value :: "doc \<Rightarrow> string decoded" where
  "text_value (DString s) = Inr s"
| "text_value _ = Inl (UnexpectedValue ''a string'')"

fun bool_value :: "doc \<Rightarrow> bool decoded" where
  "bool_value (DBool b) = Inr b"
| "bool_value _ = Inl (UnexpectedValue ''a boolean'')"

fun u64_value :: "doc \<Rightarrow> u64 decoded" where
  "u64_value (DNumber (Some n)) = Inr n"
| "u64_value _ = Inl (UnexpectedValue ''u64'')"

definition nullable :: "(doc \<Rightarrow> 'a decoded) \<Rightarrow> doc \<Rightarrow> 'a option decoded" where
  "nullable seed d = (if d = DNull then Inr None else and_then (seed d) (\<lambda>x. Inr (Some x)))"

definition flat :: "'a option option \<Rightarrow> 'a option" where
  "flat x = (case x of None \<Rightarrow> None | Some y \<Rightarrow> y)"

definition or_default :: "'a option \<Rightarrow> 'a \<Rightarrow> 'a" where
  "or_default x d = (case x of None \<Rightarrow> d | Some y \<Rightarrow> y)"

text \<open>A field read into its slot: the step all the object loops share.\<close>

definition read_field :: "'a option \<Rightarrow> string \<Rightarrow> 'a decoded \<Rightarrow> ('a option \<Rightarrow> 's) \<Rightarrow> 's decoded" where
  "read_field seen field value put =
     and_then (first_time seen field) (\<lambda>_. and_then value (\<lambda>x. Inr (put (Some x))))"

lemma read_field_cong [fundef_cong]:
  "seen = seen' \<Longrightarrow> field = field' \<Longrightarrow> value = value' \<Longrightarrow> put = put' \<Longrightarrow>
     read_field seen field value put = read_field seen' field' value' put'"
  by simp

lemma nullable_cong [fundef_cong]:
  "d = d' \<Longrightarrow> seed d' = seed' d' \<Longrightarrow> nullable seed d = nullable seed' d'"
  by (simp add: nullable_def)

section \<open>Normalizing\<close>

definition name_map :: "(string \<times> 'a normalized) list \<Rightarrow> (string \<times> 'a) list normalized" where
  "name_map results =
     and_then (try_map (\<lambda>(name, result). and_then result (\<lambda>x. Inr (name, x))) (sort_unique results))
       (\<lambda>entries. Inr (sort_unique entries))"

definition normalize_block ::
  "(string \<times> attribute_schema normalized) list \<Rightarrow> (string \<times> nested_block_schema normalized) list \<Rightarrow>
     block_schema normalized" where
  "normalize_block attributes blocks =
     and_then (name_map attributes) (\<lambda>attributes.
     and_then (name_map blocks) (\<lambda>blocks. Inr (BlockSchema attributes blocks)))"

definition nest_type :: "nesting_mode \<Rightarrow> schema_type \<Rightarrow> schema_type" where
  "nest_type mode object =
     (case mode of SingleNesting \<Rightarrow> object | GroupNesting \<Rightarrow> object
      | ListNesting \<Rightarrow> ListType object | SetNesting \<Rightarrow> SetType object | MapNesting \<Rightarrow> MapType object)"

definition nested_type ::
  "string \<Rightarrow> (string \<times> attribute_schema normalized) list \<Rightarrow> schema_path \<Rightarrow> schema_type normalized" where
  "nested_type mode attributes path =
     and_then (name_map attributes) (\<lambda>entries.
     and_then (parse_nesting_mode mode path) (\<lambda>mode. Inr (nest_type mode (ObjectType entries))))"

definition object_field :: "schema_type \<Rightarrow> attribute_schema" where
  "object_field t = AttributeSchema t True False False False None"

definition object_type :: "(string \<times> schema_type normalized) list \<Rightarrow> schema_type normalized" where
  "object_type results =
     and_then (try_map (\<lambda>(name, t). and_then t (\<lambda>t. Inr (name, object_field t))) (merge_repeated_keys results))
       (\<lambda>attributes. Inr (ObjectType (sort_unique attributes)))"

section \<open>Decoding the raw format\<close>

lemma size_entry [termination_simp]: "(k, d) \<in> set es \<Longrightarrow> size d < Suc (size_list (size_prod (\<lambda>_. 0) size) es)"
  by (induction es) auto

lemma size_element [termination_simp]: "(i, d) \<in> set (enumerate n xs) \<Longrightarrow> size d < Suc (size_list size xs)"
  by (induction xs arbitrary: n) (auto simp: less_Suc_eq)

text \<open>
  A cty type. Whatever the value, decoding it ends with a type or a schema problem, never with
  one of serde's, so the result is the normalized type alone.
\<close>

fun type_seed :: "schema_path \<Rightarrow> doc \<Rightarrow> schema_type normalized"
  and object_type_seed :: "schema_path \<Rightarrow> doc \<Rightarrow> schema_type normalized"
  and tuple_type_seed :: "schema_path \<Rightarrow> doc \<Rightarrow> schema_type normalized" where
  "type_seed path (DString primitive) =
     (if primitive = ''string'' then Inr StringType
      else if primitive = ''bool'' then Inr BoolType
      else if primitive = ''number'' then Inr NumberType
      else if primitive = ''dynamic'' then Inr DynamicType
      else Inl (invalid_type path (''unknown primitive `'' @ primitive @ ''`'')))"
| "type_seed path (DArray elements) =
     (case elements of
        DString constructor # rest \<Rightarrow>
          (case rest of
             [] \<Rightarrow> Inl (invalid_type path ''missing constructor parameter'')
           | parameter # _ \<Rightarrow>
               if constructor = ''list'' then
                 and_then (type_seed path parameter) (\<lambda>item. Inr (ListType item))
               else if constructor = ''set'' then
                 and_then (type_seed path parameter) (\<lambda>item. Inr (SetType item))
               else if constructor = ''map'' then
                 and_then (type_seed path parameter) (\<lambda>item. Inr (MapType item))
               else if constructor = ''object'' then object_type_seed path parameter
               else if constructor = ''tuple'' then tuple_type_seed path parameter
               else Inl (invalid_type path (''unknown constructor `'' @ constructor @ ''`'')))
      | _ \<Rightarrow> Inl (invalid_type path ''missing constructor''))"
| "type_seed path _ = Inl (invalid_type path ''expected a primitive or constructor array'')"
| "object_type_seed path (DObject entries) =
     object_type (map (\<lambda>(name, d). (name, type_seed (path @ [PathField name]) d)) entries)"
| "object_type_seed path _ = Inl (invalid_type path ''object parameter is not an object'')"
| "tuple_type_seed path (DArray elements) =
     and_then (try_map (\<lambda>(index, d). type_seed (path @ [PathIndex index]) d) (enumerate 0 elements))
       (\<lambda>types. Inr (TupleType types))"
| "tuple_type_seed path _ = Inl (invalid_type path ''tuple parameter is not an array'')"

text \<open>The fields of an attribute read so far.\<close>

record ('t, 'n) attribute_slots =
  slot_type :: "'t option"
  slot_nested :: "'n option"
  slot_required :: "bool option"
  slot_optional :: "bool option"
  slot_computed :: "bool option"
  slot_sensitive :: "bool option"
  slot_description :: "string option option"

definition no_attribute_slots :: "('t, 'n) attribute_slots" where
  "no_attribute_slots =
     \<lparr>slot_type = None, slot_nested = None, slot_required = None, slot_optional = None,
      slot_computed = None, slot_sensitive = None, slot_description = None\<rparr>"

text \<open>The fields that raw and stored attributes have in common.\<close>

definition read_flags ::
  "string \<Rightarrow> doc \<Rightarrow> ('t, 'n) attribute_slots \<Rightarrow> ('t, 'n) attribute_slots decoded" where
  "read_flags key value s =
     (if key = ''required'' then
        read_field (slot_required s) key (bool_value value) (\<lambda>x. s\<lparr>slot_required := x\<rparr>)
      else if key = ''optional'' then
        read_field (slot_optional s) key (bool_value value) (\<lambda>x. s\<lparr>slot_optional := x\<rparr>)
      else if key = ''computed'' then
        read_field (slot_computed s) key (bool_value value) (\<lambda>x. s\<lparr>slot_computed := x\<rparr>)
      else if key = ''sensitive'' then
        read_field (slot_sensitive s) key (bool_value value) (\<lambda>x. s\<lparr>slot_sensitive := x\<rparr>)
      else if key = ''description'' then
        read_field (slot_description s) key (nullable text_value value) (\<lambda>x. s\<lparr>slot_description := x\<rparr>)
      else Inr s)"

definition attribute_of_slots ::
  "schema_path \<Rightarrow> (schema_type normalized option, schema_type normalized option) attribute_slots \<Rightarrow>
     attribute_schema normalized" where
  "attribute_of_slots path s =
     and_then
       (case (flat (slot_type s), flat (slot_nested s)) of
          (Some t, _) \<Rightarrow> t
        | (None, Some nested) \<Rightarrow> nested
        | (None, None) \<Rightarrow> Inl (MissingType (path_text path)))
       (\<lambda>t. Inr (AttributeSchema t (or_default (slot_required s) False) (or_default (slot_optional s) False)
          (or_default (slot_computed s) False) (or_default (slot_sensitive s) False)
          (flat (slot_description s))))"

fun attributes_seed :: "schema_path \<Rightarrow> doc \<Rightarrow> (string \<times> attribute_schema normalized) list decoded"
  and attribute_seed :: "schema_path \<Rightarrow> doc \<Rightarrow> attribute_schema normalized decoded"
  and nested_attribute_seed :: "schema_path \<Rightarrow> doc \<Rightarrow> schema_type normalized decoded" where
  "attributes_seed path (DObject entries) =
     try_map (\<lambda>(name, d). and_then (attribute_seed (path @ [PathField name]) d) (\<lambda>r. Inr (name, r))) entries"
| "attributes_seed path _ = Inl (UnexpectedValue ''a map of attributes'')"
| "attribute_seed path (DObject entries) =
     and_then
       (try_fold (\<lambda>(key, value) s.
            if key = ''type'' then
              read_field (slot_type s) key (nullable (\<lambda>d. Inr (type_seed path d)) value)
                (\<lambda>x. s\<lparr>slot_type := x\<rparr>)
            else if key = ''nested_type'' then
              read_field (slot_nested s) key (nullable (\<lambda>d. nested_attribute_seed path d) value)
                (\<lambda>x. s\<lparr>slot_nested := x\<rparr>)
            else read_flags key value s)
          entries no_attribute_slots)
       (\<lambda>s. Inr (attribute_of_slots path s))"
| "attribute_seed path _ = Inl (UnexpectedValue ''an attribute'')"
| "nested_attribute_seed path (DObject entries) =
     and_then
       (try_fold (\<lambda>(key, value) (mode, attributes).
            if key = ''nesting_mode'' then
              read_field mode key (text_value value) (\<lambda>x. (x, attributes))
            else if key = ''attributes'' then
              read_field attributes key (attributes_seed path value) (\<lambda>x. (mode, x))
            else Inr (mode, attributes))
          entries (None, None))
       (\<lambda>(mode, attributes).
          and_then (required_field mode ''nesting_mode'') (\<lambda>mode.
            Inr (nested_type mode (or_default attributes []) path)))"
| "nested_attribute_seed path _ = Inl (UnexpectedValue ''a nested type'')"

text \<open>The fields of a nested block read so far.\<close>

record ('m, 'b) nested_block_slots =
  slot_mode :: "'m option"
  slot_min_items :: "u64 option option"
  slot_max_items :: "u64 option option"
  slot_block :: "'b option"

definition no_nested_block_slots :: "('m, 'b) nested_block_slots" where
  "no_nested_block_slots = \<lparr>slot_mode = None, slot_min_items = None, slot_max_items = None, slot_block = None\<rparr>"

definition read_items ::
  "string \<Rightarrow> doc \<Rightarrow> ('m, 'b) nested_block_slots \<Rightarrow> ('m, 'b) nested_block_slots decoded" where
  "read_items key value s =
     (if key = ''min_items'' then
        read_field (slot_min_items s) key (nullable u64_value value) (\<lambda>x. s\<lparr>slot_min_items := x\<rparr>)
      else if key = ''max_items'' then
        read_field (slot_max_items s) key (nullable u64_value value) (\<lambda>x. s\<lparr>slot_max_items := x\<rparr>)
      else Inr s)"

fun block_seed :: "schema_path \<Rightarrow> doc \<Rightarrow> block_schema normalized decoded"
  and block_types_seed :: "schema_path \<Rightarrow> doc \<Rightarrow> (string \<times> nested_block_schema normalized) list decoded"
  and nested_block_seed :: "schema_path \<Rightarrow> doc \<Rightarrow> nested_block_schema normalized decoded" where
  "block_seed path (DObject entries) =
     and_then
       (try_fold (\<lambda>(key, value) (attributes, blocks).
            if key = ''attributes'' then
              read_field attributes key (attributes_seed path value) (\<lambda>x. (x, blocks))
            else if key = ''block_types'' then
              read_field blocks key (block_types_seed path value) (\<lambda>x. (attributes, x))
            else Inr (attributes, blocks))
          entries (None, None))
       (\<lambda>(attributes, blocks). Inr (normalize_block (or_default attributes []) (or_default blocks [])))"
| "block_seed path _ = Inl (UnexpectedValue ''a block'')"
| "block_types_seed path (DObject entries) =
     try_map (\<lambda>(name, d). and_then (nested_block_seed (path @ [PathField name]) d) (\<lambda>r. Inr (name, r))) entries"
| "block_types_seed path _ = Inl (UnexpectedValue ''a map of nested blocks'')"
| "nested_block_seed path (DObject entries) =
     and_then
       (try_fold (\<lambda>(key, value) s.
            if key = ''nesting_mode'' then
              read_field (slot_mode s) key (text_value value) (\<lambda>x. s\<lparr>slot_mode := x\<rparr>)
            else if key = ''block'' then
              read_field (slot_block s) key (block_seed path value) (\<lambda>x. s\<lparr>slot_block := x\<rparr>)
            else read_items key value s)
          entries no_nested_block_slots)
       (\<lambda>s.
          and_then (required_field (slot_mode s) ''nesting_mode'') (\<lambda>mode.
          and_then (required_field (slot_block s) ''block'') (\<lambda>block.
            Inr (and_then (parse_nesting_mode mode path) (\<lambda>mode.
              and_then block (\<lambda>block.
                Inr (NestedBlockSchema mode (flat (slot_min_items s)) (flat (slot_max_items s)) block)))))))"
| "nested_block_seed path _ = Inl (UnexpectedValue ''a nested block'')"

definition schema_seed :: "schema_path \<Rightarrow> doc \<Rightarrow> block_schema normalized decoded" where
  "schema_seed path d =
     (case d of
        DObject entries \<Rightarrow>
          and_then
            (try_fold (\<lambda>(key, value) block.
                 if key = ''block'' then read_field block key (block_seed path value) (\<lambda>x. x)
                 else Inr block)
               entries None)
            (\<lambda>block. required_field block ''block'')
      | _ \<Rightarrow> Inl (UnexpectedValue ''a schema''))"

definition resources_seed :: "string \<Rightarrow> doc \<Rightarrow> (string \<times> resource_schema normalized) list decoded" where
  "resources_seed prefix d =
     (case d of
        DObject entries \<Rightarrow>
          try_fold (\<lambda>(name, value) schemas.
              and_then (schema_seed [PathRoot prefix, PathField name] value) (\<lambda>block.
                Inr (bm_insert name block schemas)))
            entries []
      | _ \<Rightarrow> Inl (UnexpectedValue ''a map of resource schemas''))"

record normalized_provider =
  np_config :: "block_schema normalized"
  np_resources :: "(string \<times> resource_schema normalized) list"
  np_data_sources :: "(string \<times> resource_schema normalized) list"

definition provider_seed :: "doc \<Rightarrow> normalized_provider decoded" where
  "provider_seed d =
     (case d of
        DObject entries \<Rightarrow>
          and_then
            (try_fold (\<lambda>(key, value) (config, rs, ds).
                 if key = ''provider'' then
                   read_field config key (schema_seed [PathRoot ''provider''] value) (\<lambda>x. (x, rs, ds))
                 else if key = ''resource_schemas'' then
                   read_field rs key (resources_seed ''resource'' value) (\<lambda>x. (config, x, ds))
                 else if key = ''data_source_schemas'' then
                   read_field ds key (resources_seed ''data'' value) (\<lambda>x. (config, rs, x))
                 else Inr (config, rs, ds))
               entries (None, None, None))
            (\<lambda>(config, rs, ds).
               and_then (required_field config ''provider'') (\<lambda>config.
                 Inr \<lparr>np_config = config, np_resources = or_default rs [],
                   np_data_sources = or_default ds []\<rparr>))
      | _ \<Rightarrow> Inl (UnexpectedValue ''a provider schema''))"

text \<open>Every provider is decoded; those whose address names the requested one are kept.\<close>

definition providers_seed :: "provider_request \<Rightarrow> doc \<Rightarrow> (string \<times> normalized_provider) list decoded" where
  "providers_seed request d =
     (case d of
        DObject entries \<Rightarrow>
          try_fold (\<lambda>(address, value) providers.
              and_then (provider_seed value) (\<lambda>provider.
                Inr (if request_matches request address then bm_insert address provider providers
                     else providers)))
            entries []
      | _ \<Rightarrow> Inl (UnexpectedValue ''a map of provider schemas''))"

section \<open>Decoding the normalized format\<close>

fun nesting_name :: "string \<Rightarrow> nesting_mode decoded" where
  "nesting_name mode =
     (if mode = ''single'' then Inr SingleNesting
      else if mode = ''list'' then Inr ListNesting
      else if mode = ''set'' then Inr SetNesting
      else if mode = ''map'' then Inr MapNesting
      else if mode = ''group'' then Inr GroupNesting
      else Inl (UnknownVariant mode))"

text \<open>
  The derived \<open>Deserialize\<close> of an enumeration takes the variant's name, or an object with the
  name as its one key and \<open>null\<close> as its value.
\<close>

fun nesting_value :: "doc \<Rightarrow> nesting_mode decoded" where
  "nesting_value (DString mode) = nesting_name mode"
| "nesting_value (DObject [(mode, DNull)]) = nesting_name mode"
| "nesting_value _ = Inl (UnexpectedValue ''enum NestingMode'')"

fun stored_type :: "doc \<Rightarrow> schema_type decoded"
  and stored_tuple :: "doc \<Rightarrow> schema_type list decoded"
  and stored_attributes :: "doc \<Rightarrow> (string \<times> attribute_schema) list decoded"
  and stored_attribute :: "doc \<Rightarrow> attribute_schema decoded" where
  "stored_type (DObject entries) =
     (case entries of
        [] \<Rightarrow> Inl (CustomError ''expected the type's kind first'')
      | (key, value) # rest \<Rightarrow>
          if key \<noteq> ''kind'' then Inl (CustomError ''expected the type's kind first'')
          else and_then (text_value value) (\<lambda>kind.
            if kind \<in> {''string'', ''bool'', ''number'', ''dynamic''} then
              (if rest \<noteq> [] then Inl (CustomError ''unexpected field after the type'')
               else Inr (if kind = ''string'' then StringType
                 else if kind = ''bool'' then BoolType
                 else if kind = ''number'' then NumberType else DynamicType))
            else
              (case rest of
                 [] \<Rightarrow> Inl (CustomError ''expected the type's value'')
               | (key, value) # rest \<Rightarrow>
                   if key \<noteq> ''value'' then Inl (CustomError ''expected the type's value'')
                   else and_then
                     (if kind = ''list'' then and_then (stored_type value) (\<lambda>t. Inr (ListType t))
                      else if kind = ''set'' then and_then (stored_type value) (\<lambda>t. Inr (SetType t))
                      else if kind = ''map'' then and_then (stored_type value) (\<lambda>t. Inr (MapType t))
                      else if kind = ''object'' then
                        and_then (stored_attributes value) (\<lambda>as. Inr (ObjectType as))
                      else if kind = ''tuple'' then and_then (stored_tuple value) (\<lambda>ts. Inr (TupleType ts))
                      else Inl (UnknownVariant kind))
                     (\<lambda>t. if rest \<noteq> [] then Inl (CustomError ''unexpected field after the type'')
                          else Inr t))))"
| "stored_type _ = Inl (UnexpectedValue ''a schema type'')"
| "stored_tuple (DArray elements) = try_map stored_type elements"
| "stored_tuple _ = Inl (UnexpectedValue ''a list of schema types'')"
| "stored_attributes (DObject entries) =
     and_then (try_map (\<lambda>(name, d). and_then (stored_attribute d) (\<lambda>a. Inr (name, a))) entries)
       (\<lambda>attributes. Inr (sort_unique attributes))"
| "stored_attributes _ = Inl (UnexpectedValue ''a map of attributes'')"
| "stored_attribute (DObject entries) =
     and_then
       (try_fold (\<lambda>(key, value) s.
            if key = ''type'' then
              read_field (slot_type s) key (stored_type value) (\<lambda>x. s\<lparr>slot_type := x\<rparr>)
            else read_flags key value s)
          entries (no_attribute_slots :: (schema_type, unit) attribute_slots))
       (\<lambda>s.
          and_then (required_field (slot_type s) ''type'') (\<lambda>t.
          and_then (required_field (slot_required s) ''required'') (\<lambda>r.
          and_then (required_field (slot_optional s) ''optional'') (\<lambda>opt.
          and_then (required_field (slot_computed s) ''computed'') (\<lambda>c.
          and_then (required_field (slot_sensitive s) ''sensitive'') (\<lambda>sens.
            Inr (AttributeSchema t r opt c sens (flat (slot_description s)))))))))"
| "stored_attribute _ = Inl (UnexpectedValue ''an attribute schema'')"

fun stored_block :: "doc \<Rightarrow> block_schema decoded"
  and stored_blocks :: "doc \<Rightarrow> (string \<times> nested_block_schema) list decoded"
  and stored_nested_block :: "doc \<Rightarrow> nested_block_schema decoded" where
  "stored_block (DObject entries) =
     and_then
       (try_fold (\<lambda>(key, value) (attributes, blocks).
            if key = ''attributes'' then
              read_field attributes key (stored_attributes value) (\<lambda>x. (x, blocks))
            else if key = ''blocks'' then
              read_field blocks key (stored_blocks value) (\<lambda>x. (attributes, x))
            else Inr (attributes, blocks))
          entries (None, None))
       (\<lambda>(attributes, blocks).
          and_then (required_field attributes ''attributes'') (\<lambda>attributes.
          and_then (required_field blocks ''blocks'') (\<lambda>blocks. Inr (BlockSchema attributes blocks))))"
| "stored_block _ = Inl (UnexpectedValue ''a block schema'')"
| "stored_blocks (DObject entries) =
     and_then (try_map (\<lambda>(name, d). and_then (stored_nested_block d) (\<lambda>b. Inr (name, b))) entries)
       (\<lambda>blocks. Inr (sort_unique blocks))"
| "stored_blocks _ = Inl (UnexpectedValue ''a map of nested blocks'')"
| "stored_nested_block (DObject entries) =
     and_then
       (try_fold (\<lambda>(key, value) s.
            if key = ''nesting_mode'' then
              read_field (slot_mode s) key (nesting_value value) (\<lambda>x. s\<lparr>slot_mode := x\<rparr>)
            else if key = ''block'' then
              read_field (slot_block s) key (stored_block value) (\<lambda>x. s\<lparr>slot_block := x\<rparr>)
            else read_items key value s)
          entries no_nested_block_slots)
       (\<lambda>s.
          and_then (required_field (slot_mode s) ''nesting_mode'') (\<lambda>mode.
          and_then (required_field (slot_block s) ''block'') (\<lambda>block.
            Inr (NestedBlockSchema mode (flat (slot_min_items s)) (flat (slot_max_items s)) block))))"
| "stored_nested_block _ = Inl (UnexpectedValue ''a nested block schema'')"

definition stored_resource :: "doc \<Rightarrow> block_schema decoded" where
  "stored_resource d =
     (case d of
        DObject entries \<Rightarrow>
          and_then
            (try_fold (\<lambda>(key, value) block.
                 if key = ''block'' then read_field block key (stored_block value) (\<lambda>x. x)
                 else Inr block)
               entries None)
            (\<lambda>block. required_field block ''block'')
      | _ \<Rightarrow> Inl (UnexpectedValue ''a resource schema''))"

definition stored_resources :: "doc \<Rightarrow> (string \<times> resource_schema) list decoded" where
  "stored_resources d =
     (case d of
        DObject entries \<Rightarrow>
          try_fold (\<lambda>(name, value) schemas.
              and_then (stored_resource value) (\<lambda>block. Inr (bm_insert name block schemas)))
            entries []
      | _ \<Rightarrow> Inl (UnexpectedValue ''a map of resource schemas''))"

section \<open>Documents\<close>

record raw_document =
  raw_format_version :: string
  raw_providers :: "(string \<times> normalized_provider) list"

record document =
  doc_raw :: "raw_document option"
  doc_normalized :: "provider_schema option"

record document_slots =
  slot_format_version :: "string option"
  slot_providers :: "(string \<times> normalized_provider) list option"
  slot_source :: "string option"
  slot_version :: "string option"
  slot_config :: "block_schema option"
  slot_resources :: "(string \<times> resource_schema) list option"
  slot_data_sources :: "(string \<times> resource_schema) list option"

definition no_document_slots :: document_slots where
  "no_document_slots =
     \<lparr>slot_format_version = None, slot_providers = None, slot_source = None, slot_version = None,
      slot_config = None, slot_resources = None, slot_data_sources = None\<rparr>"

definition document_field ::
  "provider_request \<Rightarrow> bool \<Rightarrow> string \<times> doc \<Rightarrow> document_slots \<Rightarrow> document_slots decoded" where
  "document_field request accept_normalized entry s =
     (let (key, value) = entry in
      if key = ''format_version'' then
        read_field (slot_format_version s) key (text_value value) (\<lambda>x. s\<lparr>slot_format_version := x\<rparr>)
      else if key = ''provider_schemas'' then
        read_field (slot_providers s) key (providers_seed request value) (\<lambda>x. s\<lparr>slot_providers := x\<rparr>)
      else if key = ''source'' \<and> accept_normalized then
        read_field (slot_source s) key (text_value value) (\<lambda>x. s\<lparr>slot_source := x\<rparr>)
      else if key = ''version'' \<and> accept_normalized then
        read_field (slot_version s) key (text_value value) (\<lambda>x. s\<lparr>slot_version := x\<rparr>)
      else if key = ''provider_config'' \<and> accept_normalized then
        read_field (slot_config s) key (stored_block value) (\<lambda>x. s\<lparr>slot_config := x\<rparr>)
      else if key = ''resources'' \<and> accept_normalized then
        read_field (slot_resources s) key (stored_resources value) (\<lambda>x. s\<lparr>slot_resources := x\<rparr>)
      else if key = ''data_sources'' \<and> accept_normalized then
        read_field (slot_data_sources s) key (stored_resources value) (\<lambda>x. s\<lparr>slot_data_sources := x\<rparr>)
      else Inr s)"

definition document_of_slots :: "document_slots \<Rightarrow> document" where
  "document_of_slots s =
     \<lparr>doc_raw =
        (case (slot_format_version s, slot_providers s) of
           (Some v, Some ps) \<Rightarrow> Some \<lparr>raw_format_version = v, raw_providers = ps\<rparr>
         | _ \<Rightarrow> None),
      doc_normalized =
        (case (slot_source s, slot_version s, slot_config s, slot_resources s, slot_data_sources s) of
           (Some source, Some version, Some config, Some rs, Some ds) \<Rightarrow>
             Some \<lparr>ps_source = source, ps_version = version, provider_config = config,
               ps_resources = rs, ps_data_sources = ds\<rparr>
         | _ \<Rightarrow> None)\<rparr>"

definition document_seed :: "provider_request \<Rightarrow> bool \<Rightarrow> doc \<Rightarrow> document decoded" where
  "document_seed request accept_normalized d =
     (case d of
        DObject entries \<Rightarrow>
          and_then (try_fold (document_field request accept_normalized) entries no_document_slots) (\<lambda>s.
          and_then (if accept_normalized then Inr () else
              and_then (required_field (slot_format_version s) ''format_version'') (\<lambda>_.
              and_then (required_field (slot_providers s) ''provider_schemas'') (\<lambda>_. Inr ()))) (\<lambda>_.
            Inr (document_of_slots s)))
      | _ \<Rightarrow> Inl (UnexpectedValue ''a provider schema document''))"

definition first_error :: "(string \<times> 'a normalized) list \<Rightarrow> (string \<times> 'a) list normalized" where
  "first_error results = try_map (\<lambda>(name, result). and_then result (\<lambda>x. Inr (name, x))) results"

definition normalized :: "provider_request \<Rightarrow> raw_document \<Rightarrow> provider_schema normalized" where
  "normalized request raw =
     (if hd (split_on (CHR ''.'') (raw_format_version raw)) \<noteq> ''1''
      then Inl (UnsupportedFormat (raw_format_version raw))
      else case raw_providers raw of
          [] \<Rightarrow> Inl (MissingProvider (req_source request))
        | (_, provider) # _ \<Rightarrow>
            and_then (np_config provider) (\<lambda>config.
            and_then (first_error (np_resources provider)) (\<lambda>rs.
            and_then (first_error (np_data_sources provider)) (\<lambda>ds.
              Inr \<lparr>ps_source = req_source request, ps_version = req_version request,
                provider_config = config, ps_resources = rs, ps_data_sources = ds\<rparr>))))"

text \<open>
  \<open>parse\<close> stands for \<open>serde_json\<close> reading the bytes: the document, or nothing when they
  are not one JSON value. Which of serde's problems ends the decoding is not kept.
\<close>

definition decode :: "(string \<Rightarrow> doc option) \<Rightarrow> string \<Rightarrow> provider_request \<Rightarrow> bool \<Rightarrow> document normalized" where
  "decode parse bytes request accept_normalized =
     (case parse bytes of
        None \<Rightarrow> Inl JsonError
      | Some d \<Rightarrow>
          (case document_seed request accept_normalized d of
             Inl _ \<Rightarrow> Inl JsonError
           | Inr document \<Rightarrow> Inr document))"

text \<open>\<open>expect\<close> on the raw fields would panic: the outer \<open>None\<close>.\<close>

definition normalize_schema ::
  "(string \<Rightarrow> doc option) \<Rightarrow> string \<Rightarrow> provider_request \<Rightarrow> provider_schema normalized option" where
  "normalize_schema parse bytes request =
     (case decode parse bytes request False of
        Inl e \<Rightarrow> Some (Inl e)
      | Inr document \<Rightarrow> map_option (normalized request) (doc_raw document))"

datatype schema_file = NormalizedFile provider_schema | RawFile provider_schema

text \<open>
  \<open>derived\<close> stands for the \<open>Deserialize\<close> impl serde derives for \<open>ProviderSchema\<close>, which is
  tried when the shared pass finds neither format.
\<close>

definition read_schema_file ::
  "(string \<Rightarrow> doc option) \<Rightarrow> (string \<Rightarrow> provider_schema option) \<Rightarrow> string \<Rightarrow> provider_request \<Rightarrow>
     schema_file normalized option" where
  "read_schema_file parse derived bytes request =
     (let fallback =
        (case derived bytes of
           Some schema \<Rightarrow> Some (Inr (NormalizedFile schema))
         | None \<Rightarrow> map_option (\<lambda>r. and_then r (\<lambda>schema. Inr (RawFile schema)))
             (normalize_schema parse bytes request))
      in case decode parse bytes request True of
           Inr document \<Rightarrow>
             (case (doc_normalized document, doc_raw document) of
                (Some schema, _) \<Rightarrow> Some (Inr (NormalizedFile schema))
              | (None, Some raw) \<Rightarrow>
                  Some (and_then (normalized request raw) (\<lambda>schema. Inr (RawFile schema)))
              | (None, None) \<Rightarrow> fallback)
         | Inl _ \<Rightarrow> fallback)"

section \<open>Serializing\<close>

text \<open>What the derived \<open>Serialize\<close> impls write: fields in declaration order, absent options left out.\<close>

fun nesting_text :: "nesting_mode \<Rightarrow> string" where
  "nesting_text SingleNesting = ''single''"
| "nesting_text ListNesting = ''list''"
| "nesting_text SetNesting = ''set''"
| "nesting_text MapNesting = ''map''"
| "nesting_text GroupNesting = ''group''"

definition optional_entry :: "string \<Rightarrow> ('a \<Rightarrow> doc) \<Rightarrow> 'a option \<Rightarrow> (string \<times> doc) list" where
  "optional_entry name f x = (case x of None \<Rightarrow> [] | Some y \<Rightarrow> [(name, f y)])"

fun encode_type :: "schema_type \<Rightarrow> doc"
  and encode_attribute :: "attribute_schema \<Rightarrow> doc" where
  "encode_type StringType = DObject [(''kind'', DString ''string'')]"
| "encode_type BoolType = DObject [(''kind'', DString ''bool'')]"
| "encode_type NumberType = DObject [(''kind'', DString ''number'')]"
| "encode_type DynamicType = DObject [(''kind'', DString ''dynamic'')]"
| "encode_type (ListType t) = DObject [(''kind'', DString ''list''), (''value'', encode_type t)]"
| "encode_type (SetType t) = DObject [(''kind'', DString ''set''), (''value'', encode_type t)]"
| "encode_type (MapType t) = DObject [(''kind'', DString ''map''), (''value'', encode_type t)]"
| "encode_type (ObjectType as) =
     DObject [(''kind'', DString ''object''),
       (''value'', DObject (map (\<lambda>(name, a). (name, encode_attribute a)) as))]"
| "encode_type (TupleType ts) =
     DObject [(''kind'', DString ''tuple''), (''value'', DArray (map encode_type ts))]"
| "encode_attribute (AttributeSchema t r opt c sens description) =
     DObject ([(''type'', encode_type t), (''required'', DBool r), (''optional'', DBool opt),
       (''computed'', DBool c), (''sensitive'', DBool sens)] @
       optional_entry ''description'' DString description)"

definition encode_attributes :: "(string \<times> attribute_schema) list \<Rightarrow> doc" where
  "encode_attributes as = DObject (map (\<lambda>(name, a). (name, encode_attribute a)) as)"

fun encode_block :: "block_schema \<Rightarrow> doc"
  and encode_nested_block :: "nested_block_schema \<Rightarrow> doc" where
  "encode_block (BlockSchema as bs) =
     DObject [(''attributes'', encode_attributes as),
       (''blocks'', DObject (map (\<lambda>(name, b). (name, encode_nested_block b)) bs))]"
| "encode_nested_block (NestedBlockSchema mode minimum maximum block) =
     DObject ([(''nesting_mode'', DString (nesting_text mode))] @
       optional_entry ''min_items'' (\<lambda>n. DNumber (Some n)) minimum @
       optional_entry ''max_items'' (\<lambda>n. DNumber (Some n)) maximum @
       [(''block'', encode_block block)])"

definition encode_resources :: "(string \<times> resource_schema) list \<Rightarrow> doc" where
  "encode_resources rs = DObject (map (\<lambda>(name, b). (name, DObject [(''block'', encode_block b)])) rs)"

definition encode_schema :: "provider_schema \<Rightarrow> doc" where
  "encode_schema s =
     DObject [(''source'', DString (ps_source s)), (''version'', DString (ps_version s)),
       (''provider_config'', encode_block (provider_config s)),
       (''resources'', encode_resources (ps_resources s)),
       (''data_sources'', encode_resources (ps_data_sources s))]"

end
