(* ===== verification/Provider_Schema_Correct.thy ===== *)
theory Provider_Schema_Correct
  imports Provider_Schema
begin

text \<open>
  What reading a schema guarantees: every name map of the result is in name order without
  repeated names, a normalized schema written out is read back as it was, the provider used is
  the first matching address, and no call panics.
\<close>

section \<open>Well-formed schemas\<close>

fun type_wf :: "schema_type \<Rightarrow> bool" and attribute_wf :: "attribute_schema \<Rightarrow> bool" where
  "type_wf (ListType t) \<longleftrightarrow> type_wf t"
| "type_wf (SetType t) \<longleftrightarrow> type_wf t"
| "type_wf (MapType t) \<longleftrightarrow> type_wf t"
| "type_wf (ObjectType as) \<longleftrightarrow> bm_wf as \<and> list_all (\<lambda>(name, a). attribute_wf a) as"
| "type_wf (TupleType ts) \<longleftrightarrow> list_all type_wf ts"
| "type_wf _ \<longleftrightarrow> True"
| "attribute_wf (AttributeSchema t r opt c sens description) \<longleftrightarrow> type_wf t"

definition attributes_wf :: "(string \<times> attribute_schema) list \<Rightarrow> bool" where
  "attributes_wf as \<longleftrightarrow> bm_wf as \<and> list_all (\<lambda>(name, a). attribute_wf a) as"

fun block_wf :: "block_schema \<Rightarrow> bool" and nested_block_wf :: "nested_block_schema \<Rightarrow> bool" where
  "block_wf (BlockSchema as bs) \<longleftrightarrow>
     attributes_wf as \<and> bm_wf bs \<and> list_all (\<lambda>(name, b). nested_block_wf b) bs"
| "nested_block_wf (NestedBlockSchema mode minimum maximum block) \<longleftrightarrow> block_wf block"

definition resources_wf :: "(string \<times> resource_schema) list \<Rightarrow> bool" where
  "resources_wf rs \<longleftrightarrow> bm_wf rs \<and> list_all (\<lambda>(name, b). block_wf b) rs"

definition schema_wf :: "provider_schema \<Rightarrow> bool" where
  "schema_wf s \<longleftrightarrow>
     block_wf (provider_config s) \<and> resources_wf (ps_resources s) \<and> resources_wf (ps_data_sources s)"

section \<open>Reading back what was written\<close>

lemma sort_unique_id: "bm_wf kvs \<Longrightarrow> sort_unique kvs = kvs"
  by (simp add: sort_unique_collect bm_collect_sorted)

lemma try_map_entries:
  "(\<And>k x. (k, x) \<in> set es \<Longrightarrow> f (g x) = Inr x) \<Longrightarrow>
   try_map (\<lambda>(k, d). and_then (f d) (\<lambda>x. Inr (k, x))) (map (\<lambda>(k, x). (k, g x)) es) = Inr es"
proof (induction es)
  case (Cons e es)
  then show ?case by (cases e) fastforce
qed simp

lemma try_map_inverse: "(\<And>x. x \<in> set xs \<Longrightarrow> f (g x) = Inr x) \<Longrightarrow> try_map f (map g xs) = Inr xs"
  by (induction xs) auto

lemma list_all_entries: "list_all (\<lambda>(k, x). P x) es \<longleftrightarrow> (\<forall>k x. (k, x) \<in> set es \<longrightarrow> P x)"
  by (auto simp: list_all_iff)

lemmas slot_defs = no_attribute_slots_def no_nested_block_slots_def read_field_def first_time_def
  read_flags_def read_items_def required_field_def nullable_def flat_def optional_entry_def

lemma stored_encoded_type:
  "type_wf t \<Longrightarrow> stored_type (encode_type t) = Inr t"
  "attribute_wf a \<Longrightarrow> stored_attribute (encode_attribute a) = Inr a"
proof (induction t and a rule: encode_type_encode_attribute.induct)
  case (8 as)
  then have "stored_attributes (DObject (map (\<lambda>(name, a). (name, encode_attribute a)) as)) = Inr as"
    unfolding stored_attributes.simps
    by (subst try_map_entries) (auto simp: list_all_entries sort_unique_id)
  then show ?case by simp
next
  case (9 ts)
  then have "stored_tuple (DArray (map encode_type ts)) = Inr ts"
    unfolding stored_tuple.simps by (intro try_map_inverse) (auto simp: list_all_iff)
  then show ?case by simp
next
  case (10 t r opt c sens description)
  then show ?case by (cases description) (simp_all add: slot_defs)
qed auto

lemma stored_encoded_attributes: "attributes_wf as \<Longrightarrow> stored_attributes (encode_attributes as) = Inr as"
  unfolding encode_attributes_def stored_attributes.simps attributes_wf_def
  by (subst try_map_entries) (auto simp: list_all_entries sort_unique_id stored_encoded_type)

lemma nesting_name_text: "nesting_name (nesting_text mode) = Inr mode"
  by (cases mode) auto

lemma stored_encoded_block:
  "block_wf b \<Longrightarrow> stored_block (encode_block b) = Inr b"
  "nested_block_wf n \<Longrightarrow> stored_nested_block (encode_nested_block n) = Inr n"
proof (induction b and n rule: encode_block_encode_nested_block.induct)
  case (1 as bs)
  then have "stored_blocks (DObject (map (\<lambda>(name, b). (name, encode_nested_block b)) bs)) = Inr bs"
    unfolding stored_blocks.simps
    by (subst try_map_entries) (auto simp: list_all_entries sort_unique_id)
  with 1 show ?case by (simp add: stored_encoded_attributes slot_defs)
next
  case (2 mode minimum maximum block)
  then show ?case
    by (cases minimum; cases maximum) (simp_all add: slot_defs nesting_name_text del: nesting_name.simps)
qed

text \<open>A loop that inserts a decoded value under each name collects the decoded entries.\<close>

lemma try_fold_insert:
  "try_fold (\<lambda>(name, d) m. and_then (f name d) (\<lambda>x. Inr (bm_insert name x m))) es m =
     and_then (try_map (\<lambda>(name, d). and_then (f name d) (\<lambda>x. Inr (name, x))) es)
       (\<lambda>kvs. Inr (collect_by bm_insert m kvs))"
proof (induction es arbitrary: m)
  case (Cons e es)
  obtain name d where e: "e = (name, d)" by (cases e)
  show ?case
    by (cases "f name d"; cases "try_map (\<lambda>(name, d). and_then (f name d) (\<lambda>x. Inr (name, x))) es")
      (simp_all add: e Cons.IH)
qed simp

lemma stored_encoded_resources: "resources_wf rs \<Longrightarrow> stored_resources (encode_resources rs) = Inr rs"
proof -
  assume wf: "resources_wf rs"
  have one: "stored_resource (DObject [(''block'', encode_block b)]) = Inr b" if "block_wf b" for b
    using that by (simp add: stored_resource_def slot_defs stored_encoded_block)
  have "try_map (\<lambda>(name, d). and_then (stored_resource d) (\<lambda>b. Inr (name, b)))
      (map (\<lambda>(name, b). (name, DObject [(''block'', encode_block b)])) rs) = Inr rs"
    using wf by (intro try_map_entries) (auto simp: resources_wf_def list_all_entries one)
  with wf show ?thesis
    by (simp add: stored_resources_def encode_resources_def try_fold_insert[of "\<lambda>_. stored_resource"]
        resources_wf_def bm_collect_sorted)
qed

lemma document_encoded:
  assumes "schema_wf s"
  shows "document_seed request True (encode_schema s) = Inr \<lparr>doc_raw = None, doc_normalized = Some s\<rparr>"
  using assms
  by (cases s)
    (simp add: document_seed_def encode_schema_def document_field_def no_document_slots_def document_of_slots_def
      schema_wf_def stored_encoded_block stored_encoded_resources read_field_def first_time_def)

section \<open>What is read is well formed\<close>

lemma dedup_subset: "set (dedup_keep_last es) \<subseteq> set es"
  by (induction es rule: dedup_keep_last.induct) auto

lemma sort_unique_subset: "set (sort_unique es) \<subseteq> set es"
  using dedup_subset[of "sort_key fst es"] by (simp add: sort_unique_def)

lemma collect_im_subset: "set (collect_by im_insert m kvs) \<subseteq> set m \<union> set kvs"
proof (induction kvs arbitrary: m)
  case (Cons kv kvs)
  have "set (im_insert k v m) \<subseteq> insert (k, v) (set m)" for k :: 'a and v :: 'b
    by (induction k v m rule: im_insert.induct) auto
  with Cons show ?case by (cases kv) fastforce
qed simp

lemma try_map_named:
  "try_map (\<lambda>(n, r). and_then (f n r) (\<lambda>x. Inr (n, x))) es = Inr ys \<Longrightarrow>
     map fst ys = map fst es \<and> (\<forall>(n, x) \<in> set ys. \<exists>r. (n, r) \<in> set es \<and> f n r = Inr x)"
proof (induction es arbitrary: ys)
  case (Cons e es)
  obtain n r where e: "e = (n, r)" by (cases e)
  from Cons.prems obtain x zs where x: "f n r = Inr x" and ys: "ys = (n, x) # zs"
    and zs: "try_map (\<lambda>(n, r). and_then (f n r) (\<lambda>x. Inr (n, x))) es = Inr zs"
    unfolding e by (auto simp: and_then_ok)
  from Cons.IH[OF zs] x show ?case unfolding e ys by auto
qed simp

lemma named_wf:
  assumes "try_map (\<lambda>(n, r). and_then (f n r) (\<lambda>x. Inr (n, x))) es = Inr ys"
    and "\<And>n r x. (n, r) \<in> set es \<Longrightarrow> f n r = Inr x \<Longrightarrow> P x"
  shows "list_all (\<lambda>(n, x). P x) ys"
proof -
  have "P x" if "(n, x) \<in> set ys" for n x
    using try_map_named[OF assms(1)] assms(2) that by blast
  then show ?thesis by (simp add: list_all_entries)
qed

lemma sorted_wf: "list_all (\<lambda>(n, x). P x) ys \<Longrightarrow> bm_wf (sort_unique ys) \<and> list_all (\<lambda>(n, x). P x) (sort_unique ys)"
  using sort_unique_subset[of ys] by (auto simp: sort_unique_result list_all_iff)

lemma name_map_wf:
  assumes "name_map results = Inr entries" and "\<And>n x. (n, Inr x) \<in> set results \<Longrightarrow> P x"
  shows "bm_wf entries \<and> list_all (\<lambda>(n, x). P x) entries"
proof -
  from assms(1) obtain es
    where es: "try_map (\<lambda>(n, r). and_then r (\<lambda>x. Inr (n, x))) (sort_unique results) = Inr es"
      and entries: "entries = sort_unique es"
    by (auto simp: name_map_def and_then_ok)
  have "list_all (\<lambda>(n, x). P x) es"
    using named_wf[of "\<lambda>_ r. r" "sort_unique results" es P] es assms(2) sort_unique_subset[of results] by auto
  then show ?thesis unfolding entries by (rule sorted_wf)
qed

lemma object_type_wf:
  assumes "object_type results = Inr t" and "\<And>n t. (n, Inr t) \<in> set results \<Longrightarrow> type_wf t"
  shows "type_wf t"
proof -
  have assoc: "(\<lambda>(name, t). and_then t (\<lambda>t. Inr (name, object_field t))) =
      (\<lambda>(name, r). and_then (and_then r (\<lambda>t. Inr (object_field t))) (\<lambda>a. Inr (name, a)))"
    by (auto simp: fun_eq_iff and_then_def split: sum.splits)
  from assms(1) obtain es
    where es: "try_map (\<lambda>(name, r). and_then (and_then r (\<lambda>t. Inr (object_field t))) (\<lambda>a. Inr (name, a)))
        (merge_repeated_keys results) = Inr es"
      and t: "t = ObjectType (sort_unique es)"
    unfolding object_type_def assoc by (auto simp: and_then_ok)
  have "list_all (\<lambda>(n, a). attribute_wf a) es"
    using es
  proof (rule named_wf)
    fix n r a assume "(n, r) \<in> set (merge_repeated_keys results)"
      and "and_then r (\<lambda>t. Inr (object_field t)) = Inr a"
    with assms(2) collect_im_subset[of "[]" results] show "attribute_wf a"
      by (auto simp: and_then_ok object_field_def merge_repeated_keys_collect)
  qed
  then show ?thesis unfolding t type_wf.simps by (rule sorted_wf)
qed

lemma nest_type_wf: "type_wf t \<Longrightarrow> type_wf (nest_type mode t)"
  by (cases mode) (simp_all add: nest_type_def)

lemma type_seed_wf:
  "type_seed path d = Inr t \<Longrightarrow> type_wf t"
  "object_type_seed path d = Inr t \<Longrightarrow> type_wf t"
  "tuple_type_seed path d = Inr t \<Longrightarrow> type_wf t"
proof (induction path d and path d and path d arbitrary: t and t and t
    rule: type_seed_object_type_seed_tuple_type_seed.induct)
  case (2 path elements)
  then show ?case
    by (auto simp: and_then_ok split: list.splits doc.splits if_splits)
next
  case (4 path entries)
  then show ?case
    by (intro object_type_wf[OF 4(2)[unfolded object_type_seed.simps]]) auto
next
  case (6 path elements)
  then obtain ts where t: "t = TupleType ts"
    and ts: "try_map (\<lambda>(index, d). type_seed (path @ [PathIndex index]) d) (enumerate 0 elements) = Inr ts"
    by (auto simp: and_then_ok)
  from ts have "list_all type_wf ts"
    by (rule try_map_all) (use 6(1) in auto)
  then show ?case by (simp add: t)
qed (auto split: if_splits)

definition attribute_slots_ok ::
  "(schema_type normalized option, schema_type normalized option) attribute_slots \<Rightarrow> bool" where
  "attribute_slots_ok s \<longleftrightarrow>
     (\<forall>t. slot_type s = Some (Some (Inr t)) \<longrightarrow> type_wf t) \<and>
     (\<forall>t. slot_nested s = Some (Some (Inr t)) \<longrightarrow> type_wf t)"

lemma read_field_ok:
  "read_field seen field value put = Inr s \<longleftrightarrow> seen = None \<and> (\<exists>x. value = Inr x \<and> s = put (Some x))"
  by (auto simp: read_field_def first_time_def and_then_ok split: option.splits)

lemma nullable_ok:
  "nullable seed d = Inr x \<longleftrightarrow> (d = DNull \<and> x = None) \<or> (d \<noteq> DNull \<and> (\<exists>y. seed d = Inr y \<and> x = Some y))"
  by (auto simp: nullable_def and_then_ok)

lemma read_flags_slots:
  "read_flags key value s = Inr s' \<Longrightarrow> slot_type s' = slot_type s \<and> slot_nested s' = slot_nested s"
  by (auto simp: read_flags_def read_field_ok split: if_splits)

lemma attribute_of_slots_wf:
  "attribute_slots_ok s \<Longrightarrow> attribute_of_slots path s = Inr a \<Longrightarrow> attribute_wf a"
  by (auto simp: attribute_slots_ok_def attribute_of_slots_def flat_def and_then_ok split: option.splits)

lemma nested_type_wf:
  assumes "nested_type mode rs path = Inr t" and "\<And>n a. (n, Inr a) \<in> set rs \<Longrightarrow> attribute_wf a"
  shows "type_wf t"
proof -
  from assms(1) obtain entries m where "name_map rs = Inr entries" and t: "t = nest_type m (ObjectType entries)"
    by (auto simp: nested_type_def and_then_ok)
  from name_map_wf[OF this(1), of attribute_wf] assms(2) show ?thesis
    unfolding t by (intro nest_type_wf) simp
qed

lemma attributes_seed_wf:
  "attributes_seed path d = Inr rs \<Longrightarrow> (n, Inr a) \<in> set rs \<Longrightarrow> attribute_wf a"
  "attribute_seed path d = Inr (Inr a) \<Longrightarrow> attribute_wf a"
  "nested_attribute_seed path d = Inr (Inr t) \<Longrightarrow> type_wf t"
proof (induction path d and path d and path d arbitrary: rs n a and a and t
    rule: attributes_seed_attribute_seed_nested_attribute_seed.induct)
  case (1 path entries)
  from try_map_named[of "\<lambda>n d. attribute_seed (path @ [PathField n]) d" entries rs] 1(2,3)
  obtain d where "(n, d) \<in> set entries" "attribute_seed (path @ [PathField n]) d = Inr (Inr a)"
    by auto
  with 1(1) show ?case by blast
next
  case (3 path entries)
  let ?step = "\<lambda>(key, value) s.
            if key = ''type'' then
              read_field (slot_type s) key (nullable (\<lambda>d. Inr (type_seed path d)) value)
                (\<lambda>x. s\<lparr>slot_type := x\<rparr>)
            else if key = ''nested_type'' then
              read_field (slot_nested s) key (nullable (\<lambda>d. nested_attribute_seed path d) value)
                (\<lambda>x. s\<lparr>slot_nested := x\<rparr>)
            else read_flags key value s"
  from 3(2) obtain s where s: "try_fold ?step entries no_attribute_slots = Inr s"
    and a: "attribute_of_slots path s = Inr a"
    by (auto simp: and_then_ok)
  from s have "attribute_slots_ok s"
  proof (rule try_fold_invariant)
    show "attribute_slots_ok no_attribute_slots"
      by (simp add: attribute_slots_ok_def no_attribute_slots_def)
  next
    fix e s s' assume e: "e \<in> set entries" and ok: "attribute_slots_ok s" and step: "?step e s = Inr s'"
    obtain k v where kv: "e = (k, v)" by (cases e)
    show "attribute_slots_ok s'"
      using ok step 3(1)[OF e kv[symmetric]] type_seed_wf(1)[of path v]
        read_flags_slots[of k v s s']
      by (auto simp: kv attribute_slots_ok_def read_field_ok nullable_ok split: if_splits)
  qed
  then show ?case using a by (rule attribute_of_slots_wf)
next
  case (5 path entries)
  let ?step = "\<lambda>(key, value) (mode, attributes).
            if key = ''nesting_mode'' then
              read_field mode key (text_value value) (\<lambda>x. (x, attributes))
            else if key = ''attributes'' then
              read_field attributes key (attributes_seed path value) (\<lambda>x. (mode, x))
            else Inr (mode, attributes)"
  from 5(2) obtain m rs m' where s: "try_fold ?step entries (None, None) = Inr (m, rs)"
    and t: "nested_type m' (or_default rs []) path = Inr t"
    by (auto simp: and_then_ok)
  have "\<forall>n a. (n, Inr a) \<in> set (or_default (snd (m, rs)) []) \<longrightarrow> attribute_wf a"
    using s
  proof (rule try_fold_invariant)
    fix e s s' assume e: "e \<in> set entries" and step: "?step e s = Inr s'"
      and ok: "\<forall>n a. (n, Inr a) \<in> set (or_default (snd s) []) \<longrightarrow> attribute_wf a"
    obtain k v where kv: "e = (k, v)" by (cases e)
    obtain m rs where s: "s = (m, rs)" by (cases s)
    show "\<forall>n a. (n, Inr a) \<in> set (or_default (snd s') []) \<longrightarrow> attribute_wf a"
      using ok step 5(1)[OF e kv[symmetric]]
      by (auto simp: kv s read_field_ok or_default_def split: if_splits)
  qed (simp add: or_default_def)
  with t show ?case using nested_type_wf by simp
qed auto

lemma normalize_block_wf:
  assumes "normalize_block as bs = Inr b" and "\<And>n a. (n, Inr a) \<in> set as \<Longrightarrow> attribute_wf a"
    and "\<And>n b. (n, Inr b) \<in> set bs \<Longrightarrow> nested_block_wf b"
  shows "block_wf b"
proof -
  from assms(1) obtain as' bs' where "name_map as = Inr as'" "name_map bs = Inr bs'" "b = BlockSchema as' bs'"
    by (auto simp: normalize_block_def and_then_ok)
  with name_map_wf[of as as' attribute_wf] name_map_wf[of bs bs' nested_block_wf] assms(2,3)
  show ?thesis by (simp add: attributes_wf_def)
qed

lemma block_seed_wf:
  "block_seed path d = Inr (Inr b) \<Longrightarrow> block_wf b"
  "block_types_seed path d = Inr bs \<Longrightarrow> (n, Inr nb) \<in> set bs \<Longrightarrow> nested_block_wf nb"
  "nested_block_seed path d = Inr (Inr nb) \<Longrightarrow> nested_block_wf nb"
proof (induction path d and path d and path d arbitrary: b and bs n nb and nb
    rule: block_seed_block_types_seed_nested_block_seed.induct)
  case (1 path entries)
  let ?step = "\<lambda>(key, value) (attributes, blocks).
            if key = ''attributes'' then
              read_field attributes key (attributes_seed path value) (\<lambda>x. (x, blocks))
            else if key = ''block_types'' then
              read_field blocks key (block_types_seed path value) (\<lambda>x. (attributes, x))
            else Inr (attributes, blocks)"
  let ?ok = "\<lambda>s. (\<forall>n a. (n, Inr a) \<in> set (or_default (fst s) []) \<longrightarrow> attribute_wf a) \<and>
      (\<forall>n b. (n, Inr b) \<in> set (or_default (snd s) []) \<longrightarrow> nested_block_wf b)"
  from 1(2) obtain as bs where s: "try_fold ?step entries (None, None) = Inr (as, bs)"
    and b: "normalize_block (or_default as []) (or_default bs []) = Inr b"
    by (auto simp: and_then_ok)
  from s have "?ok (as, bs)"
  proof (rule try_fold_invariant)
    fix e s s' assume e: "e \<in> set entries" and ok: "?ok s" and step: "?step e s = Inr s'"
    obtain k v where kv: "e = (k, v)" by (cases e)
    obtain as' bs' where s: "s = (as', bs')" by (cases s)
    show "?ok s'"
      using ok step 1(1)[OF e kv[symmetric]] attributes_seed_wf(1)[of path v]
      by (auto simp: kv s read_field_ok or_default_def split: if_splits)
  qed (simp add: or_default_def)
  with b show ?case by (intro normalize_block_wf[OF b]) auto
next
  case (3 path entries)
  from try_map_named[of "\<lambda>n d. nested_block_seed (path @ [PathField n]) d" entries bs] 3(2,3)
  obtain d where "(n, d) \<in> set entries" "nested_block_seed (path @ [PathField n]) d = Inr (Inr nb)"
    by auto
  with 3(1) show ?case by blast
next
  case (5 path entries)
  let ?step = "\<lambda>(key, value) s.
            if key = ''nesting_mode'' then
              read_field (slot_mode s) key (text_value value) (\<lambda>x. s\<lparr>slot_mode := x\<rparr>)
            else if key = ''block'' then
              read_field (slot_block s) key (block_seed path value) (\<lambda>x. s\<lparr>slot_block := x\<rparr>)
            else read_items key value s"
  let ?ok = "\<lambda>s. \<forall>b. slot_block s = Some (Inr b) \<longrightarrow> block_wf b"
  from 5(2) obtain s b mode where s: "try_fold ?step entries no_nested_block_slots = Inr s"
    and b: "slot_block s = Some (Inr b)" and nb: "nb_block nb = b"
    by (auto simp: and_then_ok required_field_def split: option.splits)
  from s have "?ok s"
  proof (rule try_fold_invariant)
    fix e s s' assume e: "e \<in> set entries" and ok: "?ok s" and step: "?step e s = Inr s'"
    obtain k v where kv: "e = (k, v)" by (cases e)
    show "?ok s'"
      using ok step 5(1)[OF e kv[symmetric]]
      by (auto simp: kv read_field_ok read_items_def split: if_splits)
  qed (simp add: no_nested_block_slots_def)
  with b nb show ?case by (cases nb) auto
qed auto

lemma schema_seed_wf: "schema_seed path d = Inr (Inr b) \<Longrightarrow> block_wf b"
proof -
  assume seed: "schema_seed path d = Inr (Inr b)"
  then obtain entries where d: "d = DObject entries" by (cases d) (auto simp: schema_seed_def)
  let ?step = "\<lambda>(key, value) block.
      if key = ''block'' then read_field block key (block_seed path value) (\<lambda>x. x) else Inr block"
  from seed d have s: "try_fold ?step entries None = Inr (Some (Inr b))"
    by (auto simp: schema_seed_def and_then_ok required_field_def split: option.splits)
  then have "\<forall>b'. (Some (Inr b) :: block_schema normalized option) = Some (Inr b') \<longrightarrow> block_wf b'"
  proof (rule try_fold_invariant[where
        I = "\<lambda>x :: block_schema normalized option. \<forall>b'. x = Some (Inr b') \<longrightarrow> block_wf b'"])
    fix e s s' assume ok: "\<forall>b'. s = Some (Inr b') \<longrightarrow> block_wf b'" and step: "?step e s = Inr s'"
    obtain k v where e: "e = (k, v)" by (cases e)
    from ok step show "\<forall>b'. s' = Some (Inr b') \<longrightarrow> block_wf b'"
      using block_seed_wf(1)[of path v] by (auto simp: e read_field_ok split: if_splits)
  qed simp
  then show ?thesis by simp
qed

section \<open>Which provider is used, and that reading always ends\<close>

lemma strip_suffix_None: "strip_suffix p s = None \<longleftrightarrow> (\<nexists>t. s = t @ p)"
  by (metis strip_suffix_Some not_None_eq)

lemma ends_with_iff: "ends_with p s \<longleftrightarrow> (\<exists>t. s = t @ p)"
  by (auto simp: ends_with_def strip_suffix_None)

lemma request_matches_iff:
  "request_matches request address \<longleftrightarrow>
     address = req_source request \<or> (\<exists>host. address = host @ ''/'' @ req_source request)"
  by (auto simp: request_matches_def ends_with_iff strip_suffix_Some split: option.splits)
    (auto simp: strip_suffix_None)

text \<open>
  The providers kept are those whose address matches, in address order, each decoded from the
  last entry with its address.
\<close>

lemma providers_fold:
  "try_fold (\<lambda>(address, d) providers.
       and_then (provider_seed d) (\<lambda>p.
         Inr (if P address then bm_insert address p providers else providers))) es m = Inr ps \<Longrightarrow>
   (\<forall>(a, d) \<in> set es. is_ok (provider_seed d)) \<and>
   ps = collect_by bm_insert m
     (map (\<lambda>(a, d). (a, projr (provider_seed d))) (filter (\<lambda>(a, d). P a) es))"
proof (induction es arbitrary: m)
  case (Cons e es)
  obtain a d where e: "e = (a, d)" by (cases e)
  from Cons.prems obtain p where "provider_seed d = Inr p" by (auto simp: e and_then_ok)
  with Cons.prems Cons.IH show ?case by (auto simp: e)
qed simp

lemma map_of_map_entries: "map_of (map (\<lambda>(a, d). (a, f d)) xs) k = map_option f (map_of xs k)"
  by (induction xs) auto

lemma providers_seed_selected:
  assumes "providers_seed request (DObject es) = Inr ps"
  shows "bm_wf ps"
    and "map_of ps address = (if request_matches request address
      then map_option (\<lambda>d. projr (provider_seed d)) (map_of (rev es) address) else None)"
proof -
  let ?kept = "map (\<lambda>(a, d). (a, projr (provider_seed d))) (filter (\<lambda>(a, d). request_matches request a) es)"
  have ps: "ps = bm_collect ?kept"
    using providers_fold[of "request_matches request" es "[]" ps] assms
    by (auto simp: providers_seed_def)
  then show "bm_wf ps" by (simp add: btree_map.collect_wf)
  have filt: "map_of (filter (\<lambda>(a, d). P a) xs) k = (if P k then map_of xs k else None)" for P xs k
    by (induction xs) auto
  have "map_of ps address = map_of (rev ?kept) address"
    unfolding ps by (simp add: btree_map.collect_get)
  also have "rev ?kept = map (\<lambda>(a, d). (a, projr (provider_seed d)))
      (filter (\<lambda>(a, d). request_matches request a) (rev es))"
    by (simp add: rev_map rev_filter)
  also have "map_of \<dots> address = (if request_matches request address
      then map_option (\<lambda>d. projr (provider_seed d)) (map_of (rev es) address) else None)"
    by (simp add: map_of_map_entries filt)
  finally show "map_of ps address = (if request_matches request address
      then map_option (\<lambda>d. projr (provider_seed d)) (map_of (rev es) address) else None)" .
qed

lemma raw_present:
  assumes "document_seed request False d = Inr document"
  shows "doc_raw document \<noteq> None"
proof -
  from assms obtain s v ps where "slot_format_version s = Some v" "slot_providers s = Some ps"
    "document = document_of_slots s"
    by (auto simp: document_seed_def and_then_ok required_field_def split: doc.splits option.splits)
  then show ?thesis by (simp add: document_of_slots_def)
qed

lemma normalize_schema_total: "normalize_schema parse bytes request \<noteq> None"
  using raw_present[of request]
  by (auto simp: normalize_schema_def decode_def split: option.splits sum.splits)

lemma read_schema_file_total: "read_schema_file parse derived bytes request \<noteq> None"
  using normalize_schema_total[of parse bytes request]
  by (auto simp: read_schema_file_def Let_def split: option.splits sum.splits)

section \<open>A normalized schema is well formed\<close>

definition results_wf :: "(string \<times> resource_schema normalized) list \<Rightarrow> bool" where
  "results_wf rs \<longleftrightarrow> bm_wf rs \<and> (\<forall>n b. (n, Inr b) \<in> set rs \<longrightarrow> block_wf b)"

definition provider_ok :: "normalized_provider \<Rightarrow> bool" where
  "provider_ok p \<longleftrightarrow>
     (\<forall>b. np_config p = Inr b \<longrightarrow> block_wf b) \<and> results_wf (np_resources p) \<and> results_wf (np_data_sources p)"

lemma collect_bm_subset: "set (collect_by bm_insert m kvs) \<subseteq> set m \<union> set kvs"
proof (induction kvs arbitrary: m)
  case (Cons kv kvs)
  have "set (bm_insert k v m) \<subseteq> insert (k, v) (set m)" for k :: 'a and v :: 'b
    by (induction k v m rule: bm_insert.induct) auto
  with Cons show ?case by (cases kv) fastforce
qed simp

lemma results_wf_empty [simp]: "results_wf []"
  by (simp add: results_wf_def)

lemma resources_seed_wf: "resources_seed prefix d = Inr rs \<Longrightarrow> results_wf rs"
proof -
  assume seed: "resources_seed prefix d = Inr rs"
  then obtain entries where d: "d = DObject entries" by (cases d) (auto simp: resources_seed_def)
  from seed obtain kvs
    where kvs: "try_map (\<lambda>(name, d). and_then (schema_seed [PathRoot prefix, PathField name] d) (\<lambda>x. Inr (name, x)))
        entries = Inr kvs"
      and rs: "rs = bm_collect kvs"
    by (auto simp: resources_seed_def d try_fold_insert[of "\<lambda>n. schema_seed [PathRoot prefix, PathField n]"]
        and_then_ok)
  have "block_wf b" if "(n, Inr b) \<in> set kvs" for n b
    using try_map_named[OF kvs] that schema_seed_wf by blast
  then show ?thesis
    using collect_bm_subset[of "[]" kvs] by (auto simp: results_wf_def rs btree_map.collect_wf)
qed

lemma provider_seed_wf: "provider_seed d = Inr p \<Longrightarrow> provider_ok p"
proof -
  assume seed: "provider_seed d = Inr p"
  then obtain entries where d: "d = DObject entries" by (cases d) (auto simp: provider_seed_def)
  let ?step = "\<lambda>(key, value) (config, rs, ds).
      if key = ''provider'' then
        read_field config key (schema_seed [PathRoot ''provider''] value) (\<lambda>x. (x, rs, ds))
      else if key = ''resource_schemas'' then
        read_field rs key (resources_seed ''resource'' value) (\<lambda>x. (config, x, ds))
      else if key = ''data_source_schemas'' then
        read_field ds key (resources_seed ''data'' value) (\<lambda>x. (config, rs, x))
      else Inr (config, rs, ds)"
  let ?ok = "\<lambda>(config, rs, ds). (\<forall>b. config = Some (Inr b) \<longrightarrow> block_wf b) \<and>
      results_wf (or_default rs []) \<and> results_wf (or_default ds [])"
  from seed obtain config rs ds
    where s: "try_fold ?step entries (None, None, None) = Inr (Some config, rs, ds)"
      and p: "p = \<lparr>np_config = config, np_resources = or_default rs [], np_data_sources = or_default ds []\<rparr>"
    by (auto simp: provider_seed_def d and_then_ok required_field_def split: option.splits)
  from s have "?ok (Some config, rs, ds)"
  proof (rule try_fold_invariant)
    fix e s s' assume ok: "?ok s" and step: "?step e s = Inr s'"
    obtain k v where e: "e = (k, v)" by (cases e)
    obtain c rs' ds' where s: "s = (c, rs', ds')" by (cases s)
    show "?ok s'"
      using ok step schema_seed_wf[of "[PathRoot ''provider'']" v] resources_seed_wf[of _ v]
      by (auto simp: e s read_field_ok or_default_def split: if_splits)
  qed (simp add: or_default_def)
  then show ?thesis by (simp add: p provider_ok_def)
qed

lemma providers_seed_wf:
  assumes "providers_seed request d = Inr ps" and "(a, p) \<in> set ps"
  shows "provider_ok p"
proof -
  from assms(1) obtain es where d: "d = DObject es" by (cases d) (auto simp: providers_seed_def)
  from providers_fold[of "request_matches request" es "[]" ps] assms(1)
  have ok: "\<forall>(a, d) \<in> set es. is_ok (provider_seed d)"
    and ps: "ps = bm_collect (map (\<lambda>(a, d). (a, projr (provider_seed d)))
      (filter (\<lambda>(a, d). request_matches request a) es))"
    by (auto simp: providers_seed_def d)
  from ps assms(2) collect_bm_subset[of "[]"] obtain d' where "(a, d') \<in> set es" "p = projr (provider_seed d')"
    by fastforce
  with ok provider_seed_wf show ?thesis by (fastforce simp: is_ok_iff)
qed

lemma first_error_wf: "first_error rs = Inr ys \<Longrightarrow> results_wf rs \<Longrightarrow> resources_wf ys"
  unfolding first_error_def
  using try_map_named[of "\<lambda>_ r. r" rs ys] named_wf[of "\<lambda>_ r. r" rs ys block_wf]
  by (auto simp: results_wf_def resources_wf_def)

lemma normalized_wf:
  assumes "normalized request raw = Inr s" and "\<And>a p. (a, p) \<in> set (raw_providers raw) \<Longrightarrow> provider_ok p"
  shows "schema_wf s \<and> ps_source s = req_source request \<and> ps_version s = req_version request"
  using assms
  by (auto simp: normalized_def and_then_ok schema_wf_def provider_ok_def first_error_wf
      split: if_splits list.splits) (blast intro: first_error_wf)+

lemma document_providers:
  assumes "document_seed request accept d = Inr document" and "doc_raw document = Some raw"
    and "(a, p) \<in> set (raw_providers raw)"
  shows "provider_ok p"
proof -
  from assms(1) obtain entries s where d: "d = DObject entries"
    and s: "try_fold (document_field request accept) entries no_document_slots = Inr s"
    and doc: "document = document_of_slots s"
    by (cases d) (auto simp: document_seed_def and_then_ok)
  from s have "\<forall>ps. slot_providers s = Some ps \<longrightarrow> (\<forall>(a, p) \<in> set ps. provider_ok p)"
  proof (rule try_fold_invariant)
    fix e t t' assume ok: "\<forall>ps. slot_providers t = Some ps \<longrightarrow> (\<forall>(a, p) \<in> set ps. provider_ok p)"
      and step: "document_field request accept e t = Inr t'"
    obtain k v where e: "e = (k, v)" by (cases e)
    show "\<forall>ps. slot_providers t' = Some ps \<longrightarrow> (\<forall>(a, p) \<in> set ps. provider_ok p)"
      using ok step providers_seed_wf[of request v]
      by (auto simp: e document_field_def read_field_ok split: if_splits)
  qed (simp add: no_document_slots_def)
  moreover from assms(2) doc have "slot_providers s = Some (raw_providers raw)"
    by (auto simp: document_of_slots_def split: option.splits)
  ultimately show ?thesis using assms(3) by blast
qed

lemma normalize_schema_wf:
  assumes "normalize_schema parse bytes request = Some (Inr s)"
  shows "schema_wf s \<and> ps_source s = req_source request \<and> ps_version s = req_version request"
proof -
  from assms obtain d document raw where "document_seed request False d = Inr document"
    and "doc_raw document = Some raw" and norm: "normalized request raw = Inr s"
    by (auto simp: normalize_schema_def decode_def split: option.splits sum.splits)
  from document_providers[OF this(1,2)] show ?thesis
    by (intro normalized_wf[OF norm])
qed

section \<open>Properties\<close>

definition sample_schema :: provider_schema where
  "sample_schema =
     \<lparr>ps_source = ''acme/demo'', ps_version = ''1.0'',
      provider_config = BlockSchema [(''region'', AttributeSchema StringType True False False False None)] [],
      ps_resources =
        [(''demo_server'',
          BlockSchema
            [(''id'', AttributeSchema StringType False False True False None),
             (''tags'', AttributeSchema (MapType StringType) False True False False (Some ''labels''))]
            [(''disk'', NestedBlockSchema ListNesting (Some 1) None
                (BlockSchema [(''size_gb'', AttributeSchema NumberType True False False False None)] []))])],
      ps_data_sources = []\<rparr>"

definition sample_request :: provider_request where
  "sample_request = \<lparr>req_source = ''acme/demo'', req_version = ''1.0''\<rparr>"

lemma sample_schema_wf: "schema_wf sample_schema"
  by (simp add: schema_wf_def sample_schema_def attributes_wf_def resources_wf_def)

text \<open>C35. Reading back what a normalized schema is stored as gives that schema, marked as
  normalized, whatever request the file is read for.\<close>

theorem stored_schema_reads_back:
  assumes "schema_wf s" and "parse bytes = Some (encode_schema s)"
  shows "read_schema_file parse derived bytes request = Some (Inr (NormalizedFile s))"
  using document_encoded[OF assms(1), of request] assms(2)
  by (simp add: read_schema_file_def decode_def Let_def)

lemma stored_schema_reads_back_witness:
  "read_schema_file (\<lambda>_. Some (encode_schema sample_schema)) (\<lambda>_. None) [] sample_request =
     Some (Inr (NormalizedFile sample_schema))"
  by (rule stored_schema_reads_back[OF sample_schema_wf refl])

text \<open>C40. A schema normalized from a raw document is well formed, each of its attribute, block and
  type tables listing its names in order and once, and carries the requested source and version.\<close>

theorem normalized_schema_wf:
  assumes "normalize_schema parse bytes request = Some (Inr s)"
  shows "schema_wf s \<and> ps_source s = req_source request \<and> ps_version s = req_version request"
  using assms by (rule normalize_schema_wf)

definition sample_raw :: doc where
  "sample_raw =
     DObject
       [(''format_version'', DString ''1.0''),
        (''provider_schemas'', DObject
          [(''registry.opentofu.org/acme/demo'', DObject
             [(''provider'', DObject [(''block'', DObject [])]),
              (''resource_schemas'', DObject
                [(''demo_server'', DObject
                  [(''block'', DObject
                    [(''attributes'', DObject
                      [(''name'', DObject [(''type'', DString ''string''), (''required'', DBool True)])])])])])])])]"

lemma normalized_schema_wf_witness:
  "schema_wf (projr (the (normalize_schema (\<lambda>_. Some sample_raw) [] sample_request)))"
proof -
  have "(case normalize_schema (\<lambda>_. Some sample_raw) [] sample_request of Some (Inr _) \<Rightarrow> True | _ \<Rightarrow> False)"
    by code_simp
  then obtain s where "normalize_schema (\<lambda>_. Some sample_raw) [] sample_request = Some (Inr s)"
    by (auto split: option.splits sum.splits)
  with normalized_schema_wf[OF this] show ?thesis by simp
qed

text \<open>The \<open>expect\<close> on the raw fields never panics: normalizing a document and reading a
  schema file return a schema or an error for every input, the inputs the parser rejects
  included.\<close>

lemma schema_reading_total:
  "normalize_schema parse bytes request \<noteq> None \<and> read_schema_file parse derived bytes request \<noteq> None"
  using normalize_schema_total read_schema_file_total by blast

text \<open>Of the providers of a document only those are kept whose address is the requested
  source, alone or behind a registry host, each from the last entry of its address.\<close>

lemma providers_selected:
  assumes "providers_seed request (DObject es) = Inr ps"
  shows "map_of ps address =
    (if address = req_source request \<or> (\<exists>host. address = host @ ''/'' @ req_source request)
     then map_option (\<lambda>d. projr (provider_seed d)) (map_of (rev es) address) else None)"
  using providers_seed_selected(2)[OF assms, of address] by (simp add: request_matches_iff)

lemma providers_selected_witness:
  "map_of (projr (providers_seed sample_request (DObject [(''other/demo'', DObject [(''provider'', DObject [(''block'', DObject [])])])]))) ''other/demo'' = None"
proof -
  have "providers_seed sample_request (DObject [(''other/demo'', DObject [(''provider'', DObject [(''block'', DObject [])])])]) =
      Inr (projr (providers_seed sample_request (DObject [(''other/demo'', DObject [(''provider'', DObject [(''block'', DObject [])])])])))"
    by code_simp
  note selected = providers_selected[OF this, of "''other/demo''"]
  have "''other/demo'' \<noteq> host @ ''/'' @ req_source sample_request" for host
    using arg_cong[of "''other/demo''" "host @ ''/'' @ req_source sample_request" length]
    by (cases host) (auto simp: sample_request_def)
  moreover have "''other/demo'' \<noteq> req_source sample_request" by (simp add: sample_request_def)
  ultimately show ?thesis using selected by simp
qed

end
