(* ===== verification/Emit_Files.thy ===== *)
theory Emit_Files
  imports Containers
begin

text \<open>
  Writing a generated package: \<open>crates/binding-model/src/emit.rs\<close>. An \<open>Output\<close> buffers
  what is rendered and hands it to its file in chunks; \<open>write_files\<close> renders the files on
  several threads that claim jobs through an atomic counter, modelled as a step relation.
\<close>

section \<open>Output\<close>

definition FLUSH_THRESHOLD :: nat where
  "FLUSH_THRESHOLD = 256 * 1024"

text \<open>
  The sink is a state and \<open>wr\<close>, what \<open>write_all\<close> does to it: the error it returns, if any,
  and the state it leaves. An output in memory has no sink.
\<close>

record ('s, 'e) text_output =
  buffer :: string
  sink :: "'s option"
  error :: "'e option"

definition in_memory :: "('s, 'e) text_output" where
  "in_memory = \<lparr>buffer = [], sink = None, error = None\<rparr>"

definition streaming :: "'s \<Rightarrow> ('s, 'e) text_output" where
  "streaming s = \<lparr>buffer = [], sink = Some s, error = None\<rparr>"

definition flush_buffer ::
  "(string \<Rightarrow> 's \<Rightarrow> 'e option \<times> 's) \<Rightarrow> ('s, 'e) text_output \<Rightarrow> ('s, 'e) text_output" where
  "flush_buffer wr out =
     (case sink out of
        None \<Rightarrow> out
      | Some s \<Rightarrow>
          (case error out of
             Some e \<Rightarrow> out\<lparr>buffer := []\<rparr>
           | None \<Rightarrow>
               let (e, s) = wr (buffer out) s
               in out\<lparr>buffer := [], sink := Some s, error := e\<rparr>))"

definition push_str ::
  "(string \<Rightarrow> 's \<Rightarrow> 'e option \<times> 's) \<Rightarrow> string \<Rightarrow> ('s, 'e) text_output \<Rightarrow> ('s, 'e) text_output" where
  "push_str wr str out =
     (let out = out\<lparr>buffer := buffer out @ str\<rparr>
      in if FLUSH_THRESHOLD \<le> length (buffer out) \<and> sink out \<noteq> None then flush_buffer wr out else out)"

text \<open>A character is the bytes of its encoding.\<close>

definition push_character :: "string \<Rightarrow> ('s, 'e) text_output \<Rightarrow> ('s, 'e) text_output" where
  "push_character encoded out = out\<lparr>buffer := buffer out @ encoded\<rparr>"

text \<open>The result of \<open>finish\<close>, and the sink it leaves.\<close>

definition finish ::
  "(string \<Rightarrow> 's \<Rightarrow> 'e option \<times> 's) \<Rightarrow> ('s, 'e) text_output \<Rightarrow> ('e, unit) result \<times> 's option" where
  "finish wr out =
     (let out = flush_buffer wr out
      in (case error out of Some e \<Rightarrow> Inl e | None \<Rightarrow> Inr (), sink out))"

definition into_string :: "('s, 'e) text_output \<Rightarrow> string" where
  "into_string out = buffer out"

text \<open>A renderer is the sequence of what it writes.\<close>

datatype write_op = WriteStr string | WriteChar string

fun written :: "write_op \<Rightarrow> string" where
  "written (WriteStr s) = s"
| "written (WriteChar s) = s"

fun write_one ::
  "(string \<Rightarrow> 's \<Rightarrow> 'e option \<times> 's) \<Rightarrow> write_op \<Rightarrow> ('s, 'e) text_output \<Rightarrow> ('s, 'e) text_output" where
  "write_one wr (WriteStr s) out = push_str wr s out"
| "write_one wr (WriteChar s) out = push_character s out"

definition render_ops ::
  "(string \<Rightarrow> 's \<Rightarrow> 'e option \<times> 's) \<Rightarrow> write_op list \<Rightarrow> ('s, 'e) text_output \<Rightarrow> ('s, 'e) text_output" where
  "render_ops wr ops out = fold (write_one wr) ops out"

definition rendered_text :: "write_op list \<Rightarrow> string" where
  "rendered_text ops = concat (map written ops)"

lemma in_memory_text:
  fixes wr :: "string \<Rightarrow> 's \<Rightarrow> 'e option \<times> 's"
  shows "into_string (render_ops wr ops in_memory) = rendered_text ops"
proof -
  have "sink out = None \<Longrightarrow>
      sink (render_ops wr ops out) = None \<and> buffer (render_ops wr ops out) = buffer out @ rendered_text ops"
    for out :: "('s, 'e) text_output"
  proof (induction ops arbitrary: out)
    case (Cons op ops)
    have "sink (write_one wr op out) = None \<and> buffer (write_one wr op out) = buffer out @ written op"
      using Cons.prems by (cases op) (simp_all add: push_str_def push_character_def)
    with Cons.IH show ?case by (simp add: render_ops_def rendered_text_def)
  qed (simp add: render_ops_def rendered_text_def)
  from this[of in_memory] show ?thesis by (simp add: into_string_def in_memory_def)
qed

text \<open>
  A file takes some chunks and then may fail: \<open>file_write ok\<close> appends to the file while the
  predicate \<open>ok\<close> accepts its new contents, and fails, leaving the file as it is, otherwise.
\<close>

definition file_write :: "(string \<Rightarrow> 'e option) \<Rightarrow> string \<Rightarrow> string \<Rightarrow> 'e option \<times> string" where
  "file_write fault chunk contents =
     (case fault (contents @ chunk) of None \<Rightarrow> (None, contents @ chunk) | Some e \<Rightarrow> (Some e, contents))"

text \<open>The file and the buffer hold what has been written, or the file a prefix of it and an error is kept.\<close>

definition streamed :: "string \<Rightarrow> (string, 'e) text_output \<Rightarrow> bool" where
  "streamed so_far out \<longleftrightarrow>
     (\<exists>contents. sink out = Some contents \<and>
        (case error out of
           None \<Rightarrow> contents @ buffer out = so_far
         | Some e \<Rightarrow> \<exists>rest. contents @ rest = so_far))"

lemma streamed_flush: "streamed so_far out \<Longrightarrow> streamed so_far (flush_buffer (file_write fault) out)"
  by (auto simp: streamed_def flush_buffer_def file_write_def Let_def split: option.splits)

lemma streamed_append: "streamed so_far out \<Longrightarrow> streamed (so_far @ s) (out\<lparr>buffer := buffer out @ s\<rparr>)"
  by (auto simp: streamed_def split: option.splits)

lemma streamed_one: "streamed so_far out \<Longrightarrow> streamed (so_far @ written op) (write_one (file_write fault) op out)"
  by (cases op) (auto simp: push_str_def push_character_def Let_def intro!: streamed_flush streamed_append)

lemma streamed_ops:
  "streamed so_far out \<Longrightarrow> streamed (so_far @ rendered_text ops) (render_ops (file_write fault) ops out)"
proof (induction ops arbitrary: so_far out)
  case (Cons op ops)
  from Cons.IH[OF streamed_one[OF Cons.prems, of op]] show ?case
    by (simp add: render_ops_def rendered_text_def)
qed (simp add: render_ops_def rendered_text_def)

text \<open>
  A file that took every chunk holds exactly the rendered text; otherwise the error is
  reported and the file holds a prefix of it.
\<close>

lemma finish_streaming:
  assumes "finish (file_write fault) (render_ops (file_write fault) ops (streaming [])) = (r, s)"
  shows "case r of Inr _ \<Rightarrow> s = Some (rendered_text ops)
    | Inl e \<Rightarrow> \<exists>contents rest. s = Some contents \<and> contents @ rest = rendered_text ops"
proof -
  let ?out = "flush_buffer (file_write fault) (render_ops (file_write fault) ops (streaming []))"
  have "streamed [] (streaming [])" by (simp add: streamed_def streaming_def)
  from streamed_flush[OF streamed_ops[OF this, of ops fault]]
  have ok: "streamed (rendered_text ops) ?out" by simp
  have empty: "sink out \<noteq> None \<Longrightarrow> buffer (flush_buffer wr out) = []" for wr and out :: "(string, 'e) text_output"
    by (auto simp: flush_buffer_def Let_def case_prod_beta split: option.splits)
  have "sink (render_ops (file_write fault) ops (streaming [])) \<noteq> None"
    using streamed_ops[of "[]" "streaming []" ops fault] by (auto simp: streamed_def streaming_def)
  with empty[of "render_ops (file_write fault) ops (streaming [])" "file_write fault"]
  have "buffer ?out = []" by blast
  with ok assms show ?thesis
    by (auto simp: finish_def Let_def streamed_def split: option.splits)
qed

text \<open>How much an \<open>Output\<close> holds: a piece of text that fills it is handed on, a character is not.\<close>

definition is_char_op :: "write_op \<Rightarrow> bool" where
  "is_char_op op = (case op of WriteStr _ \<Rightarrow> False | WriteChar _ \<Rightarrow> True)"

lemma sink_kept: "sink (render_ops wr ops out) = None \<longleftrightarrow> sink out = None"
proof (induction ops arbitrary: out)
  case (Cons op ops)
  have "sink (write_one wr op out) = None \<longleftrightarrow> sink out = None"
    by (cases op) (auto simp: push_str_def push_character_def flush_buffer_def Let_def case_prod_beta split: option.splits)
  with Cons.IH show ?case by (simp add: render_ops_def)
qed (simp add: render_ops_def)

lemma push_str_bounded: "sink out \<noteq> None \<Longrightarrow> length (buffer (push_str wr s out)) < FLUSH_THRESHOLD"
  by (auto simp: push_str_def flush_buffer_def Let_def case_prod_beta FLUSH_THRESHOLD_def split: option.splits)

text \<open>While a file is rendered the buffer of its output holds less than the flush threshold, plus
  the single characters pushed since the last piece of text: however large a file is, no more of
  it is held in memory.\<close>

lemma output_buffer_bounded:
  "length (buffer (render_ops wr ops (streaming s))) <
     FLUSH_THRESHOLD + length (rendered_text (takeWhile is_char_op (rev ops)))"
proof (induction ops rule: rev_induct)
  case Nil
  then show ?case by (simp add: render_ops_def streaming_def FLUSH_THRESHOLD_def)
next
  case (snoc op ops)
  let ?out = "render_ops wr ops (streaming s)"
  have "sink ?out \<noteq> None" by (simp add: sink_kept) (simp add: streaming_def)
  with snoc.IH push_str_bounded[of ?out wr] show ?case
    by (cases op) (simp_all add: render_ops_def push_character_def is_char_op_def rendered_text_def)
qed

section \<open>Files\<close>

record 'r file_job =
  job_path :: string
  job_weight :: nat
  job_render :: 'r

text \<open>\<open>sort_by_key\<close> on \<open>Reverse(weight)\<close> is stable.\<close>

definition largest_first :: "'r file_job list \<Rightarrow> 'r file_job list" where
  "largest_first jobs = rev (sort_key job_weight (rev jobs))"

text \<open>
  A worker is about to read \<open>failed\<close>, about to claim a job, rendering one, about to raise
  \<open>failed\<close> with the error of its job, or has returned. \<open>next\<close> is the atomic counter. What
  rendering job \<open>i\<close> into its file returns is \<open>outcome i\<close>.
\<close>

datatype 'e worker = Checking | Claiming | Rendering nat | Failing 'e | Returned "('e, unit) result"

record 'e pool =
  next_job :: nat
  failed :: bool
  workers :: "'e worker list"
  finished_jobs :: "nat list"

text \<open>
  One atomic operation of worker \<open>w\<close>. The load of \<open>failed\<close> is relaxed: a worker may go on
  after another one has failed.
\<close>

inductive pool_step :: "nat \<Rightarrow> (nat \<Rightarrow> ('e, unit) result) \<Rightarrow> 'e pool \<Rightarrow> 'e pool \<Rightarrow> bool"
  for count :: nat and outcome :: "nat \<Rightarrow> ('e, unit) result" where
  go_on: "w < length (workers p) \<Longrightarrow> workers p ! w = Checking \<Longrightarrow>
    pool_step count outcome p (p\<lparr>workers := (workers p)[w := Claiming]\<rparr>)"
| stop: "w < length (workers p) \<Longrightarrow> workers p ! w = Checking \<Longrightarrow> failed p \<Longrightarrow>
    pool_step count outcome p (p\<lparr>workers := (workers p)[w := Returned (Inr ())]\<rparr>)"
| claim: "w < length (workers p) \<Longrightarrow> workers p ! w = Claiming \<Longrightarrow> next_job p < count \<Longrightarrow>
    pool_step count outcome p
      (p\<lparr>next_job := Suc (next_job p), workers := (workers p)[w := Rendering (next_job p)]\<rparr>)"
| none_left: "w < length (workers p) \<Longrightarrow> workers p ! w = Claiming \<Longrightarrow> \<not> next_job p < count \<Longrightarrow>
    pool_step count outcome p
      (p\<lparr>next_job := Suc (next_job p), workers := (workers p)[w := Returned (Inr ())]\<rparr>)"
| rendered: "w < length (workers p) \<Longrightarrow> workers p ! w = Rendering i \<Longrightarrow> outcome i = Inr () \<Longrightarrow>
    pool_step count outcome p
      (p\<lparr>workers := (workers p)[w := Checking], finished_jobs := i # finished_jobs p\<rparr>)"
| render_error: "w < length (workers p) \<Longrightarrow> workers p ! w = Rendering i \<Longrightarrow> outcome i = Inl e \<Longrightarrow>
    pool_step count outcome p (p\<lparr>workers := (workers p)[w := Failing e]\<rparr>)"
| raise: "w < length (workers p) \<Longrightarrow> workers p ! w = Failing e \<Longrightarrow>
    pool_step count outcome p (p\<lparr>failed := True, workers := (workers p)[w := Returned (Inl e)]\<rparr>)"

definition pool_start :: "nat \<Rightarrow> 'e pool" where
  "pool_start n = \<lparr>next_job = 0, failed = False, workers = replicate n Checking, finished_jobs = []\<rparr>"

inductive pool_reachable :: "nat \<Rightarrow> nat \<Rightarrow> (nat \<Rightarrow> ('e, unit) result) \<Rightarrow> 'e pool \<Rightarrow> bool"
  for n :: nat and count :: nat and outcome :: "nat \<Rightarrow> ('e, unit) result" where
  start: "pool_reachable n count outcome (pool_start n)"
| step: "pool_reachable n count outcome p \<Longrightarrow> pool_step count outcome p q \<Longrightarrow>
    pool_reachable n count outcome q"

definition all_returned :: "'e pool \<Rightarrow> bool" where
  "all_returned p \<longleftrightarrow> list_all (\<lambda>w. case w of Returned _ \<Rightarrow> True | _ \<Rightarrow> False) (workers p)"

fun worker_result :: "'e worker \<Rightarrow> ('e, unit) result" where
  "worker_result (Returned r) = r"
| "worker_result _ = Inr ()"

text \<open>\<open>Result::and\<close>, and the results of the workers joined in order.\<close>

definition result_and :: "('e, unit) result \<Rightarrow> ('e, unit) result \<Rightarrow> ('e, unit) result" where
  "result_and a b = (case a of Inl e \<Rightarrow> Inl e | Inr _ \<Rightarrow> b)"

definition pool_result :: "'e pool \<Rightarrow> ('e, unit) result" where
  "pool_result p = foldl result_and (Inr ()) (map worker_result (workers p))"

section \<open>What a run does\<close>

abbreviation at_worker :: "'e pool \<Rightarrow> nat \<Rightarrow> 'e worker \<Rightarrow> bool" where
  "at_worker p w x \<equiv> w < length (workers p) \<and> workers p ! w = x"

text \<open>A job being rendered is claimed, not finished, and rendered by one worker only.\<close>

definition claims_ok :: "nat \<Rightarrow> 'e pool \<Rightarrow> bool" where
  "claims_ok count p \<longleftrightarrow>
     distinct (finished_jobs p) \<and>
     (\<forall>i \<in> set (finished_jobs p). i < next_job p \<and> i < count) \<and>
     (\<forall>w i. at_worker p w (Rendering i) \<longrightarrow> i < next_job p \<and> i < count \<and> i \<notin> set (finished_jobs p)) \<and>
     (\<forall>v w i. at_worker p v (Rendering i) \<longrightarrow> at_worker p w (Rendering i) \<longrightarrow> v = w)"

text \<open>No claimed job is lost: it is finished, or some worker renders it or has its error.\<close>

definition holds :: "(nat \<Rightarrow> ('e, unit) result) \<Rightarrow> nat \<Rightarrow> 'e worker \<Rightarrow> bool" where
  "holds outcome i x \<longleftrightarrow> x = Rendering i \<or> (\<exists>e. outcome i = Inl e \<and> (x = Failing e \<or> x = Returned (Inl e)))"

definition settled :: "(nat \<Rightarrow> ('e, unit) result) \<Rightarrow> 'e pool \<Rightarrow> nat \<Rightarrow> bool" where
  "settled outcome p i \<longleftrightarrow> i \<in> set (finished_jobs p) \<or> list_ex (holds outcome i) (workers p)"

definition nothing_lost :: "nat \<Rightarrow> (nat \<Rightarrow> ('e, unit) result) \<Rightarrow> 'e pool \<Rightarrow> bool" where
  "nothing_lost count outcome p \<longleftrightarrow> (\<forall>i. i < next_job p \<longrightarrow> i < count \<longrightarrow> settled outcome p i)"

text \<open>Errors are errors of jobs, and a worker returns without one only when there is a reason.\<close>

definition job_fails :: "nat \<Rightarrow> (nat \<Rightarrow> ('e, unit) result) \<Rightarrow> 'e \<Rightarrow> bool" where
  "job_fails count outcome e \<longleftrightarrow> (\<exists>i < count. outcome i = Inl e)"

fun reason :: "nat \<Rightarrow> (nat \<Rightarrow> ('e, unit) result) \<Rightarrow> bool \<Rightarrow> 'e worker \<Rightarrow> bool" where
  "reason count outcome over (Failing e) = job_fails count outcome e"
| "reason count outcome over (Returned (Inl e)) = job_fails count outcome e"
| "reason count outcome over (Returned (Inr _)) = over"
| "reason count outcome over _ = True"

definition stopped :: "nat \<Rightarrow> 'e pool \<Rightarrow> bool" where
  "stopped count p \<longleftrightarrow> failed p \<or> count \<le> next_job p"

definition returned_error :: "'e worker \<Rightarrow> bool" where
  "returned_error x \<longleftrightarrow> (\<exists>e. x = Returned (Inl e))"

definition returns_ok :: "nat \<Rightarrow> (nat \<Rightarrow> ('e, unit) result) \<Rightarrow> 'e pool \<Rightarrow> bool" where
  "returns_ok count outcome p \<longleftrightarrow>
     list_all (\<lambda>i. outcome i = Inr ()) (finished_jobs p) \<and>
     list_all (reason count outcome (stopped count p)) (workers p) \<and>
     (failed p \<longrightarrow> list_ex returned_error (workers p))"

lemma claims_start: "claims_ok count (pool_start n)"
  by (auto simp: claims_ok_def pool_start_def)

lemma nothing_lost_start: "nothing_lost count outcome (pool_start n)"
  by (simp add: nothing_lost_def pool_start_def)

lemma returns_start: "returns_ok count outcome (pool_start n)"
  by (auto simp: returns_ok_def pool_start_def list_all_length)

lemma claims_step: "pool_step count outcome p q \<Longrightarrow> claims_ok count p \<Longrightarrow> claims_ok count q"
proof (induction rule: pool_step.induct)
  case (claim w p)
  then show ?case
    unfolding claims_ok_def by (auto simp: nth_list_update less_Suc_eq split: if_splits)
next
  case (rendered w p i)
  then show ?case
    unfolding claims_ok_def by (auto simp: nth_list_update split: if_splits)
qed (auto simp: claims_ok_def nth_list_update less_Suc_eq split: if_splits)

lemma list_ex_update:
  assumes "w < length ws" and "list_ex P ws" and "P (ws ! w) \<Longrightarrow> P y"
  shows "list_ex P (ws[w := y])"
proof -
  from assms(2) obtain v where v: "v < length ws" "P (ws ! v)" by (auto simp: list_ex_length)
  then show ?thesis
    using assms(1,3) by (cases "v = w") (auto simp: list_ex_length)
qed

lemma list_ex_new: "w < length ws \<Longrightarrow> P y \<Longrightarrow> list_ex P (ws[w := y])"
  by (auto simp: list_ex_length)

lemma nothing_lost_step: "pool_step count outcome p q \<Longrightarrow> nothing_lost count outcome p \<Longrightarrow> nothing_lost count outcome q"
proof (induction rule: pool_step.induct)
  case (claim w p)
  have "settled outcome (p\<lparr>next_job := Suc (next_job p), workers := (workers p)[w := Rendering (next_job p)]\<rparr>) i"
    if "i < Suc (next_job p)" "i < count" for i
  proof (cases "i = next_job p")
    case True
    with claim show ?thesis by (simp add: settled_def list_ex_new holds_def)
  next
    case False
    with claim that have "settled outcome p i" by (simp add: nothing_lost_def)
    with claim show ?thesis by (auto simp: settled_def holds_def intro!: list_ex_update)
  qed
  then show ?case by (simp add: nothing_lost_def)
next
  case (rendered w p i)
  have "settled outcome (p\<lparr>workers := (workers p)[w := Checking], finished_jobs := i # finished_jobs p\<rparr>) j"
    if "settled outcome p j" for j
    using that rendered by (cases "j = i") (auto simp: settled_def holds_def intro!: list_ex_update)
  with rendered show ?case by (simp add: nothing_lost_def)
qed (auto simp: nothing_lost_def settled_def holds_def less_Suc_eq intro!: list_ex_update)

lemma list_all_update: "list_all P ws \<Longrightarrow> P y \<Longrightarrow> list_all P (ws[w := y])"
  by (cases "w < length ws") (auto simp: list_all_length nth_list_update)

lemma reason_mono: "(over \<Longrightarrow> over') \<Longrightarrow> reason count outcome over x \<Longrightarrow> reason count outcome over' x"
  by (cases "(count, outcome, over, x)" rule: reason.cases) auto

lemma reason_at: "list_all (reason count outcome over) ws \<Longrightarrow> w < length ws \<Longrightarrow> reason count outcome over (ws ! w)"
  by (simp add: list_all_length)

lemma returns_step:
  assumes step: "pool_step count outcome p q" and claims: "claims_ok count p" and ok: "returns_ok count outcome p"
  shows "returns_ok count outcome q"
proof -
  have reasons: "list_all (reason count outcome (stopped count q)) (workers p)"
  proof -
    have "stopped count p \<Longrightarrow> stopped count q" using step by cases (auto simp: stopped_def)
    with ok show ?thesis by (auto simp: returns_ok_def list_all_iff intro: reason_mono)
  qed
  have finished: "list_all (\<lambda>i. outcome i = Inr ()) (finished_jobs p)"
    and errors: "failed p \<Longrightarrow> list_ex returned_error (workers p)"
    using ok by (simp_all add: returns_ok_def)
  show ?thesis
    using step
  proof cases
    case (render_error w i e)
    then have "job_fails count outcome e"
      using claims by (auto simp: claims_ok_def job_fails_def)
    with render_error reasons finished errors show ?thesis
      by (auto simp: returns_ok_def stopped_def returned_error_def intro!: list_all_update list_ex_update)
  next
    case (raise w e)
    then have "job_fails count outcome e" using reason_at[OF reasons, of w] by simp
    with raise reasons finished show ?thesis
      by (auto simp: returns_ok_def stopped_def returned_error_def intro!: list_all_update list_ex_new)
  qed (use reasons finished errors in
        \<open>auto simp: returns_ok_def stopped_def returned_error_def intro!: list_all_update list_ex_update\<close>)
qed

lemma pool_invariant:
  "pool_reachable n count outcome p \<Longrightarrow>
     claims_ok count p \<and> nothing_lost count outcome p \<and> returns_ok count outcome p \<and> length (workers p) = n"
proof (induction rule: pool_reachable.induct)
  case start
  show ?case
    using claims_start nothing_lost_start returns_start by (auto simp: pool_start_def)
next
  case (step p q)
  have "length (workers q) = length (workers p)"
    using step.hyps(2) by (cases rule: pool_step.cases) auto
  with step claims_step nothing_lost_step returns_step show ?case by blast
qed

section \<open>The result of a finished run\<close>

lemma result_and_simps [simp]: "result_and (Inl e) b = Inl e" "result_and (Inr u) b = b"
  by (simp_all add: result_and_def)

lemma foldl_result_and [simp]: "foldl result_and (Inl e) rs = Inl e"
  by (induction rs) simp_all

lemma joined_ok: "foldl result_and (Inr ()) rs = Inr () \<longleftrightarrow> (\<forall>r \<in> set rs. r = Inr ())"
proof (induction rs)
  case (Cons r rs)
  then show ?case by (cases r) simp_all
qed simp

lemma joined_error: "foldl result_and (Inr ()) rs = Inl e \<Longrightarrow> Inl e \<in> set rs"
proof (induction rs)
  case (Cons r rs)
  then show ?case by (cases r) simp_all
qed simp

lemma all_returnedD: "all_returned p \<Longrightarrow> x \<in> set (workers p) \<Longrightarrow> \<exists>r. x = Returned r"
  by (cases x) (fastforce simp: all_returned_def list_all_iff)+

text \<open>Every job was rendered, each by one worker, when no worker returned an error.\<close>

lemma finished_run_ok:
  assumes reach: "pool_reachable n count outcome p" and n: "0 < n"
    and over: "all_returned p" and ok: "pool_result p = Inr ()"
  shows "distinct (finished_jobs p)" and "set (finished_jobs p) = {..<count}"
    and "\<forall>i < count. outcome i = Inr ()"
proof -
  from pool_invariant[OF reach] have inv: "claims_ok count p" "nothing_lost count outcome p"
    "returns_ok count outcome p" "length (workers p) = n" by blast+
  have all: "x = Returned (Inr ())" if x: "x \<in> set (workers p)" for x
  proof -
    obtain r where r: "x = Returned r" using all_returnedD[OF over x] by blast
    have "worker_result x = Inr ()" using ok x unfolding pool_result_def joined_ok by auto
    with r show ?thesis by simp
  qed
  have none: "\<not> list_ex returned_error (workers p)"
    using all by (fastforce simp: list_ex_iff returned_error_def)
  have "at_worker p 0 (Returned (Inr ()))" using n inv(4) all[of "workers p ! 0"] by simp
  then have "stopped count p"
    using inv(3) reason_at[of count outcome "stopped count p" "workers p" 0] by (simp add: returns_ok_def)
  with inv(3) none have next_job: "count \<le> next_job p" by (auto simp: returns_ok_def stopped_def)
  have "i \<in> set (finished_jobs p)" if "i < count" for i
  proof -
    have "settled outcome p i" using inv(2) next_job that by (simp add: nothing_lost_def)
    moreover have "\<not> list_ex (holds outcome i) (workers p)"
      using all by (fastforce simp: list_ex_iff holds_def)
    ultimately show ?thesis by (simp add: settled_def)
  qed
  moreover have "\<forall>i \<in> set (finished_jobs p). i < count" "distinct (finished_jobs p)"
    using inv(1) by (auto simp: claims_ok_def)
  ultimately show "distinct (finished_jobs p)" and "set (finished_jobs p) = {..<count}" by auto
  then show "\<forall>i < count. outcome i = Inr ()" using inv(3) by (auto simp: returns_ok_def list_all_iff)
qed

lemma finished_run_error:
  assumes reach: "pool_reachable n count outcome p" and err: "pool_result p = Inl e"
  shows "\<exists>i < count. outcome i = Inl e"
proof -
  from joined_error[OF err[unfolded pool_result_def]] obtain x where x: "x \<in> set (workers p)"
    "worker_result x = Inl e" by auto
  have "x = Returned (Inl e)" using x(2) by (cases x) auto
  with x obtain w where "at_worker p w (Returned (Inl e))" by (auto simp: in_set_conv_nth)
  then show ?thesis
    using pool_invariant[OF reach] reason_at[of count outcome "stopped count p" "workers p" w]
    by (simp add: returns_ok_def job_fails_def)
qed

section \<open>Every run ends\<close>

fun worker_rank :: "'e worker \<Rightarrow> nat" where
  "worker_rank (Returned _) = 0"
| "worker_rank (Failing _) = 1"
| "worker_rank Claiming = 1"
| "worker_rank Checking = 2"
| "worker_rank (Rendering _) = 3"

definition pool_work :: "nat \<Rightarrow> 'e pool \<Rightarrow> nat" where
  "pool_work count p = 3 * (count - next_job p) + sum_list (map worker_rank (workers p))"

lemma pool_step_work: "pool_step count outcome p q \<Longrightarrow> pool_work count q < pool_work count p"
proof -
  have rank: "sum_list (map worker_rank (ws[w := y])) + worker_rank (ws ! w) =
      sum_list (map worker_rank ws) + worker_rank y" if "w < length ws" for ws :: "'e worker list" and w y
    using that by (induction ws arbitrary: w) (auto split: nat.splits)
  assume "pool_step count outcome p q"
  then show ?thesis
  proof cases
    case (go_on w) with rank[of w "workers p" Claiming] show ?thesis by (simp add: pool_work_def)
  next
    case (stop w) with rank[of w "workers p" "Returned (Inr ())"] show ?thesis by (simp add: pool_work_def)
  next
    case (claim w)
    with rank[of w "workers p" "Rendering (next_job p)"] show ?thesis by (simp add: pool_work_def)
  next
    case (none_left w)
    with rank[of w "workers p" "Returned (Inr ())"] show ?thesis by (simp add: pool_work_def)
  next
    case (rendered w i) with rank[of w "workers p" Checking] show ?thesis by (simp add: pool_work_def)
  next
    case (render_error w i e) with rank[of w "workers p" "Failing e"] show ?thesis by (simp add: pool_work_def)
  next
    case (raise w e)
    with rank[of w "workers p" "Returned (Inl e)"] show ?thesis by (simp add: pool_work_def)
  qed
qed

lemma pool_progress: "\<not> all_returned p \<Longrightarrow> \<exists>q. pool_step count outcome p q"
proof -
  assume "\<not> all_returned p"
  then obtain w where w: "w < length (workers p)"
    and alive: "\<not> (case workers p ! w of Returned _ \<Rightarrow> True | _ \<Rightarrow> False)"
    by (auto simp: all_returned_def list_all_length)
  show ?thesis
  proof (cases "workers p ! w")
    case Checking then show ?thesis using go_on[OF w] by blast
  next
    case Claiming
    then show ?thesis using claim[OF w] none_left[OF w] by (cases "next_job p < count") blast+
  next
    case (Rendering i)
    then show ?thesis using rendered[OF w] render_error[OF w] by (cases "outcome i") fastforce+
  next
    case (Failing e) then show ?thesis using raise[OF w] by blast
  next
    case (Returned r) with alive show ?thesis by simp
  qed
qed

lemma pool_steps_bounded: "(pool_step count outcome ^^ k) p q \<Longrightarrow> k + pool_work count q \<le> pool_work count p"
proof (induction k arbitrary: q)
  case (Suc k)
  then obtain r where "(pool_step count outcome ^^ k) p r" "pool_step count outcome r q" by auto
  with Suc.IH[of r] pool_step_work[of count outcome r q] show ?case by linarith
qed simp

lemma pool_start_work: "pool_work count (pool_start n) = 3 * count + 2 * n"
  by (simp add: pool_work_def pool_start_def map_replicate_const sum_list_replicate)

section \<open>Properties\<close>

text \<open>A file rendered in chunks holds what the same renderer gives in memory when every
  chunk was taken; otherwise the error of the first chunk that was not is returned and the file
  holds the beginning of that text.\<close>

lemma streamed_file_agrees:
  "case finish (file_write fault) (render_ops (file_write fault) ops (streaming [])) of
     (Inr _, s) \<Rightarrow> s = Some (into_string (render_ops (file_write fault) ops in_memory))
   | (Inl e, s) \<Rightarrow> \<exists>contents rest. s = Some contents \<and>
       contents @ rest = into_string (render_ops (file_write fault) ops in_memory)"
proof -
  obtain r s where run: "finish (file_write fault) (render_ops (file_write fault) ops (streaming [])) = (r, s)"
    by fastforce
  from finish_streaming[OF this] show ?thesis
    unfolding run in_memory_text by (cases r) simp_all
qed

text \<open>In any run of the workers, whatever their interleaving, no file is rendered by two
  workers or twice: a job that was rendered, or is being rendered, was claimed once.\<close>

lemma jobs_claimed_once:
  assumes "pool_reachable n count outcome p"
  shows "distinct (finished_jobs p) \<and>
    (\<forall>v w i. at_worker p v (Rendering i) \<longrightarrow>
       i < count \<and> i \<notin> set (finished_jobs p) \<and> (at_worker p w (Rendering i) \<longrightarrow> v = w))"
  using pool_invariant[OF assms] unfolding claims_ok_def by blast

lemma jobs_claimed_once_witness: "distinct (finished_jobs (pool_start 2 :: string pool))"
  using jobs_claimed_once[OF pool_reachable.start[of 2 3 "\<lambda>_. Inr ()"]] by blast

text \<open>When all workers have returned and the joined result is not an error, every file was
  rendered once and without error; when it is one, it is the error of some file.\<close>

lemma finished_run:
  assumes "pool_reachable n count outcome p" and "0 < n" and "all_returned p"
  shows "case pool_result p of
      Inr _ \<Rightarrow> distinct (finished_jobs p) \<and> set (finished_jobs p) = {..<count} \<and>
        (\<forall>i < count. outcome i = Inr ())
    | Inl e \<Rightarrow> \<exists>i < count. outcome i = Inl e"
  using finished_run_ok[OF assms] finished_run_error[OF assms(1)] by (auto split: sum.splits)

definition sample_end :: "string pool" where
  "sample_end = \<lparr>next_job = 1, failed = False, workers = [Returned (Inr ())], finished_jobs = []\<rparr>"

lemma sample_run: "pool_reachable 1 0 outcome sample_end"
proof -
  have "pool_step 0 outcome (pool_start 1) \<lparr>next_job = 0, failed = False, workers = [Claiming], finished_jobs = []\<rparr>"
    using go_on[of 0 "pool_start 1" 0 outcome] by (simp add: pool_start_def)
  moreover have "pool_step 0 outcome \<lparr>next_job = 0, failed = False, workers = [Claiming], finished_jobs = []\<rparr> sample_end"
    using none_left[of 0 "\<lparr>next_job = 0, failed = False, workers = [Claiming], finished_jobs = []\<rparr>" 0 outcome]
    by (simp add: sample_end_def)
  ultimately show ?thesis by (blast intro: pool_reachable.intros)
qed

lemma finished_run_witness: "finished_jobs sample_end = []"
  using finished_run[OF sample_run[of "\<lambda>_. Inr ()"], simplified]
  by (simp add: sample_end_def all_returned_def pool_result_def)

text \<open>Every run ends: from the start no run takes more than three steps for each file and
  two for each worker, and until all workers have returned some step can be taken.\<close>

lemma pool_terminates:
  assumes "(pool_step count outcome ^^ k) (pool_start n) p"
  shows "k \<le> 3 * count + 2 * n \<and> (all_returned p \<or> (\<exists>q. pool_step count outcome p q))"
  using pool_steps_bounded[OF assms] pool_progress[of p count outcome] by (auto simp: pool_start_work)

lemma pool_terminates_witness: "\<exists>q. pool_step 3 (\<lambda>_. Inr ()) (pool_start 2 :: string pool) q"
proof -
  have "\<not> all_returned (pool_start 2 :: string pool)"
    by (simp add: all_returned_def pool_start_def numeral_2_eq_2)
  then show ?thesis
    using pool_terminates[where count = 3 and outcome = "\<lambda>_. Inr ()" and k = 0 and n = 2
        and p = "pool_start 2 :: string pool"] by simp
qed

end
