(* ===== verification/Binding_Model.thy ===== *)
theory Binding_Model
  imports Provider_Schema
begin

text \<open>
  Deriving the binding API from a normalized schema: \<open>crates/binding-model/src/lib.rs\<close>. The
  deriver threads its memo tables through the derivation; a shared field list is the list.
\<close>

section \<open>Names\<close>

text \<open>
  Words are maximal runs of ASCII letters and digits; every byte of any other character
  separates, and empty parts are dropped.
\<close>

fun split_where :: "(char \<Rightarrow> bool) \<Rightarrow> string \<Rightarrow> string list" where
  "split_where sep [] = [[]]"
| "split_where sep (c # cs) =
     (if sep c then [] # split_where sep cs
      else (case split_where sep cs of [] \<Rightarrow> [[c]] | w # ws \<Rightarrow> (c # w) # ws))"

definition split_words :: "string \<Rightarrow> string list" where
  "split_words s = filter (\<lambda>part. part \<noteq> []) (split_where (\<lambda>c. \<not> is_ascii_alphanumeric c) s)"

fun capitalized :: "string \<Rightarrow> string" where
  "capitalized [] = []"
| "capitalized (c # cs) = to_ascii_uppercase c # cs"

definition push_capitalized :: "string \<Rightarrow> string \<Rightarrow> string" where
  "push_capitalized out word = out @ capitalized word"

definition pascal_case :: "string \<Rightarrow> string" where
  "pascal_case s = foldl push_capitalized [] (split_words s)"

definition field_name :: "string \<Rightarrow> string" where
  "field_name s = (case split_words s of [] \<Rightarrow> [] | first # rest \<Rightarrow> foldl push_capitalized first rest)"

definition RESERVED_WORDS :: "string list" where
  "RESERVED_WORDS =
     [''ado'', ''case'', ''class'', ''data'', ''derive'', ''do'', ''else'', ''false'', ''forall'',
      ''foreign'', ''hiding'', ''if'', ''import'', ''in'', ''infix'', ''infixl'', ''infixr'',
      ''instance'', ''kind'', ''let'', ''module'', ''newtype'', ''nominal'', ''of'',
      ''representational'', ''role'', ''then'', ''true'', ''type'', ''where'']"

definition reserved_word :: "string \<Rightarrow> bool" where
  "reserved_word name = List.member RESERVED_WORDS name"

section \<open>Bindings\<close>

datatype binding_type =
    BindString | BindBool | BindNumber
  | BindList binding_type | BindSet binding_type | BindMap binding_type
  | BindObject "binding_field list"
  | BindTuple "binding_type list"
  | BindDynamic
and binding_field =
    BindingField (bf_provider_name: string) (bf_public_name: string) (bf_type: binding_type)
      (bf_required: bool) (bf_optional: bool) (bf_computed: bool) (bf_sensitive: bool)
      (bf_block: bool) (bf_target_reserved: bool) (bf_description: "string option")
      (bf_min_items: "u64 option") (bf_max_items: "u64 option")

type_synonym fields_list = "binding_field list"

record binding_item =
  bi_provider_type :: string
  bi_public_name :: string
  bi_fields :: fields_list

record binding_provider =
  bp_source :: string
  bp_version :: string
  bp_public_name :: string
  bp_fields :: fields_list

record binding_package =
  bk_provider :: binding_provider
  bk_resources :: "binding_item list"
  bk_data_sources :: "binding_item list"

datatype derive_error = InvalidProviderName string | NameCollision string string string

definition required_inputs :: "binding_item \<Rightarrow> fields_list" where
  "required_inputs item = filter bf_required (bi_fields item)"

definition optional_inputs :: "binding_item \<Rightarrow> fields_list" where
  "optional_inputs item = filter bf_optional (bi_fields item)"

definition item_outputs :: "binding_item \<Rightarrow> fields_list" where
  "item_outputs item = bi_fields item"

fun object_fields :: "binding_type \<Rightarrow> fields_list option" where
  "object_fields (BindObject fs) = Some fs"
| "object_fields (BindList t) = object_fields t"
| "object_fields (BindSet t) = object_fields t"
| "object_fields (BindMap t) = object_fields t"
| "object_fields _ = None"

lemma object_fields_size [termination_simp]:
  "object_fields t = Some fs \<Longrightarrow> size_list size fs < size t"
  by (induction t rule: object_fields.induct) auto

lemma field_size [termination_simp]:
  "f \<in> set fs \<Longrightarrow> object_fields (bf_type f) = Some gs \<Longrightarrow> size_list size gs < size_list size fs"
proof (induction fs)
  case (Cons g fs)
  show ?case
  proof (cases "f = g")
    case True
    with Cons.prems have "size_list size gs < size (bf_type g)"
      by (simp add: object_fields_size)
    also have "\<dots> < size g" by (cases g) simp
    finally show ?thesis by simp
  next
    case False
    with Cons show ?thesis by (auto simp: less_Suc_eq intro: trans_less_add2)
  qed
qed simp

text \<open>\<open>usize\<close> arithmetic on counts of fields in memory; natural numbers here.\<close>

fun path_count :: "fields_list \<Rightarrow> nat" where
  "path_count fs =
     sum_list (map (\<lambda>f. 1 + (case object_fields (bf_type f) of None \<Rightarrow> 0 | Some gs \<Rightarrow> path_count gs)) fs)"

section \<open>The deriver\<close>

text \<open>A map over a list that threads the deriver's state.\<close>

fun map_state :: "('a \<Rightarrow> 's \<Rightarrow> 'b \<times> 's) \<Rightarrow> 'a list \<Rightarrow> 's \<Rightarrow> 'b list \<times> 's" where
  "map_state f [] s = ([], s)"
| "map_state f (x # xs) s = (let (y, s) = f x s; (ys, s) = map_state f xs s in (y # ys, s))"

lemma map_state_cong [fundef_cong]:
  assumes "xs = ys" and "s = t" and "\<And>x s. x \<in> set ys \<Longrightarrow> f x s = g x s"
  shows "map_state f xs s = map_state g ys t"
proof -
  have "(\<forall>x \<in> set ys. \<forall>s. f x s = g x s) \<Longrightarrow> map_state f ys s' = map_state g ys s'" for s'
    by (induction ys arbitrary: s') auto
  with assms show ?thesis by blast
qed

record deriver =
  blocks_memo :: "(block_schema \<times> fields_list) list"
  objects_memo :: "((string \<times> attribute_schema) list \<times> fields_list) list"
  public_names :: "(string \<times> string) list"

definition deriver_default :: deriver where
  "deriver_default = \<lparr>blocks_memo = [], objects_memo = [], public_names = []\<rparr>"

definition public_name :: "string \<Rightarrow> deriver \<Rightarrow> string \<times> deriver" where
  "public_name name st =
     (case map_of (public_names st) name of
        Some known \<Rightarrow> (known, st)
      | None \<Rightarrow>
          let known = field_name name
          in (known, st\<lparr>public_names := (name, known) # public_names st\<rparr>))"

definition attribute_field :: "string \<Rightarrow> string \<Rightarrow> binding_type \<Rightarrow> attribute_schema \<Rightarrow> binding_field" where
  "attribute_field name public t a =
     BindingField name public t (at_required a) (at_optional a) (at_computed a) (at_sensitive a)
       False (reserved_word public) (at_description a) None None"

definition positive :: "u64 option \<Rightarrow> u64 option" where
  "positive n = (case n of None \<Rightarrow> None | Some minimum \<Rightarrow> if 0 < minimum then Some minimum else None)"

definition block_type :: "nesting_mode \<Rightarrow> binding_type \<Rightarrow> binding_type" where
  "block_type mode object =
     (case mode of SingleNesting \<Rightarrow> object | GroupNesting \<Rightarrow> object
      | ListNesting \<Rightarrow> BindList object | SetNesting \<Rightarrow> BindSet object | MapNesting \<Rightarrow> BindMap object)"

definition block_field :: "string \<Rightarrow> string \<Rightarrow> fields_list \<Rightarrow> nested_block_schema \<Rightarrow> binding_field" where
  "block_field name public fs nested =
     BindingField name public (block_type (nb_nesting_mode nested) (BindObject fs))
       (case nb_min_items nested of None \<Rightarrow> False | Some minimum \<Rightarrow> 0 < minimum)
       (case nb_min_items nested of None \<Rightarrow> True | Some minimum \<Rightarrow> minimum = 0)
       False False True (reserved_word public) None (positive (nb_min_items nested)) (nb_max_items nested)"

fun derive_type :: "schema_type \<Rightarrow> deriver \<Rightarrow> binding_type \<times> deriver"
  and derive_attribute :: "string \<Rightarrow> attribute_schema \<Rightarrow> deriver \<Rightarrow> binding_field \<times> deriver" where
  "derive_type StringType st = (BindString, st)"
| "derive_type BoolType st = (BindBool, st)"
| "derive_type NumberType st = (BindNumber, st)"
| "derive_type DynamicType st = (BindDynamic, st)"
| "derive_type (ListType t) st = (let (b, st) = derive_type t st in (BindList b, st))"
| "derive_type (SetType t) st = (let (b, st) = derive_type t st in (BindSet b, st))"
| "derive_type (MapType t) st = (let (b, st) = derive_type t st in (BindMap b, st))"
| "derive_type (TupleType ts) st = (let (bs, st) = map_state derive_type ts st in (BindTuple bs, st))"
| "derive_type (ObjectType as) st =
     (case map_of (objects_memo st) as of
        Some fs \<Rightarrow> (BindObject fs, st)
      | None \<Rightarrow>
          let (fs, st) = map_state (\<lambda>(name, a). derive_attribute name a) as st
          in (BindObject fs, st\<lparr>objects_memo := (as, fs) # objects_memo st\<rparr>))"
| "derive_attribute name (AttributeSchema t r opt c sens description) st =
     (let (public, st) = public_name name st; (b, st) = derive_type t st
      in (attribute_field name public b (AttributeSchema t r opt c sens description), st))"

fun derive_fields :: "block_schema \<Rightarrow> deriver \<Rightarrow> fields_list \<times> deriver"
  and derive_block :: "string \<Rightarrow> nested_block_schema \<Rightarrow> deriver \<Rightarrow> binding_field \<times> deriver" where
  "derive_fields (BlockSchema as bs) st =
     (case map_of (blocks_memo st) (BlockSchema as bs) of
        Some fs \<Rightarrow> (fs, st)
      | None \<Rightarrow>
          let (attributes, st) = map_state (\<lambda>(name, a). derive_attribute name a) as st;
              (blocks, st) = map_state (\<lambda>(name, b). derive_block name b) bs st;
              fs = sort_key bf_provider_name (attributes @ blocks)
          in (fs, st\<lparr>blocks_memo := (BlockSchema as bs, fs) # blocks_memo st\<rparr>))"
| "derive_block name (NestedBlockSchema mode minimum maximum block) st =
     (let (fs, st) = derive_fields block st; (public, st) = public_name name st
      in (block_field name public fs (NestedBlockSchema mode minimum maximum block), st))"

section \<open>Packages\<close>

text \<open>The items of a map of schemas, and the public names seen so far.\<close>

definition short_name :: "string \<Rightarrow> string \<Rightarrow> string" where
  "short_name prefix provider_type =
     (case strip_prefix prefix provider_type of Some rest \<Rightarrow> rest | None \<Rightarrow> provider_type)"

definition derive_item ::
  "string \<Rightarrow> string \<times> resource_schema \<Rightarrow> (string \<times> string) list \<times> binding_item list \<times> deriver \<Rightarrow>
     (derive_error, (string \<times> string) list \<times> binding_item list \<times> deriver) result" where
  "derive_item prefix entry state =
     (let (provider_type, schema) = entry;
          (seen, items, st) = state;
          name = pascal_case (short_name prefix provider_type)
      in case map_of seen name of
           Some first \<Rightarrow> Inl (NameCollision name first provider_type)
         | None \<Rightarrow>
             let (fs, st) = derive_fields schema st
             in Inr (bm_insert name provider_type seen,
                  items @ [\<lparr>bi_provider_type = provider_type, bi_public_name = name, bi_fields = fs\<rparr>], st))"

definition derive_items ::
  "string \<Rightarrow> (string \<times> resource_schema) list \<Rightarrow> deriver \<Rightarrow> (derive_error, binding_item list \<times> deriver) result" where
  "derive_items prefix schemas st =
     and_then (try_fold (derive_item prefix) schemas ([], [], st)) (\<lambda>(_, items, st). Inr (items, st))"

definition replace_char :: "char \<Rightarrow> char \<Rightarrow> string \<Rightarrow> string" where
  "replace_char a b s = map (\<lambda>c. if c = a then b else c) s"

definition prefix_candidates :: "string \<Rightarrow> string list" where
  "prefix_candidates native =
     (let parts = split_on (CHR ''-'') native
      in [native @ ''_'', replace_char (CHR ''-'') (CHR ''_'') native @ ''_''] @
         map (\<lambda>n. join ''_'' (take n parts) @ ''_'') (rev [1..<length parts]))"

definition infer_type_prefix :: "string \<Rightarrow> string list \<Rightarrow> string" where
  "infer_type_prefix native types =
     (case find (\<lambda>candidate. list_ex (starts_with candidate) types) (prefix_candidates native) of
        Some candidate \<Rightarrow> candidate
      | None \<Rightarrow> native @ ''_'')"

definition derive_bindings_with ::
  "provider_schema \<Rightarrow> string option \<Rightarrow> (derive_error, binding_package) result" where
  "derive_bindings_with schema strip =
     (let native = rsplit_last (CHR ''/'') (ps_source schema);
          name = pascal_case native
      in if native = [] \<or> name = [] then Inl (InvalidProviderName (ps_source schema))
         else
           let prefix = (case strip of
                 Some prefix \<Rightarrow> prefix
               | None \<Rightarrow> infer_type_prefix native
                   (map fst (ps_resources schema) @ map fst (ps_data_sources schema)))
           in and_then (derive_items prefix (ps_resources schema) deriver_default) (\<lambda>(rs, st).
              and_then (derive_items prefix (ps_data_sources schema) st) (\<lambda>(ds, st).
                let (fs, st) = derive_fields (provider_config schema) st
                in Inr \<lparr>bk_provider = \<lparr>bp_source = ps_source schema, bp_version = ps_version schema,
                      bp_public_name = name, bp_fields = fs\<rparr>,
                    bk_resources = rs, bk_data_sources = ds\<rparr>)))"

definition derive_bindings :: "provider_schema \<Rightarrow> (derive_error, binding_package) result" where
  "derive_bindings schema = derive_bindings_with schema None"

end
