(* ===== verification/Paths.thy ===== *)
theory Paths
  imports Prelude
begin

text \<open>
  Paths of a Unix file system, as \<open>std::path\<close> reads and joins them, and the lexical paths of
  \<open>crates/cli/src/project.rs\<close>: \<open>normalize\<close> and \<open>relative_path\<close>. A path is its text; a
  normalized path is held as its components.
\<close>

section \<open>\<open>std::path\<close>\<close>

datatype component = RootDir | CurDir | ParentDir | Normal string

definition is_absolute :: "string \<Rightarrow> bool" where
  "is_absolute p \<longleftrightarrow> p \<noteq> [] \<and> hd p = CHR ''/''"

text \<open>\<open>Path::join\<close>: an absolute path replaces the first one.\<close>

definition path_join :: "string \<Rightarrow> string \<Rightarrow> string" where
  "path_join base p =
     (if is_absolute p then p
      else if base = [] \<or> last base = CHR ''/'' then base @ p
      else base @ ''/'' @ p)"

text \<open>
  \<open>Path::components\<close> drops empty parts and \<open>.\<close>, except a \<open>.\<close> that a relative path
  starts with.
\<close>

fun part_component :: "string \<Rightarrow> component list" where
  "part_component w =
     (if w = [] \<or> w = ''.'' then [] else if w = ''..'' then [ParentDir] else [Normal w])"

definition body_components :: "string \<Rightarrow> component list" where
  "body_components p = concat (map part_component (split_on (CHR ''/'') p))"

definition components :: "string \<Rightarrow> component list" where
  "components p =
     (if is_absolute p then [RootDir]
      else if hd (split_on (CHR ''/'') p) = ''.'' then [CurDir] else []) @ body_components p"

text \<open>\<open>Path::parent\<close> of a path given by its components: none for the root and the empty path.\<close>

definition parent_components :: "component list \<Rightarrow> component list option" where
  "parent_components cs = (if cs = [] \<or> last cs = RootDir then None else Some (butlast cs))"

definition pop_component :: "component list \<Rightarrow> component list" where
  "pop_component cs = (case parent_components cs of None \<Rightarrow> cs | Some parent \<Rightarrow> parent)"

text \<open>\<open>PathBuf::push\<close> of a component: the root replaces the path.\<close>

fun push_component :: "component \<Rightarrow> component list \<Rightarrow> component list" where
  "push_component RootDir cs = [RootDir]"
| "push_component c cs = cs @ [c]"

fun component_text :: "component \<Rightarrow> string" where
  "component_text RootDir = ''/''"
| "component_text CurDir = ''.''"
| "component_text ParentDir = ''..''"
| "component_text (Normal s) = s"

section \<open>Lexical normalization\<close>

fun normalize_step :: "component \<Rightarrow> component list \<Rightarrow> component list" where
  "normalize_step CurDir normalized = normalized"
| "normalize_step ParentDir normalized = pop_component normalized"
| "normalize_step c normalized = push_component c normalized"

text \<open>\<open>cwd\<close> is the current directory, or \<open>/\<close> when it cannot be read.\<close>

definition normalize :: "string \<Rightarrow> string \<Rightarrow> component list" where
  "normalize cwd path =
     (let absolute = (if is_absolute path then path else path_join cwd path)
      in fold normalize_step (components absolute) [])"

fun common_prefix :: "'a list \<Rightarrow> 'a list \<Rightarrow> nat" where
  "common_prefix (x # xs) (y # ys) = (if x = y then Suc (common_prefix xs ys) else 0)"
| "common_prefix _ _ = 0"

definition relative_path :: "string \<Rightarrow> string \<Rightarrow> string \<Rightarrow> string" where
  "relative_path cwd from_path to_path =
     (let from_components = normalize cwd from_path;
          to_components = normalize cwd to_path;
          common = common_prefix from_components to_components;
          parts = replicate (length from_components - common) ''..'' @
            map component_text (drop common to_components)
      in if parts = [] then ''.'' else join ''/'' parts)"

lemma relative_path_examples:
  "relative_path ''/'' ''/repo/lean/integration/.generated/digitalocean'' ''/repo/lean'' = ''../../..''"
  "relative_path ''/'' ''/repo/a'' ''/repo/a'' = ''.''"
  "relative_path ''/'' ''/repo/a/./b/../b'' ''/repo/c'' = ''../../c''"
  by code_simp+

section \<open>A relative path leads where it should\<close>

text \<open>A normalized absolute path: the root, then names.\<close>

fun is_name :: "component \<Rightarrow> bool" where
  "is_name (Normal s) \<longleftrightarrow> s \<noteq> [] \<and> s \<noteq> ''.'' \<and> s \<noteq> ''..'' \<and> CHR ''/'' \<notin> set s"
| "is_name _ \<longleftrightarrow> False"

fun rooted :: "component list \<Rightarrow> bool" where
  "rooted (c # cs) \<longleftrightarrow> c = RootDir \<and> list_all is_name cs"
| "rooted [] \<longleftrightarrow> False"

lemma split_on_append_any:
  "split_on d (a @ d # b) = split_on d a @ split_on d b"
proof (induction a)
  case (Cons c a)
  show ?case
    using Cons split_on_nonempty[of d a] by (cases "split_on d a") auto
qed simp

lemma body_components_append:
  "body_components (a @ CHR ''/'' # b) = body_components a @ body_components b"
  by (simp add: body_components_def split_on_append_any)

lemma fold_components_relative:
  assumes "\<not> is_absolute b"
  shows "fold normalize_step (components b) cs = fold normalize_step (body_components b) cs"
  using assms by (simp add: components_def)

text \<open>The components of a path below its root or its leading \<open>.\<close>.\<close>

fun is_step :: "component \<Rightarrow> bool" where
  "is_step ParentDir \<longleftrightarrow> True"
| "is_step c \<longleftrightarrow> is_name c"

lemma body_components_steps: "list_all is_step (body_components p)"
proof -
  have "list_all is_step (part_component w)" if "w \<in> set (split_on (CHR ''/'') p)" for w
    using split_on_no_sep[OF that] by simp
  then show ?thesis by (auto simp: body_components_def list_all_iff simp del: part_component.simps)
qed

lemma pop_rooted:
  "pop_component (RootDir # cs) = RootDir # butlast cs" if "list_all is_name cs"
proof (cases cs rule: rev_cases)
  case (snoc ds d)
  with that show ?thesis by (cases d) (auto simp: pop_component_def parent_components_def)
qed (simp add: pop_component_def parent_components_def)

lemma normalize_step_rooted: "is_step c \<Longrightarrow> rooted cs \<Longrightarrow> rooted (normalize_step c cs)"
  by (cases cs; cases c) (auto simp: pop_rooted list_all_iff dest: in_set_butlastD)

lemma fold_rooted: "list_all is_step bs \<Longrightarrow> rooted cs \<Longrightarrow> rooted (fold normalize_step bs cs)"
  by (induction bs arbitrary: cs) (auto simp: normalize_step_rooted)

definition absolute_text :: "string \<Rightarrow> string \<Rightarrow> string" where
  "absolute_text cwd path = (if is_absolute path then path else path_join cwd path)"

lemma absolute_text_absolute: "is_absolute cwd \<Longrightarrow> is_absolute (absolute_text cwd path)"
  by (auto simp: absolute_text_def path_join_def is_absolute_def)

lemma normalize_absolute:
  assumes "is_absolute cwd"
  shows "normalize cwd path = fold normalize_step (body_components (absolute_text cwd path)) [RootDir]"
  using absolute_text_absolute[OF assms, of path]
  by (simp add: normalize_def components_def absolute_text_def[symmetric])

lemma normalize_rooted: "is_absolute cwd \<Longrightarrow> rooted (normalize cwd path)"
  by (simp add: normalize_absolute fold_rooted body_components_steps)

text \<open>Joining a relative path to another one adds its steps.\<close>

lemma path_join_assoc:
  assumes "\<not> is_absolute b" and "\<not> is_absolute c" and "c \<noteq> []"
  shows "path_join a (path_join b c) = path_join (path_join a b) c"
  using assms by (auto simp: path_join_def is_absolute_def)

lemma body_components_join:
  assumes "\<not> is_absolute b" and "a \<noteq> []"
  shows "body_components (path_join a b) = body_components a @ body_components b"
proof (cases "last a = CHR ''/''")
  case True
  then obtain a' where "a = a' @ [CHR ''/'']" using assms(2) by (metis append_butlast_last_id)
  then show ?thesis
    using True assms body_components_append[of a' b] body_components_append[of a' "[]"]
    by (simp add: path_join_def body_components_def)
next
  case False
  then show ?thesis using assms by (simp add: path_join_def body_components_append)
qed

lemma normalize_join:
  assumes cwd: "is_absolute cwd" and rel: "\<not> is_absolute rel" "rel \<noteq> []"
  shows "normalize cwd (path_join base rel) = fold normalize_step (body_components rel) (normalize cwd base)"
proof -
  have "absolute_text cwd (path_join base rel) = path_join (absolute_text cwd base) rel"
  proof (cases "is_absolute base")
    case True
    then have "is_absolute (path_join base rel)" by (auto simp: path_join_def is_absolute_def)
    with True show ?thesis by (simp add: absolute_text_def)
  next
    case False
    have "path_join base rel = rel \<or> hd (path_join base rel) = hd base"
      using rel by (cases base) (auto simp: path_join_def is_absolute_def)
    then have "\<not> is_absolute (path_join base rel)"
      using False rel by (cases base) (auto simp: path_join_def is_absolute_def split: if_splits)
    with False rel show ?thesis by (simp add: absolute_text_def path_join_assoc)
  qed
  moreover have "absolute_text cwd base \<noteq> []"
    using absolute_text_absolute[OF cwd, of base] by (auto simp: is_absolute_def)
  ultimately show ?thesis by (simp add: normalize_absolute[OF cwd] body_components_join rel)
qed

lemma common_prefix_take:
  "take (common_prefix xs ys) xs = take (common_prefix xs ys) ys"
  "common_prefix xs ys \<le> length xs" "common_prefix xs ys \<le> length ys"
  by (induction xs ys rule: common_prefix.induct) auto

lemma fold_parents:
  "rooted cs \<Longrightarrow> k < length cs \<Longrightarrow>
     fold normalize_step (replicate k ParentDir) cs = take (length cs - k) cs"
proof (induction k arbitrary: cs)
  case (Suc k)
  from Suc.prems obtain ds where cs: "cs = RootDir # ds" "list_all is_name ds"
    by (cases cs) auto
  with Suc.prems obtain es e where ds: "ds = es @ [e]" by (cases ds rule: rev_cases) auto
  with cs have names: "rooted (RootDir # es)" by auto
  have "fold normalize_step (replicate (Suc k) ParentDir) cs =
      fold normalize_step (replicate k ParentDir) (RootDir # es)"
    using cs ds by (simp add: pop_rooted del: fold_replicate)
  also have "\<dots> = take (Suc (length es) - k) (RootDir # es)"
    using Suc.IH[OF names] Suc.prems cs ds by simp
  also have "\<dots> = take (length cs - Suc k) cs"
    using take_append[of "Suc (length es) - k" "RootDir # es" "[e]"] by (simp add: cs ds)
  finally show ?case .
qed simp

lemma fold_names: "list_all is_name ns \<Longrightarrow> fold normalize_step ns cs = cs @ ns"
proof (induction ns arbitrary: cs)
  case (Cons n ns)
  then show ?case by (cases n) auto
qed simp

lemma part_component_text: "is_name c \<Longrightarrow> part_component (component_text c) = [c]"
  by (cases c) auto

lemma name_text: "is_name c \<Longrightarrow> component_text c \<noteq> [] \<and> CHR ''/'' \<notin> set (component_text c)"
  by (cases c) auto

lemma body_components_parts:
  assumes "list_all is_name ns" and parts: "parts = replicate k ''..'' @ map component_text ns"
    and "parts \<noteq> []"
  shows "body_components (join ''/'' parts) = replicate k ParentDir @ ns"
    and "\<not> is_absolute (join ''/'' parts)" and "join ''/'' parts \<noteq> []"
proof -
  have plain: "w \<noteq> [] \<and> CHR ''/'' \<notin> set w" if "w \<in> set parts" for w
    using that assms(1) name_text by (auto simp: parts list_all_iff split: if_splits)
  then have "split_on (CHR ''/'') (join ''/'' parts) = parts"
    using split_on_join[OF assms(3)] by blast
  moreover have "concat (map part_component (map component_text ns)) = ns"
    using assms(1) by (induction ns) (auto simp: part_component_text simp del: part_component.simps)
  moreover have "concat (map part_component (replicate k ''..'')) = replicate k ParentDir"
    by (induction k) auto
  ultimately show "body_components (join ''/'' parts) = replicate k ParentDir @ ns"
    by (simp add: body_components_def parts del: part_component.simps)
  obtain w ws where ws: "parts = w # ws" using assms(3) by (cases parts) auto
  then have "w \<noteq> []" "CHR ''/'' \<notin> set w" using plain[of w] by simp_all
  then obtain c w' where "w = c # w'" "c \<noteq> CHR ''/''" by (cases w) auto
  with ws show "\<not> is_absolute (join ''/'' parts)" and "join ''/'' parts \<noteq> []"
    by (cases ws; simp add: is_absolute_def)+
qed

lemma relative_path_leads:
  assumes cwd: "is_absolute cwd"
  shows "normalize cwd (path_join from_path (relative_path cwd from_path to_path)) = normalize cwd to_path"
proof -
  define F where "F = normalize cwd from_path"
  define T where "T = normalize cwd to_path"
  define common where "common = common_prefix F T"
  define parts where "parts = replicate (length F - common) ''..'' @ map component_text (drop common T)"
  have F: "rooted F" and T: "rooted T" by (simp_all add: F_def T_def normalize_rooted[OF cwd])
  then have pos: "0 < common" by (cases F; cases T) (auto simp: common_def)
  note take = common_prefix_take[of F T, folded common_def]
  from T pos have names: "list_all is_name (drop common T)"
    by (cases T; cases common) (auto simp: list_all_iff dest: in_set_dropD)
  have rel: "relative_path cwd from_path to_path = (if parts = [] then ''.'' else join ''/'' parts)"
    by (simp add: relative_path_def F_def T_def common_def parts_def Let_def)
  have "body_components (relative_path cwd from_path to_path) =
      replicate (length F - common) ParentDir @ drop common T \<and>
      \<not> is_absolute (relative_path cwd from_path to_path) \<and> relative_path cwd from_path to_path \<noteq> []"
  proof (cases "parts = []")
    case True
    then have "length F - common = 0" "drop common T = []" by (simp_all add: parts_def)
    with True show ?thesis by (simp add: rel body_components_def is_absolute_def)
  next
    case False
    from body_components_parts[OF names parts_def False] False show ?thesis by (simp add: rel)
  qed
  then have "normalize cwd (path_join from_path (relative_path cwd from_path to_path)) =
      fold normalize_step (replicate (length F - common) ParentDir @ drop common T) F"
    by (simp add: normalize_join[OF cwd] F_def)
  also have "\<dots> = take common F @ drop common T"
  proof -
    have "length F - common < length F" using pos take(2) by linarith
    then show ?thesis using fold_parents[OF F] names take(2) by (simp add: fold_names)
  qed
  also have "\<dots> = T" by (simp add: take(1))
  finally show ?thesis by (simp add: T_def)
qed

section \<open>Property\<close>

text \<open>The relative path a generated lakefile gets leads, followed from the directory it is
  written for, to the directory it was asked for: both normalize to the same path, whatever
  dots and repeated separators the two were written with.\<close>

lemma relative_path_leads_back:
  assumes "is_absolute cwd"
  shows "normalize cwd (path_join from_path (relative_path cwd from_path to_path)) = normalize cwd to_path"
  using assms by (rule relative_path_leads)

lemma relative_path_leads_back_witness:
  "normalize ''/home'' (path_join ''infra/.generated/x'' (relative_path ''/home'' ''infra/.generated/x'' ''./core'')) =
     [RootDir, Normal ''home'', Normal ''core'']"
  by (subst relative_path_leads_back, simp add: is_absolute_def, code_simp)

end
