(* ===== verification/Text_Lines.thy ===== *)
theory Text_Lines
  imports Prelude
begin

text \<open>
  Characters and lines of a text: the characters of a UTF-8 string, \<open>trim\<close> and \<open>lines\<close> of
  the standard library, and the marks the messages and generated files are written with.
\<close>

section \<open>Characters\<close>

text \<open>
  The characters of a text, each as the bytes that encode it: a byte that starts a character
  and the continuation bytes after it.
\<close>

definition continuation :: "char \<Rightarrow> bool" where
  "continuation c \<longleftrightarrow> 128 \<le> byte c \<and> byte c < 192"

function (sequential) text_chars :: "string \<Rightarrow> string list" where
  "text_chars [] = []"
| "text_chars (c # cs) = (c # takeWhile continuation cs) # text_chars (dropWhile continuation cs)"
  by pat_completeness auto
termination
  by (relation "measure length") (simp_all add: length_dropWhile_le le_imp_less_Suc)

section \<open>Lines\<close>

definition nl :: string where
  "nl = [CHR 0x0A]"

definition quote_mark :: string where
  "quote_mark = [CHR 0x22]"

definition tick :: string where
  "tick = [CHR 0x60]"

definition ticked :: "string \<Rightarrow> string" where
  "ticked s = tick @ s @ tick"

definition text_of_lines :: "string list \<Rightarrow> string" where
  "text_of_lines ls = concat (map (\<lambda>l. l @ nl) ls)"

definition trim_end :: "string \<Rightarrow> string" where
  "trim_end s = concat (rev (dropWhile blank (rev (text_chars s))))"

definition trim :: "string \<Rightarrow> string" where
  "trim s = concat (dropWhile blank (text_chars (trim_end s)))"

text \<open>
  \<open>str::lines\<close>: a line break ends a line, with the carriage return before it; what follows the
  last one is a line unless it is empty.
\<close>

definition text_lines :: "string \<Rightarrow> string list" where
  "text_lines s =
     (let ls = split_on (CHR 0x0A) s
      in map (\<lambda>l. case strip_suffix [CHR 0x0D] l of Some l' \<Rightarrow> l' | None \<Rightarrow> l) (butlast ls) @
         (if last ls = [] then [] else [last ls]))"

definition replace_with :: "char \<Rightarrow> string \<Rightarrow> string \<Rightarrow> string" where
  "replace_with c rep s = concat (map (\<lambda>x. if x = c then rep else [x]) s)"

text \<open>Marks outside ASCII are written as the bytes of their encoding.\<close>

definition utf8 :: "nat list \<Rightarrow> string" where
  "utf8 ns = map char_of ns"

end
