(* ===== verification/Project.thy ===== *)
theory Project
  imports Graph_Validate Binding_Model Paths Text_Lines
begin

text \<open>
  The project configuration \<open>inframe.toml\<close> and what the command line reads from it:
  \<open>Project\<close> of \<open>crates/cli/src/project.rs\<close>. Reading the file and decoding TOML are
  parameters; every check of \<open>Project::load\<close> is modelled, in the order of the code.
\<close>

section \<open>Configuration\<close>

datatype frontend = PureScript | Lean

datatype toml =
    TString string | TInteger "64 word" | TFloat string | TBoolean bool | TDatetime string
  | TArray "toml list" | TTable "(string \<times> toml) list"

record purescript_config =
  psc_directory :: string
  psc_package :: string
  psc_main :: string
  psc_test :: "string option"

record lean_core_config =
  core_path :: "string option"
  core_git :: "string option"
  core_rev :: "string option"
  core_subdir :: "string option"

record lean_config =
  lean_directory :: string
  lean_main :: string
  lean_test :: "string option"
  lean_core :: lean_core_config

record provider_settings =
  pv_source :: string
  pv_version :: string
  pv_module_root :: "string option"
  pv_strip_prefix :: "string option"
  pv_output :: "string option"
  pv_lean_output :: "string option"

record workspace_config =
  ws_directory :: string
  ws_graph_directory :: string

record gate_config =
  gate_module :: string
  gate_program :: string
  gate_policy :: string
  gate_proof :: "string option"

record backend_config =
  be_kind :: string
  be_config :: "toml btree_map"

record stack_config =
  sc_frontend :: "frontend option"
  sc_main :: "string option"
  sc_test :: "string option"
  sc_gate :: "gate_config option"
  sc_backend :: backend_config

record project_config =
  cf_purescript :: "purescript_config option"
  cf_lean :: "lean_config option"
  cf_providers :: "provider_settings btree_map"
  cf_workspace :: workspace_config
  cf_stacks :: "stack_config btree_map"

record project =
  pj_root :: string
  pj_config :: project_config

definition default_workspace :: workspace_config where
  "default_workspace = \<lparr>ws_directory = ''.inframe'', ws_graph_directory = ''.inframe/graphs''\<rparr>"

definition default_backend :: backend_config where
  "default_backend = \<lparr>be_kind = ''local'', be_config = []\<rparr>"

definition default_stack :: stack_config where
  "default_stack =
     \<lparr>sc_frontend = None, sc_main = None, sc_test = None, sc_gate = None, sc_backend = default_backend\<rparr>"

text \<open>Every message of \<open>bail!\<close> and \<open>with_context\<close> is a constructor.\<close>

datatype project_error =
    ConfigUnreadable string | ConfigUndecodable string
  | NoFrontend | EmptyPackage | EmptyMain frontend | EmptyTest frontend
  | CorePathAndGit | CoreNeedsGit
  | BadProviderName string | EmptyProviderSource string | EmptyProviderVersion string
  | NoStacks | BadStackName string | BadBackendKind string string
  | EmptyStackMain string | EmptyStackTest string | FrontendNotConfigured string frontend
  | SecretLikeKey string string
  | BadGateName string string string
  | GateNeedsLean string
  | UnknownStack string | AmbiguousFrontend string
  | OwnOutputs string | UnknownReference string string
  | MissingFrontend frontend
  | UnknownProvider string | NoProviders | FrontendUnavailable "frontend option"
  | BackendNotJson | StatePathNotString string | StatePathUnresolved string
  | WorkspaceName string
  | StackCycle "string list"

type_synonym 'a checked = "(project_error, 'a) result"

section \<open>Names\<close>

definition valid_component_name :: "string \<Rightarrow> bool" where
  "valid_component_name value \<longleftrightarrow>
     value \<noteq> [] \<and> value \<noteq> ''.'' \<and> value \<noteq> ''..'' \<and>
     list_all (\<lambda>c. is_ascii_alphanumeric c \<or> c = CHR ''-'' \<or> c = CHR ''_'') value"

definition valid_stack_name :: "string \<Rightarrow> bool" where
  "valid_stack_name value \<longleftrightarrow> valid_component_name value"

fun valid_backend_kind :: "string \<Rightarrow> bool" where
  "valid_backend_kind [] \<longleftrightarrow> False"
| "valid_backend_kind (first # rest) \<longleftrightarrow>
     (first = CHR ''_'' \<or> is_ascii_alphabetic first) \<and>
     list_all (\<lambda>c. c = CHR ''_'' \<or> is_ascii_alphanumeric c) rest"

text \<open>
  \<open>alphabetic\<close>, \<open>alphanumeric_char\<close> and \<open>control\<close> stand for the Unicode tables of the
  standard library.
\<close>

record unicode =
  alphabetic :: "string \<Rightarrow> bool"
  alphanumeric_char :: "string \<Rightarrow> bool"
  control :: "string \<Rightarrow> bool"

fun valid_lean_component :: "unicode \<Rightarrow> string list \<Rightarrow> bool" where
  "valid_lean_component u [] \<longleftrightarrow> False"
| "valid_lean_component u (first # rest) \<longleftrightarrow>
     (alphabetic u first \<or> first = ''_'') \<and>
     list_all (\<lambda>c. alphanumeric_char u c \<or> c = ''_'' \<or> c = [char_of (39::nat)] \<or> c = ''!'' \<or> c = ''?'') rest"

definition valid_lean_name :: "unicode \<Rightarrow> string \<Rightarrow> bool" where
  "valid_lean_name u value \<longleftrightarrow>
     list_all (\<lambda>part. valid_lean_component u (text_chars part)) (split_on (CHR ''.'') value)"

section \<open>Checks of one table\<close>

definition check_purescript :: "purescript_config \<Rightarrow> unit checked" where
  "check_purescript config =
     and_then (fail_if (blank (psc_package config)) EmptyPackage) (\<lambda>_.
     and_then (fail_if (blank (psc_main config)) (EmptyMain PureScript)) (\<lambda>_.
     fail_if (psc_test config = Some []) (EmptyTest PureScript)))"

definition check_lean :: "lean_config \<Rightarrow> unit checked" where
  "check_lean config =
     and_then (fail_if (blank (lean_main config)) (EmptyMain Lean)) (\<lambda>_.
     and_then (fail_if (lean_test config = Some []) (EmptyTest Lean)) (\<lambda>_.
     let core = lean_core config in
     and_then (fail_if (core_path core \<noteq> None \<and> core_git core \<noteq> None) CorePathAndGit) (\<lambda>_.
     fail_if (core_git core = None \<and> (core_rev core \<noteq> None \<or> core_subdir core \<noteq> None)) CoreNeedsGit)))"

definition check_provider :: "string \<times> provider_settings \<Rightarrow> unit checked" where
  "check_provider = (\<lambda>(name, provider).
     and_then (fail_if (\<not> valid_component_name name) (BadProviderName name)) (\<lambda>_.
     and_then (fail_if (blank (pv_source provider)) (EmptyProviderSource name)) (\<lambda>_.
     fail_if (blank (pv_version provider)) (EmptyProviderVersion name))))"

fun contains :: "string \<Rightarrow> string \<Rightarrow> bool" where
  "contains needle [] \<longleftrightarrow> needle = []"
| "contains needle (c # cs) \<longleftrightarrow> starts_with needle (c # cs) \<or> contains needle cs"

definition secret_like_key :: "string \<Rightarrow> bool" where
  "secret_like_key key =
     (let normalized = map to_ascii_lowercase key
      in list_ex (\<lambda>needle. contains needle normalized)
        [''password'', ''secret'', ''token'', ''access_key'', ''credential'', ''private_key''])"

fun validate_backend_value :: "string \<Rightarrow> string \<Rightarrow> toml \<Rightarrow> unit checked" where
  "validate_backend_value stack path (TTable table) =
     try_each (\<lambda>(key, value).
         and_then (fail_if (secret_like_key key) (SecretLikeKey stack (path @ ''.'' @ key))) (\<lambda>_.
           validate_backend_value stack (path @ ''.'' @ key) value))
       table"
| "validate_backend_value stack path (TArray items) =
     try_each (\<lambda>(index, value). validate_backend_value stack (path @ ''['' @ show_nat index @ '']'') value)
       (enumerate 0 items)"
| "validate_backend_value stack path _ = Inr ()"

definition validate_backend_config :: "string \<Rightarrow> toml btree_map \<Rightarrow> unit checked" where
  "validate_backend_config stack config =
     try_each (\<lambda>(key, value).
         and_then (fail_if (secret_like_key key) (SecretLikeKey stack key)) (\<lambda>_.
           validate_backend_value stack key value))
       config"

definition validate_gate :: "unicode \<Rightarrow> string \<Rightarrow> gate_config \<Rightarrow> unit checked" where
  "validate_gate u stack gate =
     try_each (\<lambda>(field, value).
         case value of
           None \<Rightarrow> Inr ()
         | Some value \<Rightarrow> fail_if (\<not> valid_lean_name u value) (BadGateName stack field value))
       [(''module'', Some (gate_module gate)), (''program'', Some (gate_program gate)),
        (''policy'', Some (gate_policy gate)), (''proof'', gate_proof gate)]"

definition check_stack_config :: "unicode \<Rightarrow> project_config \<Rightarrow> string \<times> stack_config \<Rightarrow> unit checked" where
  "check_stack_config u config = (\<lambda>(name, stack).
     and_then (fail_if (\<not> valid_stack_name name) (BadStackName name)) (\<lambda>_.
     and_then (fail_if (\<not> valid_backend_kind (be_kind (sc_backend stack)))
       (BadBackendKind (be_kind (sc_backend stack)) name)) (\<lambda>_.
     and_then (fail_if (sc_main stack = Some []) (EmptyStackMain name)) (\<lambda>_.
     and_then (fail_if (sc_test stack = Some []) (EmptyStackTest name)) (\<lambda>_.
     and_then
       (case sc_frontend stack of
          Some PureScript \<Rightarrow> fail_if (cf_purescript config = None) (FrontendNotConfigured name PureScript)
        | Some Lean \<Rightarrow> fail_if (cf_lean config = None) (FrontendNotConfigured name Lean)
        | None \<Rightarrow> Inr ()) (\<lambda>_.
     and_then (validate_backend_config name (be_config (sc_backend stack))) (\<lambda>_.
     case sc_gate stack of None \<Rightarrow> Inr () | Some gate \<Rightarrow> validate_gate u name gate)))))))"

section \<open>Loading\<close>

text \<open>\<open>Path::parent\<close>: the path without its last component, none for the root and the empty path.\<close>

definition path_parent :: "string \<Rightarrow> string option" where
  "path_parent p =
     (let parts = split_on (CHR ''/'') p;
          trim = dropWhile (\<lambda>w. w = '''' \<or> w = ''.'');
          body = trim (rev parts)
      in if body = [] then (if is_absolute p \<or> p = [] then None else Some [])
         else
           let rest = trim (tl body)
           in Some (if rest \<noteq> [] then join ''/'' (rev rest)
                    else if is_absolute p then ''/''
                    else if hd parts = ''.'' then ''.'' else []))"

definition stack :: "project \<Rightarrow> string \<Rightarrow> stack_config checked" where
  "stack project name =
     (case map_of (cf_stacks (pj_config project)) name of
        None \<Rightarrow> Inl (UnknownStack name)
      | Some config \<Rightarrow> Inr config)"

definition stack_names :: "project \<Rightarrow> string list" where
  "stack_names project = map fst (cf_stacks (pj_config project))"

definition frontends :: "project \<Rightarrow> frontend list" where
  "frontends project =
     (if cf_purescript (pj_config project) \<noteq> None then [PureScript] else []) @
     (if cf_lean (pj_config project) \<noteq> None then [Lean] else [])"

definition stack_frontend :: "project \<Rightarrow> string \<Rightarrow> frontend checked" where
  "stack_frontend project name =
     and_then (stack project name) (\<lambda>config.
       case sc_frontend config of
         Some frontend \<Rightarrow> Inr frontend
       | None \<Rightarrow>
           (case frontends project of
              [frontend] \<Rightarrow> Inr frontend
            | _ \<Rightarrow> Inl (AmbiguousFrontend name)))"

definition check_gate_frontends :: "project \<Rightarrow> unit checked" where
  "check_gate_frontends project =
     try_each (\<lambda>(name, config).
         if sc_gate config = None then Inr ()
         else and_then (stack_frontend project name) (\<lambda>frontend.
           fail_if (frontend \<noteq> Lean) (GateNeedsLean name)))
       (cf_stacks (pj_config project))"

definition project_root :: "string \<Rightarrow> string" where
  "project_root path =
     (case path_parent path of Some parent \<Rightarrow> if parent = [] then ''.'' else parent | None \<Rightarrow> ''.'')"

definition check_config :: "unicode \<Rightarrow> project_config \<Rightarrow> unit checked" where
  "check_config u config =
     and_then (fail_if (cf_purescript config = None \<and> cf_lean config = None) NoFrontend) (\<lambda>_.
     and_then (case cf_purescript config of None \<Rightarrow> Inr () | Some purescript \<Rightarrow> check_purescript purescript) (\<lambda>_.
     and_then (case cf_lean config of None \<Rightarrow> Inr () | Some lean \<Rightarrow> check_lean lean) (\<lambda>_.
     and_then (try_each check_provider (cf_providers config)) (\<lambda>_.
     and_then (fail_if (cf_stacks config = []) NoStacks) (\<lambda>_.
     try_each (check_stack_config u config) (cf_stacks config))))))"

text \<open>\<open>Project::load\<close>: reading the file and decoding it may fail.\<close>

definition load ::
  "unicode \<Rightarrow> (string \<Rightarrow> string option) \<Rightarrow> (string \<Rightarrow> project_config option) \<Rightarrow> string \<Rightarrow> project checked" where
  "load u read_file decode_config path =
     (case read_file path of
        None \<Rightarrow> Inl (ConfigUnreadable path)
      | Some source \<Rightarrow>
          (case decode_config source of
             None \<Rightarrow> Inl (ConfigUndecodable path)
           | Some config \<Rightarrow>
               and_then (check_config u config) (\<lambda>_.
               let project = \<lparr>pj_root = project_root path, pj_config = config\<rparr> in
               and_then (check_gate_frontends project) (\<lambda>_. Inr project))))"

section \<open>Directories and targets\<close>

definition workspace_directory :: "project \<Rightarrow> string" where
  "workspace_directory project = path_join (pj_root project) (ws_directory (cf_workspace (pj_config project)))"

definition frontend_directory :: "project \<Rightarrow> frontend \<Rightarrow> string" where
  "frontend_directory project frontend =
     (case frontend of
        PureScript \<Rightarrow>
          (case cf_purescript (pj_config project) of None \<Rightarrow> ''purescript'' | Some config \<Rightarrow> psc_directory config)
      | Lean \<Rightarrow> (case cf_lean (pj_config project) of None \<Rightarrow> ''lean'' | Some config \<Rightarrow> lean_directory config))"

definition default_provider_output :: "project \<Rightarrow> frontend \<Rightarrow> string \<Rightarrow> string" where
  "default_provider_output project frontend name =
     path_join (path_join (path_join (pj_root project) (frontend_directory project frontend)) ''.generated'') name"

definition stack_source_directory :: "project \<Rightarrow> string \<Rightarrow> string checked" where
  "stack_source_directory project name =
     and_then (stack_frontend project name) (\<lambda>frontend.
       Inr (path_join (pj_root project) (frontend_directory project frontend)))"

definition graph_path :: "project \<Rightarrow> string \<Rightarrow> string" where
  "graph_path project name =
     path_join (path_join (pj_root project) (ws_graph_directory (cf_workspace (pj_config project))))
       (name @ ''.json'')"

text \<open>Of the Lean emitter: its toolchain, and where a generated package finds the core library.\<close>

definition LEAN_TOOLCHAIN :: string where
  "LEAN_TOOLCHAIN = ''leanprover/lean4:v4.33.1''"

datatype core_dependency = CorePath string | CoreGit string string "string option"

definition INFRAME_REPOSITORY :: string where
  "INFRAME_REPOSITORY = ''https://github.com/by77er/inframe''"

definition lean_core_dependency :: "string \<Rightarrow> project \<Rightarrow> string \<Rightarrow> core_dependency checked" where
  "lean_core_dependency cwd project output_directory =
     (case cf_lean (pj_config project) of
        None \<Rightarrow> Inl (MissingFrontend Lean)
      | Some lean \<Rightarrow>
          let core = lean_core lean in
          (case core_path core of
             Some path \<Rightarrow> Inr (CorePath (relative_path cwd output_directory (path_join (pj_root project) path)))
           | None \<Rightarrow>
               Inr (CoreGit (case core_git core of None \<Rightarrow> INFRAME_REPOSITORY | Some url \<Rightarrow> url)
                 (case core_rev core of None \<Rightarrow> ''main'' | Some revision \<Rightarrow> revision)
                 (Some (case core_subdir core of None \<Rightarrow> ''lean'' | Some subdir \<Rightarrow> subdir)))))"

record frontend_target =
  ft_frontend :: frontend
  ft_module_root :: string
  ft_output :: string
  ft_lean_core :: "core_dependency option"

record provider_generation =
  pg_name :: string
  pg_source :: string
  pg_version :: string
  pg_strip_prefix :: "string option"
  pg_targets :: "frontend_target list"

text \<open>The command line's own \<open>pascal_case\<close>.\<close>

definition cli_pascal_case :: "string \<Rightarrow> string" where
  "cli_pascal_case value =
     concat (map capitalized
       (filter (\<lambda>part. part \<noteq> []) (split_where (\<lambda>c. \<not> is_ascii_alphanumeric c) value)))"

definition frontend_target_of ::
  "string \<Rightarrow> project \<Rightarrow> string \<Rightarrow> provider_settings \<Rightarrow> string \<Rightarrow> frontend \<Rightarrow> frontend_target checked" where
  "frontend_target_of cwd project name provider module_root frontend =
     (let configured = (case frontend of PureScript \<Rightarrow> pv_output provider | Lean \<Rightarrow> pv_lean_output provider);
          directory = (case configured of
              None \<Rightarrow> default_provider_output project frontend name
            | Some path \<Rightarrow> path_join (pj_root project) path)
      in and_then
           (case frontend of
              PureScript \<Rightarrow> Inr None
            | Lean \<Rightarrow> and_then (lean_core_dependency cwd project directory) (\<lambda>core. Inr (Some core)))
           (\<lambda>core. Inr \<lparr>ft_frontend = frontend, ft_module_root = module_root, ft_output = directory,
              ft_lean_core = core\<rparr>))"

definition generation_of ::
  "string \<Rightarrow> project \<Rightarrow> frontend list \<Rightarrow> string \<times> provider_settings \<Rightarrow> provider_generation checked" where
  "generation_of cwd project chosen = (\<lambda>(name, provider).
     let module_root = (case pv_module_root provider of None \<Rightarrow> cli_pascal_case name | Some root \<Rightarrow> root)
     in and_then (try_map (frontend_target_of cwd project name provider module_root) chosen) (\<lambda>targets.
          Inr \<lparr>pg_name = name, pg_source = pv_source provider, pg_version = pv_version provider,
            pg_strip_prefix = pv_strip_prefix provider, pg_targets = targets\<rparr>))"

definition provider_generations ::
  "string \<Rightarrow> project \<Rightarrow> string option \<Rightarrow> frontend option \<Rightarrow> provider_generation list checked" where
  "provider_generations cwd project selected frontend =
     and_then
       (case selected of
          Some name \<Rightarrow>
            (case map_of (cf_providers (pj_config project)) name of
               None \<Rightarrow> Inl (UnknownProvider name)
             | Some provider \<Rightarrow> Inr [(name, provider)])
        | None \<Rightarrow> Inr (cf_providers (pj_config project)))
       (\<lambda>providers.
     and_then (fail_if (providers = []) NoProviders) (\<lambda>_.
     let chosen = filter (\<lambda>configured. frontend = None \<or> frontend = Some configured) (frontends project) in
     and_then (fail_if (chosen = []) (FrontendUnavailable frontend)) (\<lambda>_.
     try_map (generation_of cwd project chosen) providers)))"

section \<open>Stacks that read other stacks\<close>

definition check_stack_references :: "project \<Rightarrow> string \<Rightarrow> graph_document \<Rightarrow> unit checked" where
  "check_stack_references project name g =
     try_each (\<lambda>reference.
         if sr_stack reference = name then Inl (OwnOutputs name)
         else fail_if (sr_stack reference \<notin> fst ` set (cf_stacks (pj_config project)))
           (UnknownReference name (sr_stack reference)))
       (stack_references g)"

text \<open>\<open>to_json\<close> is the conversion of a TOML value by \<open>serde_json\<close>, which may fail.\<close>

definition backend_json ::
  "(toml \<Rightarrow> json option) \<Rightarrow> project \<Rightarrow> string \<Rightarrow> (string \<times> (string \<times> json) list) checked" where
  "backend_json to_json project name =
     and_then (stack project name) (\<lambda>config.
     and_then
       (try_map (\<lambda>(key, value).
            case to_json value of None \<Rightarrow> Inl BackendNotJson | Some v \<Rightarrow> Inr (key, v))
          (be_config (sc_backend config)))
       (\<lambda>entries. Inr (be_kind (sc_backend config), im_collect entries)))"

text \<open>\<open>Workspace::new\<close> of \<open>crates/opentofu\<close>: the directory of a stack, whose name it checks itself.\<close>

definition workspace_stack_name :: "string \<Rightarrow> bool" where
  "workspace_stack_name value \<longleftrightarrow>
     value \<noteq> [] \<and> value \<noteq> ''.'' \<and> value \<noteq> ''..'' \<and>
     list_all (\<lambda>c. is_ascii_alphanumeric c \<or> c = CHR ''-'' \<or> c = CHR ''_'') value"

lemma stack_names_agree [simp]: "workspace_stack_name value \<longleftrightarrow> valid_stack_name value"
  by (simp add: workspace_stack_name_def valid_stack_name_def valid_component_name_def)

definition workspace_root :: "string \<Rightarrow> string \<Rightarrow> string checked" where
  "workspace_root base name =
     (if \<not> workspace_stack_name name then Inl (WorkspaceName name)
      else Inr (path_join (path_join base ''stacks'') name))"

definition resolved_backend ::
  "(toml \<Rightarrow> json option) \<Rightarrow> (string \<Rightarrow> string option) \<Rightarrow> project \<Rightarrow> string \<Rightarrow> string \<Rightarrow>
     (string \<times> (string \<times> json) list) checked" where
  "resolved_backend to_json absolute project base name =
     and_then (backend_json to_json project name) (\<lambda>(kind, config).
       if kind \<noteq> ''local'' then Inr (kind, config)
       else
         and_then (workspace_root base name) (\<lambda>root.
         and_then
           (case map_of config ''path'' of
              Some (JString path) \<Rightarrow> Inr (path_join root path)
            | Some _ \<Rightarrow> Inl (StatePathNotString name)
            | None \<Rightarrow> Inr (path_join root ''terraform.tfstate''))
           (\<lambda>state.
         case absolute state of
           None \<Rightarrow> Inl (StatePathUnresolved name)
         | Some state \<Rightarrow> Inr (kind, im_insert ''path'' (JString state) config))))"

definition resolve_references ::
  "(toml \<Rightarrow> json option) \<Rightarrow> (string \<Rightarrow> string option) \<Rightarrow> project \<Rightarrow> graph_document \<Rightarrow> string \<Rightarrow>
     graph_document checked" where
  "resolve_references to_json absolute project g base =
     resolve_stack_references g (resolved_backend to_json absolute project base)"

section \<open>The order to apply stacks in\<close>

type_synonym stack_graphs = "graph_document btree_map"

text \<open>The stacks a stack reads, of those that were built, in the order of its references.\<close>

definition reads :: "stack_graphs \<Rightarrow> string \<Rightarrow> string list" where
  "reads graphs name =
     (case map_of graphs name of
        None \<Rightarrow> []
      | Some g \<Rightarrow> filter (\<lambda>s. map_of graphs s \<noteq> None) (map sr_stack (stack_references g)))"

lemma reads_nodes: "set (reads graphs name) \<subseteq> fst ` set graphs"
proof -
  have "s \<in> fst ` set graphs" if "map_of graphs s = Some g" for s g
    using map_of_SomeD[OF that] by force
  then show ?thesis by (auto simp: reads_def split: option.splits)
qed

lemma reads_key: "reads graphs name \<noteq> [] \<Longrightarrow> name \<in> fst ` set graphs"
  by (cases "map_of graphs name") (force simp: reads_def dest!: map_of_SomeD)+

lemma fewer_unvisited:
  assumes "name \<in> fst ` set graphs" and "name \<notin> set visiting"
  shows "card (fst ` set graphs - set (visiting @ [name])) < card (fst ` set graphs - set visiting)"
  using assms by (intro psubset_card_mono) auto

text \<open>
  \<open>graphs[stack]\<close> panics for a stack that was not built, and \<open>visit_stack\<close> is only called
  for built ones: the stacks it reads are filtered first. The path is passed by value.
\<close>

function (sequential)
  visit_stack :: "stack_graphs \<Rightarrow> string \<Rightarrow> string list \<Rightarrow> string list \<Rightarrow> (string list, string list) result"
  and visit_reads :: "stack_graphs \<Rightarrow> string list \<Rightarrow> string list \<Rightarrow> string list \<Rightarrow>
    (string list, string list) result"
where
  "visit_stack graphs name visiting order =
     (if name \<in> set order then Inr order
      else if name \<in> set visiting then Inl (dropWhile (\<lambda>seen. seen \<noteq> name) visiting @ [name])
      else and_then (visit_reads graphs (reads graphs name) (visiting @ [name]) order)
        (\<lambda>order. Inr (order @ [name])))"
| "visit_reads graphs [] visiting order = Inr order"
| "visit_reads graphs (s # ss) visiting order =
     and_then (visit_stack graphs s visiting order) (visit_reads graphs ss visiting)"
  by pat_completeness auto
termination
proof (relation "measures
    [case_sum (\<lambda>(gs, n, p, d). card (fst ` set gs - set p)) (\<lambda>(gs, ns, p, d). card (fst ` set gs - set p)),
     case_sum (\<lambda>(gs, n, p, d). 1) (\<lambda>(gs, ns, p, d). 2 * length ns)]", goal_cases)
  case (2 graphs name visiting order)
  show ?case
  proof (cases "name \<in> fst ` set graphs")
    case True
    with 2 fewer_unvisited[of name graphs visiting] show ?thesis by simp
  next
    case False
    then have "reads graphs name = []" using reads_key[of graphs name] by blast
    moreover have "fst ` set graphs - set (visiting @ [name]) = fst ` set graphs - set visiting"
      using False by auto
    ultimately show ?thesis by simp
  qed
qed simp_all

declare visit_stack.simps [simp del]

definition stack_order :: "stack_graphs \<Rightarrow> string list checked" where
  "stack_order graphs =
     (case visit_reads graphs (map fst graphs) [] [] of
        Inl cycle \<Rightarrow> Inl (StackCycle cycle)
      | Inr order \<Rightarrow> Inr order)"

end
