(* ===== verification/Sources.thy ===== *)
theory Sources
  imports Prelude
begin

text \<open>
  The newest modification time below a directory, \<open>newest_source_mtime\<close> of
  \<open>crates/cli/src/project.rs\<close>: a loop over a stack of directories, and the maximum it computes.
\<close>

text \<open>
  What a directory holds. An entry may have no metadata, a file no modification time, a directory
  no listing; a symbolic link is not followed, so it is a file. Times are natural numbers.
\<close>

datatype dir_entry =
    NoMetadata
  | FileEntry "nat option"
  | DirectoryEntry "(string \<times> dir_entry) list option"

type_synonym listing = "(string \<times> dir_entry) list option"

definition BUILD_OUTPUT_DIRECTORIES :: "string list" where
  "BUILD_OUTPUT_DIRECTORIES =
     [''.lake'', ''.spago'', ''.inframe'', ''.git'', ''.jj'', ''output'', ''node_modules'', ''target'']"

text \<open>One entry: the directories still to be read, the last one first, and the newest time.\<close>

fun visit_entry :: "string \<times> dir_entry \<Rightarrow> listing list \<times> nat option \<Rightarrow> listing list \<times> nat option" where
  "visit_entry (name, NoMetadata) (pending, newest) = (pending, newest)"
| "visit_entry (name, DirectoryEntry l) (pending, newest) =
     (if List.member BUILD_OUTPUT_DIRECTORIES name then (pending, newest) else (l # pending, newest))"
| "visit_entry (name, FileEntry None) (pending, newest) = (pending, newest)"
| "visit_entry (name, FileEntry (Some t)) (pending, newest) =
     (pending, Some (case newest of None \<Rightarrow> t | Some current \<Rightarrow> max current t))"

definition entries_weight :: "(string \<times> dir_entry) list \<Rightarrow> nat" where
  "entries_weight es = size_list (size_prod (\<lambda>_. 0) size) es"

fun listing_weight :: "listing \<Rightarrow> nat" where
  "listing_weight None = 0"
| "listing_weight (Some es) = entries_weight es"

definition pending_weight :: "listing list \<Rightarrow> nat" where
  "pending_weight ls = sum_list (map (\<lambda>l. Suc (listing_weight l)) ls)"

lemma listing_weight_le: "listing_weight l \<le> size_option (size_list (size_prod (\<lambda>_. 0) size)) l"
  by (cases l) (simp_all add: entries_weight_def)

lemma entry_weight: "e \<in> set es \<Longrightarrow> size (snd e) < Suc (entries_weight es)"
  by (induction es) (auto simp: entries_weight_def)

lemma visit_weight:
  "pending_weight (fst (fold visit_entry es (pending, newest))) \<le> pending_weight pending + entries_weight es"
proof (induction es arbitrary: pending newest)
  case (Cons e es)
  obtain name entry where e: "e = (name, entry)" by fastforce
  obtain pending' newest' where step: "visit_entry e (pending, newest) = (pending', newest')" by fastforce
  have "pending_weight pending' \<le> pending_weight pending + size entry"
    using step by (cases "(e, (pending, newest))" rule: visit_entry.cases; cases entry)
      (auto simp: e pending_weight_def entries_weight_def split: if_splits option.splits intro: le_trans[OF listing_weight_le])
  with Cons[of pending' newest'] show ?case using step by (simp add: e entries_weight_def)
qed (simp add: entries_weight_def)

function (sequential) newest_loop :: "listing list \<Rightarrow> nat option \<Rightarrow> nat option" where
  "newest_loop [] newest = newest"
| "newest_loop (None # pending) newest = newest_loop pending newest"
| "newest_loop (Some es # pending) newest =
     (let (pending, newest) = fold visit_entry es (pending, newest) in newest_loop pending newest)"
  by pat_completeness auto
termination
proof (relation "measure (pending_weight \<circ> fst)")
  fix es pending newest x pending' newest'
  assume "x = fold visit_entry es (pending, newest)" "(pending', newest') = x"
  with visit_weight[of es pending newest] show "((pending', newest'), (Some es # pending, newest)) \<in> measure (pending_weight \<circ> fst)"
    by (simp add: pending_weight_def)
qed (simp_all add: pending_weight_def)

definition newest_source_mtime :: "listing \<Rightarrow> nat option" where
  "newest_source_mtime l = newest_loop [l] None"

section \<open>The newest of all files\<close>

text \<open>The times of the files below a directory that is not build output.\<close>

function (sequential) entry_times :: "string \<times> dir_entry \<Rightarrow> nat set"
  and listing_times :: "listing \<Rightarrow> nat set" where
  "entry_times (name, NoMetadata) = {}"
| "entry_times (name, FileEntry t) = set_option t"
| "entry_times (name, DirectoryEntry l) = (if List.member BUILD_OUTPUT_DIRECTORIES name then {} else listing_times l)"
| "listing_times None = {}"
| "listing_times (Some es) = \<Union> (set (map entry_times es))"
  by pat_completeness auto
termination
proof (relation "measure (case_sum (\<lambda>e. 2 * size (snd e)) (\<lambda>l. 2 * listing_weight l + 1))")
  fix name :: string and l
  show "(Inr l, Inl (name, DirectoryEntry l)) \<in> measure (case_sum (\<lambda>e. 2 * size (snd e)) (\<lambda>l. 2 * listing_weight l + 1))"
    using listing_weight_le[of l] by simp
next
  fix es :: "(string \<times> dir_entry) list" and e
  assume "e \<in> set es"
  with entry_weight[of e es] show "(Inl e, Inr (Some es)) \<in> measure (case_sum (\<lambda>e. 2 * size (snd e)) (\<lambda>l. 2 * listing_weight l + 1))"
    by simp
qed simp

definition newest_of :: "nat set \<Rightarrow> nat option" where
  "newest_of A = (if A = {} then None else Some (Max A))"

lemma times_finite: "finite (entry_times e)" "finite (listing_times l)"
  by (induction e and l rule: entry_times_listing_times.induct) auto

lemma newest_insert:
  "finite A \<Longrightarrow> Some (case newest_of A of None \<Rightarrow> t | Some current \<Rightarrow> max current t) = newest_of (insert t A)"
  by (simp add: newest_of_def max.commute)

lemma visit_times:
  assumes "finite A"
  shows "\<exists>pushed B. fold visit_entry es (pending, newest_of A) = (pushed @ pending, newest_of (A \<union> B)) \<and> finite B \<and>
    B \<union> \<Union> (listing_times ` set pushed) = \<Union> (entry_times ` set es)"
  using assms
proof (induction es arbitrary: A pending)
  case Nil
  then show ?case by (intro exI[of _ "[]"] exI[of _ "{}"]) simp
next
  case (Cons e es)
  obtain name entry where e: "e = (name, entry)" by fastforce
  consider (none) "visit_entry e (pending, newest_of A) = (pending, newest_of A)" "entry_times e = {}"
    | (directory) l where "visit_entry e (pending, newest_of A) = (l # pending, newest_of A)" "entry_times e = listing_times l"
    | (regular) t where "visit_entry e (pending, newest_of A) = (pending, newest_of (insert t A))" "entry_times e = {t}"
  proof (cases "(e, (pending, newest_of A))" rule: visit_entry.cases)
    case (2 n l p m)
    with that(1,2) show ?thesis by (cases "n \<in> set BUILD_OUTPUT_DIRECTORIES") auto
  qed (use that newest_insert[OF Cons.prems] in auto)
  then show ?case
  proof cases
    case none
    with Cons.IH[OF Cons.prems, of pending] show ?thesis by simp
  next
    case directory
    with Cons.IH[OF Cons.prems, of "l # pending"] obtain pushed B where
      "fold visit_entry es (l # pending, newest_of A) = (pushed @ l # pending, newest_of (A \<union> B))" "finite B"
      "B \<union> \<Union> (listing_times ` set pushed) = \<Union> (entry_times ` set es)" by blast
    with directory show ?thesis by (intro exI[of _ "pushed @ [l]"] exI[of _ B]) auto
  next
    case regular
    with Cons.IH[of "insert t A" pending] Cons.prems obtain pushed B where
      "fold visit_entry es (pending, newest_of (insert t A)) = (pushed @ pending, newest_of (insert t A \<union> B))" "finite B"
      "B \<union> \<Union> (listing_times ` set pushed) = \<Union> (entry_times ` set es)" by auto
    with regular show ?thesis by (intro exI[of _ pushed] exI[of _ "insert t B"]) auto
  qed
qed

lemma loop_times: "finite A \<Longrightarrow> newest_loop pending (newest_of A) = newest_of (A \<union> \<Union> (listing_times ` set pending))"
proof (induction pending "newest_of A" arbitrary: A rule: newest_loop.induct)
  case (3 es pending)
  from visit_times[OF "3.prems", of es pending] obtain pushed B where
    visit: "fold visit_entry es (pending, newest_of A) = (pushed @ pending, newest_of (A \<union> B))" "finite B"
      "B \<union> \<Union> (listing_times ` set pushed) = \<Union> (entry_times ` set es)" by blast
  from "3.hyps"[OF visit(1)[symmetric] refl _] visit(2) "3.prems"
  have "newest_loop (pushed @ pending) (newest_of (A \<union> B)) =
      newest_of (A \<union> B \<union> \<Union> (listing_times ` set (pushed @ pending)))" by simp
  also have "A \<union> B \<union> \<Union> (listing_times ` set (pushed @ pending)) = A \<union> \<Union> (listing_times ` set (Some es # pending))"
    using visit(3) by auto
  finally show ?case by (simp add: visit(1))
qed auto

text \<open>The time a graph is compared with is the newest of all files below the stack's package,
  build output left out, in whatever order the directories are read; entries that cannot be read
  do not hide the others.\<close>

lemma newest_is_maximum:
  "newest_source_mtime l = (if listing_times l = {} then None else Some (Max (listing_times l)))"
  using loop_times[of "{}" "[l]"] by (simp add: newest_source_mtime_def newest_of_def)

end
