(* ===== verification/Host.thy ===== *)
theory Host
  imports Sources
begin

text \<open>
  The outside of the program: child processes, files, environment variables and messages. An
  action threads the history of what has been asked of the outside so far and returns a value
  or an error; what the outside answers may depend on all of the history, so a theorem about an
  action holds for every file system and every behaviour of the tools it runs.
\<close>

section \<open>Requests and answers\<close>

datatype io_error = NotFound | OtherIo string

text \<open>\<open>ExitStatus\<close>: the exit code, none when a signal ended the process.\<close>

datatype exit_status = Exited int | Signaled

definition success :: "exit_status \<Rightarrow> bool" where
  "success status \<longleftrightarrow> status = Exited 0"

record process_output =
  po_status :: exit_status
  po_stdout :: string
  po_stderr :: string

record command =
  cm_program :: string
  cm_args :: "string list"
  cm_directory :: string
  cm_environment :: "(string \<times> string) list"

text \<open>
  Processes of the frontends and of OpenTofu are told apart. \<open>ReportedError\<close> is an error
  printed in full to the standard error.
\<close>

datatype event =
    RanFrontend command "(io_error, process_output) result"
  | RanTofu command "(io_error, process_output) result"
  | ReadFile string "(io_error, string) result"
  | WroteFile string string "(io_error, unit) result"
  | RemovedFile string "(io_error, unit) result"
  | CreatedDirectory string "(io_error, unit) result"
  | CreatedTemporary string "(io_error, string) result"
  | Persisted string string "(io_error, unit) result"
  | ReadVariable string "string option"
  | TestedFile string bool
  | TestedDirectory string bool
  | TestedPath string bool
  | ReadModified string "nat option"
  | WalkedDirectory string listing
  | CreatedWorkspace "(io_error, string) result"
  | WrotePackage string "(string \<times> string) list" "(io_error, unit) result"
  | Printed string
  | Warned string
  | ReportedError

type_synonym history = "event list"

record host =
  h_run :: "history \<Rightarrow> command \<Rightarrow> (io_error, process_output) result"
  h_read :: "history \<Rightarrow> string \<Rightarrow> (io_error, string) result"
  h_write :: "history \<Rightarrow> string \<Rightarrow> string \<Rightarrow> (io_error, unit) result"
  h_remove :: "history \<Rightarrow> string \<Rightarrow> (io_error, unit) result"
  h_create :: "history \<Rightarrow> string \<Rightarrow> (io_error, unit) result"
  h_temporary :: "history \<Rightarrow> string \<Rightarrow> (io_error, string) result"
  h_persist :: "history \<Rightarrow> string \<Rightarrow> string \<Rightarrow> (io_error, unit) result"
  h_variable :: "string \<Rightarrow> string option"
  h_is_file :: "history \<Rightarrow> string \<Rightarrow> bool"
  h_is_directory :: "history \<Rightarrow> string \<Rightarrow> bool"
  h_exists :: "history \<Rightarrow> string \<Rightarrow> bool"
  h_modified :: "history \<Rightarrow> string \<Rightarrow> nat option"
  h_tree :: "history \<Rightarrow> string \<Rightarrow> listing"
  h_workspace :: "history \<Rightarrow> (io_error, string) result"
  h_package :: "history \<Rightarrow> string \<Rightarrow> (string \<times> string) list \<Rightarrow> (io_error, unit) result"
  h_absolute :: "string \<Rightarrow> string option"

section \<open>Actions\<close>

type_synonym ('e, 'a) action = "history \<Rightarrow> ('e, 'a) result \<times> history"

definition give :: "'a \<Rightarrow> ('e, 'a) action" where
  "give x h = (Inr x, h)"

definition raise_error :: "'e \<Rightarrow> ('e, 'a) action" where
  "raise_error e h = (Inl e, h)"

definition bind_action :: "('e, 'a) action \<Rightarrow> ('a \<Rightarrow> ('e, 'b) action) \<Rightarrow> ('e, 'b) action" where
  "bind_action m f h = (case m h of (Inl e, h) \<Rightarrow> (Inl e, h) | (Inr x, h) \<Rightarrow> f x h)"

text \<open>A pure result, its error read as another one.\<close>

definition lift_result :: "('d \<Rightarrow> 'e) \<Rightarrow> ('d, 'a) result \<Rightarrow> ('e, 'a) action" where
  "lift_result f r = (case r of Inl d \<Rightarrow> raise_error (f d) | Inr x \<Rightarrow> give x)"

text \<open>Ask, and keep the question with its answer.\<close>

definition ask :: "(history \<Rightarrow> 'a) \<Rightarrow> ('a \<Rightarrow> event) \<Rightarrow> ('e, 'a) action" where
  "ask answer note h = (let x = answer h in (Inr x, h @ [note x]))"

definition say :: "event \<Rightarrow> ('e, unit) action" where
  "say e = ask (\<lambda>_. ()) (\<lambda>_. e)"

definition say_if :: "bool \<Rightarrow> event \<Rightarrow> ('e, unit) action" where
  "say_if b e = (if b then say e else give ())"

definition run_frontend :: "host \<Rightarrow> command \<Rightarrow> ('e, (io_error, process_output) result) action" where
  "run_frontend H c = ask (\<lambda>h. h_run H h c) (RanFrontend c)"

definition run_tofu :: "host \<Rightarrow> command \<Rightarrow> ('e, (io_error, process_output) result) action" where
  "run_tofu H c = ask (\<lambda>h. h_run H h c) (RanTofu c)"

definition read_file :: "host \<Rightarrow> string \<Rightarrow> ('e, (io_error, string) result) action" where
  "read_file H p = ask (\<lambda>h. h_read H h p) (ReadFile p)"

definition write_file :: "host \<Rightarrow> string \<Rightarrow> string \<Rightarrow> ('e, (io_error, unit) result) action" where
  "write_file H p s = ask (\<lambda>h. h_write H h p s) (WroteFile p s)"

definition remove_file :: "host \<Rightarrow> string \<Rightarrow> ('e, (io_error, unit) result) action" where
  "remove_file H p = ask (\<lambda>h. h_remove H h p) (RemovedFile p)"

definition create_directory :: "host \<Rightarrow> string \<Rightarrow> ('e, (io_error, unit) result) action" where
  "create_directory H p = ask (\<lambda>h. h_create H h p) (CreatedDirectory p)"

definition create_temporary :: "host \<Rightarrow> string \<Rightarrow> ('e, (io_error, string) result) action" where
  "create_temporary H p = ask (\<lambda>h. h_temporary H h p) (CreatedTemporary p)"

definition persist_file :: "host \<Rightarrow> string \<Rightarrow> string \<Rightarrow> ('e, (io_error, unit) result) action" where
  "persist_file H p q = ask (\<lambda>h. h_persist H h p q) (Persisted p q)"

definition read_variable :: "host \<Rightarrow> string \<Rightarrow> ('e, string option) action" where
  "read_variable H n = ask (\<lambda>_. h_variable H n) (ReadVariable n)"

definition is_file :: "host \<Rightarrow> string \<Rightarrow> ('e, bool) action" where
  "is_file H p = ask (\<lambda>h. h_is_file H h p) (TestedFile p)"

definition is_directory :: "host \<Rightarrow> string \<Rightarrow> ('e, bool) action" where
  "is_directory H p = ask (\<lambda>h. h_is_directory H h p) (TestedDirectory p)"

definition path_exists :: "host \<Rightarrow> string \<Rightarrow> ('e, bool) action" where
  "path_exists H p = ask (\<lambda>h. h_exists H h p) (TestedPath p)"

definition modified_time :: "host \<Rightarrow> string \<Rightarrow> ('e, nat option) action" where
  "modified_time H p = ask (\<lambda>h. h_modified H h p) (ReadModified p)"

text \<open>Everything below a directory; a temporary directory; all files of a generated package.\<close>

definition walk_directory :: "host \<Rightarrow> string \<Rightarrow> ('e, listing) action" where
  "walk_directory H p = ask (\<lambda>h. h_tree H h p) (WalkedDirectory p)"

definition create_workspace :: "host \<Rightarrow> ('e, (io_error, string) result) action" where
  "create_workspace H = ask (h_workspace H) CreatedWorkspace"

definition write_files_below :: "host \<Rightarrow> string \<Rightarrow> (string \<times> string) list \<Rightarrow> ('e, (io_error, unit) result) action" where
  "write_files_below H p files = ask (\<lambda>h. h_package H h p files) (WrotePackage p files)"

text \<open>An answer that must not be an error.\<close>

definition demand :: "('d \<Rightarrow> 'e) \<Rightarrow> ('e, ('d, 'a) result) action \<Rightarrow> ('e, 'a) action" where
  "demand f m = bind_action m (lift_result f)"

fun each_action :: "('a \<Rightarrow> ('e, 'b) action) \<Rightarrow> 'a list \<Rightarrow> ('e, 'b list) action" where
  "each_action f [] = give []"
| "each_action f (x # xs) = bind_action (f x) (\<lambda>y. bind_action (each_action f xs) (\<lambda>ys. give (y # ys)))"

section \<open>What actions add to the history\<close>

text \<open>\<open>emits P m\<close>: the history grows, by events that satisfy \<open>P\<close>.\<close>

definition emits :: "(event \<Rightarrow> bool) \<Rightarrow> ('e, 'a) action \<Rightarrow> bool" where
  "emits P m \<longleftrightarrow> (\<forall>h. \<exists>es. snd (m h) = h @ es \<and> list_all P es)"

named_theorems emits_intros

lemma emits_give [emits_intros]: "emits P (give x)"
  by (simp add: emits_def give_def)

lemma emits_raise [emits_intros]: "emits P (raise_error e)"
  by (simp add: emits_def raise_error_def)

lemma emits_lift [emits_intros]: "emits P (lift_result f r)"
  by (simp add: lift_result_def emits_intros split: sum.splits)

lemma emits_ask: "(\<And>x. P (note x)) \<Longrightarrow> emits P (ask answer note)"
  by (simp add: emits_def ask_def Let_def)

lemma emits_bind [emits_intros]:
  assumes "emits P m" and "\<And>x. emits P (f x)"
  shows "emits P (bind_action m f)"
  unfolding emits_def
proof
  fix h
  from assms(1) obtain es where es: "snd (m h) = h @ es" "list_all P es" by (auto simp: emits_def)
  show "\<exists>es. snd (bind_action m f h) = h @ es \<and> list_all P es"
  proof (cases "m h")
    case (Pair r h1)
    show ?thesis
    proof (cases r)
      case (Inl e)
      with Pair es show ?thesis by (auto simp: bind_action_def)
    next
      case (Inr x)
      from assms(2)[of x] obtain fs where "snd (f x h1) = h1 @ fs" "list_all P fs" by (auto simp: emits_def)
      with Pair Inr es show ?thesis
        by (intro exI[of _ "es @ fs"]) (simp add: bind_action_def)
    qed
  qed
qed

lemma emits_demand [emits_intros]: "emits P m \<Longrightarrow> emits P (demand f m)"
  unfolding demand_def by (intro emits_intros)

lemma emits_each [emits_intros]: "(\<And>x. emits P (f x)) \<Longrightarrow> emits P (each_action f xs)"
  by (induction xs) (auto intro!: emits_intros)

lemmas action_defs =
  say_def run_frontend_def run_tofu_def read_file_def write_file_def remove_file_def create_directory_def
  create_temporary_def persist_file_def read_variable_def is_file_def is_directory_def path_exists_def
  modified_time_def walk_directory_def create_workspace_def write_files_below_def

lemma emits_if [emits_intros]: "(b \<Longrightarrow> emits P m) \<Longrightarrow> (\<not> b \<Longrightarrow> emits P n) \<Longrightarrow> emits P (if b then m else n)"
  by simp

lemma emits_say_if [emits_intros]: "P e \<Longrightarrow> emits P (say_if b e)"
  by (auto simp: say_if_def say_def intro!: emits_intros emits_ask)

text \<open>Results of composed actions.\<close>

named_theorems action_ok

lemma give_ok [action_ok]: "give x h = (Inr y, h') \<longleftrightarrow> y = x \<and> h' = h"
  by (auto simp: give_def)

lemma raise_ok [action_ok]: "raise_error e h = (Inr y, h') \<longleftrightarrow> False"
  by (simp add: raise_error_def)

lemma lift_ok [action_ok]: "lift_result f r h = (Inr y, h') \<longleftrightarrow> r = Inr y \<and> h' = h"
  by (auto simp: lift_result_def give_def raise_error_def split: sum.splits)

lemma bind_ok [action_ok]:
  "bind_action m f h = (Inr y, h') \<longleftrightarrow> (\<exists>x h1. m h = (Inr x, h1) \<and> f x h1 = (Inr y, h'))"
  by (auto simp: bind_action_def split: prod.splits sum.splits)

lemma ask_ok [action_ok]: "ask answer note h = (Inr y, h') \<longleftrightarrow> y = answer h \<and> h' = h @ [note y]"
  by (auto simp: ask_def Let_def)

lemma demand_ok [action_ok]: "demand f m h = (Inr y, h') \<longleftrightarrow> m h = (Inr (Inr y), h')"
  by (auto simp: demand_def action_ok)

text \<open>
  When an event of a kind an action does not emit is in the history after it and what follows,
  the action succeeded and what follows was reached.
\<close>

lemma bind_reaches:
  assumes "emits (\<lambda>e. \<not> P e) m" and "bind_action m f h = (r, h')"
    and "list_ex P h'" and "\<not> list_ex P h"
  obtains x h1 where "m h = (Inr x, h1)" and "f x h1 = (r, h')" and "\<not> list_ex P h1"
proof -
  obtain q h1 where m: "m h = (q, h1)" by fastforce
  with assms(1) obtain es where "h1 = h @ es" "list_all (\<lambda>e. \<not> P e) es"
    unfolding emits_def by (metis snd_conv)
  with assms(4) have none: "\<not> list_ex P h1" by (auto simp: list_all_iff list_ex_iff)
  show ?thesis
  proof (cases q)
    case (Inl e)
    with m assms(2,3) none show ?thesis by (simp add: bind_action_def)
  next
    case (Inr x)
    with m assms(2) have "f x h1 = (r, h')" by (simp add: bind_action_def)
    with that m Inr none show ?thesis by blast
  qed
qed

lemma emits_extends: "emits P m \<Longrightarrow> m h = (r, h') \<Longrightarrow> \<exists>es. h' = h @ es \<and> list_all P es"
  unfolding emits_def by (metis snd_conv)

end
