(* ===== verification/Graph_Json.thy ===== *)
theory Graph_Json
  imports Graph_IR Text_Lines
begin

text \<open>
  Graph documents as JSON (\<open>crates/graph-ir/src/lib.rs\<close>): the encoding that the \<open>serde\<close> attributes
  of the data model ask for, the canonical text of a document, and the derived equality of
  documents. A canonical text identifies a document up to that equality.
\<close>

section \<open>Encoding\<close>

text \<open>
  An object with the given fields in their order, less those that are skipped
  (\<open>skip_serializing_if\<close>).
\<close>

definition present :: "(string \<times> json option) list \<Rightarrow> (string \<times> json) list" where
  "present members = List.map_filter (\<lambda>(name, v). map_option (Pair name) v) members"

definition object_of :: "(string \<times> json option) list \<Rightarrow> json" where
  "object_of members = JObject (present members)"

definition flag_field :: "bool \<Rightarrow> json option" where
  "flag_field b = (if b then Some (JBool True) else None)"

definition list_field :: "('a \<Rightarrow> json) \<Rightarrow> 'a list \<Rightarrow> json option" where
  "list_field f xs = (if xs = [] then None else Some (JArray (map f xs)))"

definition encode_map :: "('v \<Rightarrow> json) \<Rightarrow> 'v btree_map \<Rightarrow> json" where
  "encode_map f m = JObject (map (\<lambda>(k, v). (k, f v)) m)"

definition encode_address :: "address \<Rightarrow> json" where
  "encode_address a = JString (display_address a)"

text \<open>\<open>Address\<close> reads itself back; the message of a text that is no address is left out.\<close>

definition decode_address :: "json \<Rightarrow> address option" where
  "decode_address v =
     (case v of
        JString s \<Rightarrow> (case parse_address s of Inl _ \<Rightarrow> None | Inr a \<Rightarrow> Some a)
      | _ \<Rightarrow> None)"

abbreviation encode_texts :: "string list \<Rightarrow> json" where
  "encode_texts xs \<equiv> JArray (map JString xs)"

text \<open>Expressions and the parts of templates are tagged with their kind.\<close>

fun encode_expr :: "expr \<Rightarrow> json"
  and encode_part :: "template_part \<Rightarrow> json" where
  "encode_expr (Literal v) = object_of [(''kind'', Some (JString ''literal'')), (''value'', Some v)]"
| "encode_expr (ResourceAttr a path) =
     object_of [(''kind'', Some (JString ''resource_attr'')), (''address'', Some (encode_address a)),
       (''path'', Some (encode_texts path))]"
| "encode_expr (DataSourceAttr a path) =
     object_of [(''kind'', Some (JString ''data_source_attr'')), (''address'', Some (encode_address a)),
       (''path'', Some (encode_texts path))]"
| "encode_expr (Array items) =
     object_of [(''kind'', Some (JString ''array'')), (''items'', Some (JArray (map encode_expr items)))]"
| "encode_expr (Object members) =
     object_of [(''kind'', Some (JString ''object'')),
       (''fields'', Some (JObject (map (\<lambda>(k, e). (k, encode_expr e)) members)))]"
| "encode_expr (Index collection key) =
     object_of [(''kind'', Some (JString ''index'')), (''collection'', Some (encode_expr collection)),
       (''key'', Some (encode_expr key))]"
| "encode_expr (Attribute e name) =
     object_of [(''kind'', Some (JString ''attribute'')), (''of'', Some (encode_expr e)), (''name'', Some (JString name))]"
| "encode_expr (Splat e) = object_of [(''kind'', Some (JString ''splat'')), (''of'', Some (encode_expr e))]"
| "encode_expr (Conditional condition when_true when_false) =
     object_of [(''kind'', Some (JString ''conditional'')), (''condition'', Some (encode_expr condition)),
       (''when_true'', Some (encode_expr when_true)), (''when_false'', Some (encode_expr when_false))]"
| "encode_expr (Function name args) =
     object_of [(''kind'', Some (JString ''function'')), (''name'', Some (JString name)),
       (''args'', Some (JArray (map encode_expr args)))]"
| "encode_expr (Template parts) =
     object_of [(''kind'', Some (JString ''template'')), (''parts'', Some (JArray (map encode_part parts)))]"
| "encode_expr (SecretEnv name) = object_of [(''kind'', Some (JString ''secret_env'')), (''name'', Some (JString name))]"
| "encode_expr (UnsafeRaw expression) =
     object_of [(''kind'', Some (JString ''unsafe_raw'')), (''expression'', Some (JString expression))]"
| "encode_part (TextPart v) = object_of [(''kind'', Some (JString ''literal'')), (''value'', Some (JString v))]"
| "encode_part (Interpolation e) =
     object_of [(''kind'', Some (JString ''interpolation'')), (''expression'', Some (encode_expr e))]"

definition encode_requirement :: "provider_requirement \<Rightarrow> json" where
  "encode_requirement r = object_of [(''source'', Some (JString (pr_source r))), (''version'', Some (JString (pr_version r)))]"

definition encode_config :: "provider_config \<Rightarrow> json" where
  "encode_config c =
     object_of [(''provider'', Some (JString (pc_provider c))), (''alias'', map_option JString (pc_alias c)),
       (''arguments'', Some (encode_map encode_expr (pc_arguments c)))]"

definition encode_lifecycle :: "lifecycle \<Rightarrow> json" where
  "encode_lifecycle l =
     object_of [(''create_before_destroy'', flag_field (create_before_destroy l)),
       (''prevent_destroy'', flag_field (prevent_destroy l)), (''ignore_changes'', list_field JString (ignore_changes l)),
       (''replace_triggered_by'', list_field encode_address (replace_triggered_by l))]"

definition encode_resource :: "resource_spec \<Rightarrow> json" where
  "encode_resource r =
     object_of [(''type'', Some (JString (rs_type r))), (''name'', Some (JString (rs_name r))),
       (''arguments'', Some (encode_map encode_expr (rs_arguments r))),
       (''depends_on'', Some (JArray (map encode_address (rs_depends_on r)))),
       (''provider'', map_option JString (rs_provider r)), (''lifecycle'', map_option encode_lifecycle (rs_lifecycle r))]"

definition encode_data_source :: "data_source_spec \<Rightarrow> json" where
  "encode_data_source d =
     object_of [(''type'', Some (JString (ds_type d))), (''name'', Some (JString (ds_name d))),
       (''arguments'', Some (encode_map encode_expr (ds_arguments d))),
       (''depends_on'', Some (JArray (map encode_address (ds_depends_on d)))),
       (''provider'', map_option JString (ds_provider d))]"

definition encode_output :: "output_spec \<Rightarrow> json" where
  "encode_output out =
     object_of [(''value'', Some (encode_expr (os_value out))), (''sensitive'', flag_field (os_sensitive out)),
       (''description'', map_option JString (os_description out))]"

definition encode_move :: "move_spec \<Rightarrow> json" where
  "encode_move m = object_of [(''from'', Some (encode_address (move_from m))), (''to'', Some (encode_address (move_to m)))]"

definition encode_import :: "import_spec \<Rightarrow> json" where
  "encode_import i = object_of [(''to'', Some (encode_address (import_to i))), (''id'', Some (JString (import_id i)))]"

definition encode_reference :: "stack_reference \<Rightarrow> json" where
  "encode_reference s = object_of [(''stack'', Some (JString (sr_stack s)))]"

definition encode_graph :: "graph_document \<Rightarrow> json" where
  "encode_graph g =
     object_of [(''format_version'', Some (JString (format_version g))),
       (''required_providers'', Some (encode_map encode_requirement (required_providers g))),
       (''provider_configs'', Some (JArray (map encode_config (provider_configs g)))),
       (''resources'', Some (JArray (map encode_resource (resources g)))),
       (''data_sources'', Some (JArray (map encode_data_source (data_sources g)))),
       (''outputs'', Some (encode_map encode_output (outputs g))),
       (''moves'', Some (JArray (map encode_move (moves g)))),
       (''imports'', list_field encode_import (graph_imports g)),
       (''stack_references'', list_field encode_reference (stack_references g))]"

text \<open>\<open>pretty\<close> is \<open>serde_json\<close>'s printer.\<close>

definition to_canonical_json :: "(json \<Rightarrow> string) \<Rightarrow> graph_document \<Rightarrow> string" where
  "to_canonical_json pretty g = pretty (sort_json (encode_graph g)) @ nl"

section \<open>Equality\<close>

text \<open>
  Equality of graphs compares literals as \<open>serde_json\<close> does, objects by key, and everything else
  as it is.
\<close>

lemma zip_entry_size [termination_simp]:
  "(a, b) \<in> set (zip (map snd xs) ys) \<Longrightarrow> size a < Suc (size_list (\<lambda>x. Suc (size (snd x))) xs)"
  by (induction xs ys rule: list_induct2') auto

lemma zip_part_size [termination_simp]:
  "(Interpolation a, q) \<in> set (zip ps qs) \<Longrightarrow> size a < Suc (size_list size ps)"
  by (induction ps qs rule: list_induct2') auto

function (sequential) expr_equal :: "expr \<Rightarrow> expr \<Rightarrow> bool" where
  "expr_equal (Literal v) o2 \<longleftrightarrow> (case o2 of Literal w \<Rightarrow> json_equal v w | _ \<Rightarrow> False)"
| "expr_equal (Array xs) o2 \<longleftrightarrow>
     (case o2 of
        Array ys \<Rightarrow> length xs = length ys \<and> list_all (\<lambda>(x, y). expr_equal x y) (zip xs ys)
      | _ \<Rightarrow> False)"
| "expr_equal (Object fs) o2 \<longleftrightarrow>
     (case o2 of
        Object gs \<Rightarrow> map fst fs = map fst gs \<and> list_all (\<lambda>(x, y). expr_equal x y) (zip (map snd fs) (map snd gs))
      | _ \<Rightarrow> False)"
| "expr_equal (Index c k) o2 \<longleftrightarrow> (case o2 of Index d l \<Rightarrow> expr_equal c d \<and> expr_equal k l | _ \<Rightarrow> False)"
| "expr_equal (Attribute e n) o2 \<longleftrightarrow> (case o2 of Attribute f m \<Rightarrow> expr_equal e f \<and> n = m | _ \<Rightarrow> False)"
| "expr_equal (Splat e) o2 \<longleftrightarrow> (case o2 of Splat f \<Rightarrow> expr_equal e f | _ \<Rightarrow> False)"
| "expr_equal (Conditional c t f) o2 \<longleftrightarrow>
     (case o2 of Conditional d u g \<Rightarrow> expr_equal c d \<and> expr_equal t u \<and> expr_equal f g | _ \<Rightarrow> False)"
| "expr_equal (Function n xs) o2 \<longleftrightarrow>
     (case o2 of
        Function m ys \<Rightarrow> n = m \<and> length xs = length ys \<and> list_all (\<lambda>(x, y). expr_equal x y) (zip xs ys)
      | _ \<Rightarrow> False)"
| "expr_equal (Template ps) o2 \<longleftrightarrow>
     (case o2 of
        Template qs \<Rightarrow>
          length ps = length qs \<and>
          list_all (\<lambda>(p, q).
              case p of
                Interpolation x \<Rightarrow> (case q of Interpolation y \<Rightarrow> expr_equal x y | TextPart _ \<Rightarrow> False)
              | TextPart s \<Rightarrow> q = TextPart s)
            (zip ps qs)
      | _ \<Rightarrow> False)"
| "expr_equal e o2 \<longleftrightarrow> e = o2"
  by pat_completeness auto
termination
  by (relation "measure (\<lambda>(e, f). size e)") (auto simp: termination_simp)

definition args_equal :: "expr btree_map \<Rightarrow> expr btree_map \<Rightarrow> bool" where
  "args_equal xs ys \<longleftrightarrow> map fst xs = map fst ys \<and> list_all2 expr_equal (map snd xs) (map snd ys)"

definition config_equal :: "provider_config \<Rightarrow> provider_config \<Rightarrow> bool" where
  "config_equal a b \<longleftrightarrow>
     pc_provider a = pc_provider b \<and> pc_alias a = pc_alias b \<and> args_equal (pc_arguments a) (pc_arguments b)"

definition resource_equal :: "resource_spec \<Rightarrow> resource_spec \<Rightarrow> bool" where
  "resource_equal a b \<longleftrightarrow>
     rs_type a = rs_type b \<and> rs_name a = rs_name b \<and> args_equal (rs_arguments a) (rs_arguments b) \<and>
     rs_depends_on a = rs_depends_on b \<and> rs_provider a = rs_provider b \<and> rs_lifecycle a = rs_lifecycle b"

definition data_source_equal :: "data_source_spec \<Rightarrow> data_source_spec \<Rightarrow> bool" where
  "data_source_equal a b \<longleftrightarrow>
     ds_type a = ds_type b \<and> ds_name a = ds_name b \<and> args_equal (ds_arguments a) (ds_arguments b) \<and>
     ds_depends_on a = ds_depends_on b \<and> ds_provider a = ds_provider b"

definition output_equal :: "output_spec \<Rightarrow> output_spec \<Rightarrow> bool" where
  "output_equal a b \<longleftrightarrow>
     expr_equal (os_value a) (os_value b) \<and> os_sensitive a = os_sensitive b \<and> os_description a = os_description b"

definition graph_equal :: "graph_document \<Rightarrow> graph_document \<Rightarrow> bool" where
  "graph_equal g h \<longleftrightarrow>
     format_version g = format_version h \<and> required_providers g = required_providers h \<and>
     list_all2 config_equal (provider_configs g) (provider_configs h) \<and>
     list_all2 resource_equal (resources g) (resources h) \<and>
     list_all2 data_source_equal (data_sources g) (data_sources h) \<and>
     map fst (outputs g) = map fst (outputs h) \<and>
     list_all2 output_equal (map snd (outputs g)) (map snd (outputs h)) \<and>
     moves g = moves h \<and> graph_imports g = graph_imports h \<and> stack_references g = stack_references h"

end
