(* ===== verification/Project_Run.thy ===== *)
theory Project_Run
  imports Project Lower Host Graph_Json
begin

text \<open>
  What a project does to its stacks: compiling one to its graph, running its tests and its
  deployment gate (\<open>Project::render\<close>, \<open>build\<close>, \<open>test\<close>, \<open>run_gate\<close> of
  \<open>crates/cli/src/project.rs\<close>) as actions on the outside.
\<close>

section \<open>What the code relies on\<close>

text \<open>
  The decoders and encoders of \<open>serde\<close>, \<open>serde_json\<close> and \<open>toml\<close>, the Unicode tables and the
  display of an exit status.
\<close>

record library =
  lib_unicode :: unicode
  lib_config :: "string \<Rightarrow> project_config option"
  lib_graph :: "string \<Rightarrow> graph_document option"
  lib_toml :: "toml \<Rightarrow> json option"
  lib_string :: "json \<Rightarrow> string"
  lib_pretty :: "json \<Rightarrow> string"
  lib_json :: "string \<Rightarrow> json option"
  lib_status :: "exit_status \<Rightarrow> string"

datatype failure =
    ProjectFailure project_error
  | GraphInvalid validation_error
  | LoweringFailed lower_error
  | ToolNotFound string
  | ToolNotStarted string
  | ToolFailed string
  | NotGraphDocument string
  | FileFailed string io_error
  | DirectoryUnresolved string
  | NoTestEntry string
  | NoGate string
  | GatePathNotPlain string
  | GateGraphUnread string
  | GateGraphDiffers string
  | TestsFailed string exit_status
  | GateFailed string failure
  | StacksFailed "string list"
  | TestsExit int
  | TestsSignaled string
  | BackendKind string
  | VariableUnset string
  | TofuNotFound string
  | TofuNotStarted
  | TofuExit string exit_status
  | TofuNotJson
  | NoSubcommand
  | WorkspaceMissing string
  | InputUnreadable string
  | NothingSelected
  | NoBuiltGraph string failure
  | AlreadyExists string

section \<open>Child processes\<close>

definition render_command :: "command \<Rightarrow> string" where
  "render_command c = join '' '' (cm_program c # cm_args c)"

definition child_failure_report :: "library \<Rightarrow> string \<Rightarrow> command \<Rightarrow> string \<Rightarrow> process_output \<Rightarrow> string" where
  "child_failure_report L headline c directory out =
     headline @ '' ('' @ lib_status L (po_status out) @ '')'' @ nl @
     ''command: '' @ render_command c @ nl @ ''directory: '' @ directory @ nl @
     (if blank (po_stderr out) then
        ''stderr: (empty)'' @ nl @
        (if blank (po_stdout out) then []
         else
           let ls = text_lines (po_stdout out)
           in ''stdout (tail):'' @ nl @ join nl (drop (length ls - 20) ls) @ nl)
      else ''stderr:'' @ nl @ trim_end (po_stderr out) @ nl)"

definition frontend_tool :: "frontend \<Rightarrow> string" where
  "frontend_tool frontend = (case frontend of PureScript \<Rightarrow> ''spago'' | Lean \<Rightarrow> ''lake'')"

definition frontend_name :: "frontend \<Rightarrow> string" where
  "frontend_name frontend = (case frontend of PureScript \<Rightarrow> ''PureScript'' | Lean \<Rightarrow> ''Lean'')"

definition spago :: "project \<Rightarrow> purescript_config \<Rightarrow> string \<Rightarrow> string \<Rightarrow> command" where
  "spago project config subcommand main =
     \<lparr>cm_program = ''spago'',
      cm_args = [subcommand, ''-p'', psc_package config, ''--main'', main, ''--quiet''],
      cm_directory = path_join (pj_root project) (psc_directory config), cm_environment = []\<rparr>"

definition lake :: "project \<Rightarrow> lean_config \<Rightarrow> string \<Rightarrow> command" where
  "lake project config executable =
     \<lparr>cm_program = ''lake'', cm_args = [''-q'', ''exe'', executable],
      cm_directory = path_join (pj_root project) (lean_directory config), cm_environment = []\<rparr>"

definition purescript_config_of :: "project \<Rightarrow> purescript_config checked" where
  "purescript_config_of project =
     (case cf_purescript (pj_config project) of None \<Rightarrow> Inl (MissingFrontend PureScript) | Some config \<Rightarrow> Inr config)"

definition lean_config_of :: "project \<Rightarrow> lean_config checked" where
  "lean_config_of project =
     (case cf_lean (pj_config project) of None \<Rightarrow> Inl (MissingFrontend Lean) | Some config \<Rightarrow> Inr config)"

definition unwrap_or :: "'a option \<Rightarrow> 'a \<Rightarrow> 'a" where
  "unwrap_or x d = (case x of None \<Rightarrow> d | Some v \<Rightarrow> v)"

abbreviation checked :: "'a checked \<Rightarrow> (failure, 'a) action" where
  "checked \<equiv> lift_result ProjectFailure"

text \<open>A process that must start and succeed, its output captured.\<close>

definition run_captured :: "host \<Rightarrow> library \<Rightarrow> string \<Rightarrow> string \<Rightarrow> command \<Rightarrow> string \<Rightarrow> (failure, process_output) action" where
  "run_captured H L tool headline c directory =
     bind_action (run_frontend H c) (\<lambda>out.
       case out of
         Inl NotFound \<Rightarrow> raise_error (ToolNotFound tool)
       | Inl (OtherIo e) \<Rightarrow> raise_error (ToolNotStarted tool)
       | Inr out \<Rightarrow>
           if success (po_status out) then give out
           else raise_error (ToolFailed (child_failure_report L headline c directory out)))"

section \<open>Compiling a stack\<close>

definition warn_toolchain_mismatch :: "host \<Rightarrow> string \<Rightarrow> (failure, unit) action" where
  "warn_toolchain_mismatch H directory =
     (let path = path_join directory ''lean-toolchain'' in
      bind_action (read_file H path) (\<lambda>pinned.
        case pinned of
          Inl _ \<Rightarrow> give ()
        | Inr pinned \<Rightarrow>
            let pinned = trim pinned in
            say_if (pinned \<noteq> [] \<and> pinned \<noteq> LEAN_TOOLCHAIN)
              (Warned (''warning: '' @ path @ '' pins '' @ ticked pinned @
                '' but the inframe core library is built with '' @ ticked LEAN_TOOLCHAIN @
                ''; pin the same toolchain to build against the core'' @ [CHR 0x27] @ ''s compiled modules''))))"

text \<open>The command that prints a stack's graph.\<close>

definition render_main :: "host \<Rightarrow> project \<Rightarrow> stack_config \<Rightarrow> frontend \<Rightarrow> (failure, command) action" where
  "render_main H project config frontend =
     (case frontend of
        PureScript \<Rightarrow>
          bind_action (checked (purescript_config_of project)) (\<lambda>purescript.
            give (spago project purescript ''run'' (unwrap_or (sc_main config) (psc_main purescript))))
      | Lean \<Rightarrow>
          bind_action (checked (lean_config_of project)) (\<lambda>lean.
          bind_action (warn_toolchain_mismatch H (path_join (pj_root project) (lean_directory lean))) (\<lambda>_.
            give (lake project lean (unwrap_or (sc_main config) (lean_main lean))))))"

definition decode_graph :: "library \<Rightarrow> string \<Rightarrow> process_output \<Rightarrow> (failure, graph_document) action" where
  "decode_graph L name out =
     (case lib_graph L (po_stdout out) of
        None \<Rightarrow> raise_error (NotGraphDocument name)
      | Some g \<Rightarrow> give g)"

definition render_stack :: "host \<Rightarrow> library \<Rightarrow> project \<Rightarrow> string \<Rightarrow> (failure, graph_document) action" where
  "render_stack H L project name =
     bind_action (checked (stack project name)) (\<lambda>config.
     bind_action (checked (stack_frontend project name)) (\<lambda>frontend.
     bind_action (render_main H project config frontend) (\<lambda>c.
     let tool = frontend_tool frontend;
         directory = path_join (pj_root project) (frontend_directory project frontend) in
     bind_action (run_captured H L tool (ticked tool @ '' failed while building stack '' @ ticked name) c directory) (\<lambda>out.
     bind_action (decode_graph L name out) (\<lambda>g.
     bind_action (lift_result GraphInvalid (validate g)) (\<lambda>_.
     bind_action (checked (check_stack_references project name g)) (\<lambda>_.
     give g)))))))"

definition create_parent :: "host \<Rightarrow> string \<Rightarrow> (failure, unit) action" where
  "create_parent H path =
     (case path_parent path of
        None \<Rightarrow> give ()
      | Some parent \<Rightarrow>
          if parent = [] then give () else demand (FileFailed parent) (create_directory H parent))"

definition write_graph :: "host \<Rightarrow> library \<Rightarrow> string \<Rightarrow> graph_document \<Rightarrow> (failure, unit) action" where
  "write_graph H L path g =
     bind_action (create_parent H path) (\<lambda>_.
     demand (FileFailed path) (write_file H path (to_canonical_json (lib_pretty L) g)))"

definition build :: "host \<Rightarrow> library \<Rightarrow> project \<Rightarrow> string \<Rightarrow> string option \<Rightarrow> (failure, graph_document \<times> string) action" where
  "build H L project name override =
     bind_action (render_stack H L project name) (\<lambda>g.
     let path = unwrap_or override (graph_path project name) in
     bind_action (write_graph H L path g) (\<lambda>_.
     give (g, path)))"

section \<open>Tests\<close>

definition test_entry_point :: "project \<Rightarrow> string \<Rightarrow> string option checked" where
  "test_entry_point project name =
     and_then (stack project name) (\<lambda>config.
     and_then (stack_frontend project name) (\<lambda>frontend.
     and_then
       (case frontend of
          PureScript \<Rightarrow> and_then (purescript_config_of project) (\<lambda>purescript. Inr (psc_test purescript))
        | Lean \<Rightarrow> and_then (lean_config_of project) (\<lambda>lean. Inr (lean_test lean)))
       (\<lambda>default_test.
     Inr (case sc_test config of Some t \<Rightarrow> Some t | None \<Rightarrow> default_test))))"

definition test_command :: "project \<Rightarrow> frontend \<Rightarrow> string \<Rightarrow> command checked" where
  "test_command project frontend t =
     (case frontend of
        PureScript \<Rightarrow> and_then (purescript_config_of project) (\<lambda>purescript. Inr (spago project purescript ''test'' t))
      | Lean \<Rightarrow> and_then (lean_config_of project) (\<lambda>lean. Inr (lake project lean t)))"

definition test_stack :: "host \<Rightarrow> project \<Rightarrow> string \<Rightarrow> (failure, exit_status) action" where
  "test_stack H project name =
     bind_action (checked (stack_frontend project name)) (\<lambda>frontend.
     bind_action (checked (case frontend of
         PureScript \<Rightarrow> and_then (purescript_config_of project) (\<lambda>_. Inr ())
       | Lean \<Rightarrow> and_then (lean_config_of project) (\<lambda>_. Inr ()))) (\<lambda>_.
     bind_action (checked (test_entry_point project name)) (\<lambda>entry.
     case entry of
       None \<Rightarrow> raise_error (NoTestEntry name)
     | Some t \<Rightarrow>
         bind_action (checked (test_command project frontend t)) (\<lambda>c.
         bind_action (run_frontend H c) (\<lambda>out.
         case out of
           Inl NotFound \<Rightarrow> raise_error (ToolNotFound (frontend_tool frontend))
         | Inl (OtherIo e) \<Rightarrow> raise_error (ToolNotStarted (frontend_tool frontend))
         | Inr out \<Rightarrow> give (po_status out))))))"

section \<open>The deployment gate\<close>

definition gate :: "project \<Rightarrow> string \<Rightarrow> gate_config option checked" where
  "gate project name = and_then (stack project name) (\<lambda>config. Inr (sc_gate config))"

definition gate_check :: "string \<Rightarrow> gate_config \<Rightarrow> string" where
  "gate_check name g =
     (case gate_proof g of
        Some proof \<Rightarrow>
          text_of_lines
            [''/-- The gate of stack '' @ ticked name @ '', stated by Inframe and proved by '' @ ticked proof @ ''. -/'',
             ''theorem InframeGate.holds : Inframe.Gated ('' @ gate_policy g @ '') ('' @ gate_program g @ '') := ('' @ proof @ '')'',
             '''',
             ''#assert_standard_axioms InframeGate.holds'']
      | None \<Rightarrow>
          text_of_lines
            [''#assert_valid (Inframe.buildGraph ('' @ gate_program g @ ''))'',
             ''#assert_policy ('' @ gate_policy g @ '') (Inframe.buildGraph ('' @ gate_program g @ ''))'',
             ''#assert_standard_axioms''])"

definition escape_gate_path :: "string \<Rightarrow> string" where
  "escape_gate_path path =
     replace_with (CHR 0x22) [CHR 0x5C, CHR 0x22] (replace_with (CHR 0x5C) [CHR 0x5C, CHR 0x5C] path)"

definition gate_source :: "library \<Rightarrow> string \<Rightarrow> gate_config \<Rightarrow> string \<Rightarrow> (failure, string) result" where
  "gate_source L name g graph_file =
     (if list_ex (control (lib_unicode L)) (text_chars graph_file) then Inl (GatePathNotPlain graph_file)
      else Inr (text_of_lines
        [''-- Written by '' @ ticked ''inframe'' @ '' for stack '' @ ticked name @ '' on every run; edits are overwritten.'',
         ''import Inframe.Gate'',
         ''import '' @ gate_module g,
         ''''] @ gate_check name g @ text_of_lines
        [''#assert_compiled_as_proved'',
         '''',
         ''#eval Inframe.writeGraph '' @ quote_mark @ escape_gate_path graph_file @ quote_mark @
           '' ('' @ gate_program g @ '')'']))"

section \<open>Running the gate\<close>

definition lake_build :: "string \<Rightarrow> gate_config \<Rightarrow> command" where
  "lake_build directory g =
     \<lparr>cm_program = ''lake'', cm_args = [''-q'', ''build'', ''Inframe.Gate'', gate_module g],
      cm_directory = directory, cm_environment = []\<rparr>"

definition lake_check :: "string \<Rightarrow> string \<Rightarrow> command" where
  "lake_check directory source_path =
     \<lparr>cm_program = ''lake'', cm_args = [''env'', ''lean'', source_path],
      cm_directory = directory, cm_environment = []\<rparr>"

definition remove_stale :: "host \<Rightarrow> string \<Rightarrow> (failure, unit) action" where
  "remove_stale H path =
     bind_action (remove_file H path) (\<lambda>r.
       case r of
         Inr _ \<Rightarrow> give ()
       | Inl NotFound \<Rightarrow> give ()
       | Inl (OtherIo e) \<Rightarrow> raise_error (FileFailed path (OtherIo e)))"

definition absolute_path :: "host \<Rightarrow> string \<Rightarrow> (failure, string) action" where
  "absolute_path H path =
     (case h_absolute H path of None \<Rightarrow> raise_error (DirectoryUnresolved path) | Some p \<Rightarrow> give p)"

definition read_graph_file :: "host \<Rightarrow> library \<Rightarrow> string \<Rightarrow> string \<Rightarrow> (failure, graph_document) action" where
  "read_graph_file H L name path =
     bind_action (read_file H path) (\<lambda>r.
       case r of
         Inl _ \<Rightarrow> raise_error (GateGraphUnread name)
       | Inr bytes \<Rightarrow>
           (case lib_graph L bytes of None \<Rightarrow> raise_error (GateGraphUnread name) | Some g \<Rightarrow> give g))"

definition run_gate :: "host \<Rightarrow> library \<Rightarrow> project \<Rightarrow> string \<Rightarrow> graph_document \<Rightarrow> (failure, unit) action" where
  "run_gate H L project name emitted =
     bind_action (checked (gate project name)) (\<lambda>g.
     case g of
       None \<Rightarrow> raise_error (NoGate name)
     | Some g \<Rightarrow>
     bind_action (checked (lean_config_of project)) (\<lambda>lean.
     let directory = path_join (pj_root project) (lean_directory lean);
         gate_directory = path_join (path_join (workspace_directory project) ''gates'') name in
     bind_action (demand (FileFailed gate_directory) (create_directory H gate_directory)) (\<lambda>_.
     bind_action (absolute_path H gate_directory) (\<lambda>gate_directory.
     let source_path = path_join gate_directory ''Gate.lean'';
         graph_file = path_join gate_directory ''graph.json'' in
     bind_action (remove_stale H graph_file) (\<lambda>_.
     bind_action (lift_result (\<lambda>e. e) (gate_source L name g graph_file)) (\<lambda>source.
     bind_action (demand (FileFailed source_path) (write_file H source_path source)) (\<lambda>_.
     bind_action (run_captured H L ''lake'' (''building the gate of stack '' @ ticked name)
       (lake_build directory g) directory) (\<lambda>_.
     bind_action (run_captured H L ''lake'' (''the gate of stack '' @ ticked name @ '' failed'')
       (lake_check directory source_path) directory) (\<lambda>_.
     bind_action (read_graph_file H L name graph_file) (\<lambda>checked_graph.
     if graph_equal checked_graph emitted then give () else raise_error (GateGraphDiffers name)))))))))))"

end
