(* ===== verification/Cli_Run.thy ===== *)
theory Cli_Run
  imports Project_Run
begin

text \<open>
  The commands of \<open>crates/cli/src/main.rs\<close> that build, test and deploy stacks, with the
  workspace and process calls of \<open>crates/opentofu\<close> they end in, as actions on the outside.
\<close>

section \<open>The workspace of a stack\<close>

definition workspace_new :: "string \<Rightarrow> string \<Rightarrow> (failure, string) action" where
  "workspace_new base name = checked (workspace_root base name)"

definition write_atomic :: "host \<Rightarrow> string \<Rightarrow> string \<Rightarrow> string \<Rightarrow> (failure, string) action" where
  "write_atomic H root name contents =
     bind_action (demand (FileFailed root) (create_directory H root)) (\<lambda>_.
     let path = path_join root name in
     bind_action (demand (FileFailed root) (create_temporary H root)) (\<lambda>temporary.
     bind_action (demand (FileFailed temporary) (write_file H temporary contents)) (\<lambda>_.
     bind_action (demand (FileFailed path) (persist_file H temporary path)) (\<lambda>_.
     give path))))"

definition write_lowered :: "host \<Rightarrow> library \<Rightarrow> string \<Rightarrow> graph_document \<Rightarrow> (failure, string) action" where
  "write_lowered H L root g =
     bind_action (lift_result LoweringFailed (to_pretty_json (lib_pretty L) (lib_string L) g)) (\<lambda>rendered.
     write_atomic H root ''main.tofu.json'' rendered)"

definition backend_document :: "string \<Rightarrow> (string \<times> json) list \<Rightarrow> json" where
  "backend_document kind config =
     JObject [(''terraform'', JObject [(''backend'', JObject [(kind, JObject config)])])]"

text \<open>The crate checks the kind of a backend itself.\<close>

fun workspace_backend_kind :: "string \<Rightarrow> bool" where
  "workspace_backend_kind [] \<longleftrightarrow> False"
| "workspace_backend_kind (first # rest) \<longleftrightarrow>
     (first = CHR ''_'' \<or> is_ascii_alphabetic first) \<and>
     list_all (\<lambda>c. c = CHR ''_'' \<or> is_ascii_alphanumeric c) rest"

lemma backend_kinds_agree [simp]: "workspace_backend_kind kind \<longleftrightarrow> valid_backend_kind kind"
  by (cases kind) simp_all

definition write_backend ::
  "host \<Rightarrow> library \<Rightarrow> string \<Rightarrow> string \<Rightarrow> (string \<times> json) list \<Rightarrow> (failure, string) action" where
  "write_backend H L root kind config =
     (if \<not> workspace_backend_kind kind then raise_error (BackendKind kind)
      else write_atomic H root ''backend.tofu.json'' (lib_pretty L (backend_document kind config) @ nl))"

section \<open>OpenTofu\<close>

definition run_with_env ::
  "host \<Rightarrow> string \<Rightarrow> string \<Rightarrow> string \<Rightarrow> string list \<Rightarrow> (string \<times> string) list \<Rightarrow> (failure, exit_status) action" where
  "run_with_env H binary root subcommand args environment =
     bind_action
       (run_tofu H \<lparr>cm_program = binary, cm_args = subcommand # args, cm_directory = root, cm_environment = environment\<rparr>)
       (\<lambda>out. case out of
          Inl _ \<Rightarrow> raise_error TofuNotStarted
        | Inr out \<Rightarrow>
            if success (po_status out) then give (po_status out)
            else raise_error (TofuExit subcommand (po_status out)))"

definition output_json ::
  "host \<Rightarrow> library \<Rightarrow> string \<Rightarrow> string \<Rightarrow> string \<Rightarrow> string list \<Rightarrow> (failure, json) action" where
  "output_json H L binary root subcommand args =
     bind_action
       (run_tofu H \<lparr>cm_program = binary, cm_args = subcommand # ''-json'' # args, cm_directory = root, cm_environment = []\<rparr>)
       (\<lambda>out. case out of
          Inl _ \<Rightarrow> raise_error TofuNotStarted
        | Inr out \<Rightarrow>
            if \<not> success (po_status out) then raise_error (TofuExit subcommand (po_status out))
            else (case lib_json L (po_stdout out) of None \<Rightarrow> raise_error TofuNotJson | Some v \<Rightarrow> give v))"

fun first_file :: "host \<Rightarrow> string list \<Rightarrow> (failure, string option) action" where
  "first_file H [] = give None"
| "first_file H (candidate # rest) =
     bind_action (is_file H candidate) (\<lambda>found. if found then give (Some candidate) else first_file H rest)"

definition find_executable :: "host \<Rightarrow> string \<Rightarrow> (failure, string option) action" where
  "find_executable H binary =
     (if 1 < length (components binary) then
        bind_action (is_file H binary) (\<lambda>found. give (if found then Some binary else None))
      else
        bind_action (read_variable H ''PATH'') (\<lambda>path.
          case path of
            None \<Rightarrow> give None
          | Some path \<Rightarrow> first_file H (map (\<lambda>directory. path_join directory binary) (split_on (CHR '':'') path))))"

definition require_tofu :: "host \<Rightarrow> string \<Rightarrow> (failure, unit) action" where
  "require_tofu H binary =
     bind_action (find_executable H binary) (\<lambda>found.
       if found \<noteq> None then give () else raise_error (TofuNotFound binary))"

section \<open>Checks before OpenTofu runs\<close>

definition load_project :: "host \<Rightarrow> library \<Rightarrow> string \<Rightarrow> (failure, project) action" where
  "load_project H L path =
     bind_action (read_file H path) (\<lambda>r.
       checked (load (lib_unicode L) (\<lambda>_. case r of Inl _ \<Rightarrow> None | Inr source \<Rightarrow> Some source) (lib_config L) path))"

definition note_missing_gate :: "host \<Rightarrow> project \<Rightarrow> string \<Rightarrow> (failure, unit) action" where
  "note_missing_gate H project name =
     bind_action (checked (stack_frontend project name)) (\<lambda>frontend.
       say_if (frontend = Lean)
         (Warned (''note: stack '' @ ticked name @ '' has no [stacks.'' @ name @
           ''.gate], so its theorems are not checked for '' @ ticked ''sorry'' @
           '' and nothing ties them to the graph its '' @ ticked ''main'' @ '' prints'')))"

definition check_tests :: "host \<Rightarrow> project \<Rightarrow> string \<Rightarrow> bool \<Rightarrow> (failure, unit) action" where
  "check_tests H project name quiet =
     bind_action (test_stack H project name) (\<lambda>status.
       if \<not> success status then raise_error (TestsFailed name status)
       else say_if (\<not> quiet) (Warned (''tests for stack '' @ ticked name @ '' passed'')))"

definition check_gate ::
  "host \<Rightarrow> library \<Rightarrow> project \<Rightarrow> string \<Rightarrow> graph_document \<Rightarrow> bool \<Rightarrow> (failure, unit) action" where
  "check_gate H L project name g quiet =
     bind_action (\<lambda>h. case run_gate H L project name g h of
         (Inl e, h) \<Rightarrow> (Inl (GateFailed name e), h)
       | (Inr u, h) \<Rightarrow> (Inr u, h)) (\<lambda>_.
     say_if (\<not> quiet) (Warned (''gate of stack '' @ ticked name @ '' holds'')))"

definition check_stack ::
  "host \<Rightarrow> library \<Rightarrow> project \<Rightarrow> string \<Rightarrow> graph_document \<Rightarrow> bool \<Rightarrow> bool \<Rightarrow> (failure, unit) action" where
  "check_stack H L project name g skip quiet =
     bind_action (checked (gate project name)) (\<lambda>stack_gate.
     let has_gate = (stack_gate \<noteq> None) in
     if skip then
       say_if (\<not> quiet)
         (Warned (''skipping the '' @ (if has_gate then ''tests and gate'' else ''tests'') @ '' of stack '' @
           ticked name @ '' (--skip-tests)''))
     else
       bind_action (checked (test_entry_point project name)) (\<lambda>entry.
       if entry = None \<and> \<not> has_gate then
         say_if (\<not> quiet)
           (Warned (''note: stack '' @ ticked name @ '' has no test entry point, so no policies were checked''))
       else
         bind_action (if entry \<noteq> None then check_tests H project name quiet else give ()) (\<lambda>_.
         if has_gate then check_gate H L project name g quiet
         else if \<not> quiet then note_missing_gate H project name
         else give ())))"

definition needs_credentials :: "string \<Rightarrow> bool" where
  "needs_credentials subcommand \<longleftrightarrow>
     subcommand \<in> set [''plan'', ''apply'', ''destroy'', ''refresh'', ''import'', ''console'']"

definition secret_entry :: "host \<Rightarrow> string \<Rightarrow> (failure, string \<times> string) action" where
  "secret_entry H name =
     bind_action (read_variable H name) (\<lambda>value.
       case value of
         None \<Rightarrow> raise_error (VariableUnset name)
       | Some value \<Rightarrow> give (''TF_VAR_'' @ secret_variable_name name, value))"

definition secret_environment :: "host \<Rightarrow> graph_document \<Rightarrow> (failure, (string \<times> string) list) action" where
  "secret_environment H g =
     bind_action (each_action (secret_entry H) (secret_environment_names g)) (\<lambda>entries.
       give (bm_collect entries))"

section \<open>Deploying\<close>

record run_args =
  ra_stack :: string
  ra_graph :: "string option"
  ra_workspace :: "string option"
  ra_skip_tests :: bool
  ra_quiet :: bool
  ra_tofu_args :: "string list"

text \<open>The path \<open>-\<close> stands for the standard input.\<close>

definition read_graph :: "host \<Rightarrow> library \<Rightarrow> string \<Rightarrow> (failure, graph_document) action" where
  "read_graph H L path =
     bind_action (read_file H path) (\<lambda>r.
       case r of
         Inl e \<Rightarrow> raise_error (InputUnreadable path)
       | Inr bytes \<Rightarrow>
           (case lib_graph L bytes of None \<Rightarrow> raise_error (NotGraphDocument path) | Some g \<Rightarrow> give g))"

definition prepare_given ::
  "host \<Rightarrow> library \<Rightarrow> run_args \<Rightarrow> string \<Rightarrow> (failure, graph_document \<times> string) action" where
  "prepare_given H L args path =
     bind_action (read_graph H L path) (\<lambda>g.
     bind_action (workspace_new (unwrap_or (ra_workspace args) ''.inframe'') (ra_stack args)) (\<lambda>root.
     give (g, root)))"

definition prepare_built ::
  "host \<Rightarrow> library \<Rightarrow> run_args \<Rightarrow> string \<Rightarrow> (failure, graph_document \<times> string) action" where
  "prepare_built H L args project_path =
     bind_action (load_project H L project_path) (\<lambda>project.
     bind_action (build H L project (ra_stack args) None) (\<lambda>(g, path).
     bind_action (say_if (\<not> ra_quiet args)
       (Warned (''built stack '' @ ticked (ra_stack args) @ '' to '' @ path))) (\<lambda>_.
     bind_action (check_stack H L project (ra_stack args) g (ra_skip_tests args) (ra_quiet args)) (\<lambda>_.
     let base = unwrap_or (ra_workspace args) (workspace_directory project) in
     bind_action (checked (resolve_references (lib_toml L) (h_absolute H) project g base)) (\<lambda>g.
     bind_action (workspace_new base (ra_stack args)) (\<lambda>root.
     bind_action (checked (backend_json (lib_toml L) project (ra_stack args))) (\<lambda>(kind, config).
     bind_action (write_backend H L root kind config) (\<lambda>_.
     give (g, root)))))))))"

definition run_graph ::
  "host \<Rightarrow> library \<Rightarrow> string \<Rightarrow> string list \<Rightarrow> run_args \<Rightarrow> string \<Rightarrow> string \<Rightarrow> (failure, unit) action" where
  "run_graph H L subcommand tofu_args args project_path binary =
     bind_action
       (case ra_graph args of
          Some path \<Rightarrow> prepare_given H L args path
        | None \<Rightarrow> prepare_built H L args project_path)
       (\<lambda>(g, root).
     bind_action (write_lowered H L root g) (\<lambda>_.
     bind_action (if needs_credentials subcommand then secret_environment H g else give []) (\<lambda>environment.
     bind_action (require_tofu H binary) (\<lambda>_.
     bind_action (run_with_env H binary root subcommand tofu_args environment) (\<lambda>_.
     give ())))))"

definition run_lifecycle ::
  "host \<Rightarrow> library \<Rightarrow> string \<Rightarrow> run_args \<Rightarrow> string \<Rightarrow> string \<Rightarrow> (failure, unit) action" where
  "run_lifecycle H L subcommand args project_path binary =
     run_graph H L subcommand (ra_tofu_args args) args project_path binary"

text \<open>\<open>inframe tofu\<close>: the subcommand is the first argument after \<open>--\<close>.\<close>

definition run_any :: "host \<Rightarrow> library \<Rightarrow> run_args \<Rightarrow> string \<Rightarrow> string \<Rightarrow> (failure, unit) action" where
  "run_any H L args project_path binary =
     (case ra_tofu_args args of
        [] \<Rightarrow> raise_error NoSubcommand
      | subcommand # rest \<Rightarrow> run_graph H L subcommand rest args project_path binary)"

definition run_existing_json ::
  "host \<Rightarrow> library \<Rightarrow> string \<Rightarrow> string \<Rightarrow> string option \<Rightarrow> string list \<Rightarrow> string \<Rightarrow> string \<Rightarrow> (failure, unit) action" where
  "run_existing_json H L subcommand name workspace tofu_args project_path binary =
     bind_action
       (case workspace of
          Some base \<Rightarrow> give base
        | None \<Rightarrow>
            bind_action (is_file H project_path) (\<lambda>configured.
              if configured then
                bind_action (load_project H L project_path) (\<lambda>project. give (workspace_directory project))
              else give ''.inframe''))
       (\<lambda>base.
     bind_action (workspace_new base name) (\<lambda>root.
     bind_action (is_directory H root) (\<lambda>exists.
     if \<not> exists then raise_error (WorkspaceMissing root)
     else
       bind_action (require_tofu H binary) (\<lambda>_.
       bind_action (output_json H L binary root subcommand tofu_args) (\<lambda>value.
       say (Printed (lib_pretty L value @ nl)))))))"

section \<open>Building and testing\<close>

fun build_all :: "host \<Rightarrow> library \<Rightarrow> project \<Rightarrow> string list \<Rightarrow> stack_graphs \<Rightarrow> (failure, stack_graphs) action" where
  "build_all H L project [] graphs = give graphs"
| "build_all H L project (name # names) graphs =
     bind_action (build H L project name None) (\<lambda>(g, path).
     bind_action (say (Printed (''built stack '' @ ticked name @ '' to '' @ path @ nl))) (\<lambda>_.
     build_all H L project names (bm_insert name g graphs)))"

definition build_project ::
  "host \<Rightarrow> library \<Rightarrow> string option \<Rightarrow> string option \<Rightarrow> string \<Rightarrow> (failure, unit) action" where
  "build_project H L stack_name output_path project_path =
     bind_action (load_project H L project_path) (\<lambda>project.
     case stack_name of
       None \<Rightarrow>
         bind_action (build_all H L project (stack_names project) []) (\<lambda>graphs.
         bind_action (checked (stack_order graphs)) (\<lambda>order.
         say (Printed (''apply order: '' @ join '', '' order @ nl))))
     | Some name \<Rightarrow>
         bind_action (build H L project name output_path) (\<lambda>(_, path).
         say (Printed (''built stack '' @ ticked name @ '' to '' @ path @ nl))))"

definition gate_stack :: "host \<Rightarrow> library \<Rightarrow> project \<Rightarrow> string \<Rightarrow> (failure, unit) action" where
  "gate_stack H L project name =
     bind_action (render_stack H L project name) (\<lambda>g.
     bind_action (run_gate H L project name g) (\<lambda>_.
     say (Printed (''gate of stack '' @ ticked name @ '' holds'' @ nl))))"

text \<open>Whether a stack's checks fail, when all stacks are tested: errors of its gate do not end the run.\<close>

definition test_one :: "host \<Rightarrow> library \<Rightarrow> project \<Rightarrow> string \<Rightarrow> (failure, bool) action" where
  "test_one H L project name =
     bind_action (checked (gate project name)) (\<lambda>stack_gate.
     bind_action (checked (test_entry_point project name)) (\<lambda>entry.
     if entry = None \<and> stack_gate = None then give False
     else
       bind_action
         (if entry \<noteq> None then bind_action (test_stack H project name) (\<lambda>status. give (\<not> success status))
          else give False)
         (\<lambda>tests_failed.
       if tests_failed then give True
       else if stack_gate \<noteq> None then
         (\<lambda>h. case gate_stack H L project name h of
            (Inl e, h) \<Rightarrow> (Inr True, h @ [ReportedError])
          | (Inr _, h) \<Rightarrow> (Inr False, h))
       else bind_action (note_missing_gate H project name) (\<lambda>_. give False))))"

definition test_single :: "host \<Rightarrow> library \<Rightarrow> project \<Rightarrow> string \<Rightarrow> (failure, unit) action" where
  "test_single H L project name =
     bind_action (checked (gate project name)) (\<lambda>stack_gate.
     bind_action (checked (test_entry_point project name)) (\<lambda>entry.
     bind_action
       (if entry \<noteq> None \<or> stack_gate = None then
          bind_action (test_stack H project name) (\<lambda>status.
            if success status then give ()
            else (case status of Exited code \<Rightarrow> raise_error (TestsExit code) | Signaled \<Rightarrow> raise_error (TestsSignaled name)))
        else give ())
       (\<lambda>_.
     if stack_gate \<noteq> None then gate_stack H L project name else note_missing_gate H project name)))"

definition test_project :: "host \<Rightarrow> library \<Rightarrow> string option \<Rightarrow> string \<Rightarrow> (failure, unit) action" where
  "test_project H L stack_name project_path =
     bind_action (load_project H L project_path) (\<lambda>project.
     case stack_name of
       Some name \<Rightarrow> test_single H L project name
     | None \<Rightarrow>
         bind_action (each_action (test_one H L project) (stack_names project)) (\<lambda>failures.
         let failed = map fst (filter snd (zip (stack_names project) failures)) in
         if failed = [] then give () else raise_error (StacksFailed failed)))"

text \<open>\<open>write_with\<close>: the path \<open>-\<close> stands for the standard output.\<close>

definition write_text :: "host \<Rightarrow> string \<Rightarrow> string \<Rightarrow> (failure, unit) action" where
  "write_text H path contents =
     (if path = ''-'' then say (Printed contents)
      else
        bind_action (create_parent H path) (\<lambda>_.
        demand (FileFailed path) (write_file H path contents)))"

definition render :: "host \<Rightarrow> library \<Rightarrow> string \<Rightarrow> string \<Rightarrow> (failure, unit) action" where
  "render H L graph_file output_path =
     bind_action (read_graph H L graph_file) (\<lambda>g.
     bind_action (lift_result LoweringFailed (to_pretty_json (lib_pretty L) (lib_string L) g)) (\<lambda>text.
     write_text H output_path text))"

end
