(* ===== verification/Binding_Correct.thy ===== *)
theory Binding_Correct
  imports Binding_Model "HOL-Library.Multiset"
begin

text \<open>
  The memoizing deriver computes the plain derivation of every block; a package is derived
  exactly when no two types of a kind get the same public name, and then has one item per
  type; names are made of letters and digits.
\<close>

section \<open>The plain derivation\<close>

fun bind_type :: "schema_type \<Rightarrow> binding_type"
  and bind_attribute :: "string \<Rightarrow> attribute_schema \<Rightarrow> binding_field" where
  "bind_type StringType = BindString"
| "bind_type BoolType = BindBool"
| "bind_type NumberType = BindNumber"
| "bind_type DynamicType = BindDynamic"
| "bind_type (ListType t) = BindList (bind_type t)"
| "bind_type (SetType t) = BindSet (bind_type t)"
| "bind_type (MapType t) = BindMap (bind_type t)"
| "bind_type (TupleType ts) = BindTuple (map bind_type ts)"
| "bind_type (ObjectType as) = BindObject (map (\<lambda>(name, a). bind_attribute name a) as)"
| "bind_attribute name (AttributeSchema t r opt c sens description) =
     attribute_field name (field_name name) (bind_type t) (AttributeSchema t r opt c sens description)"

fun bind_fields :: "block_schema \<Rightarrow> fields_list"
  and bind_block :: "string \<Rightarrow> nested_block_schema \<Rightarrow> binding_field" where
  "bind_fields (BlockSchema as bs) =
     sort_key bf_provider_name
       (map (\<lambda>(name, a). bind_attribute name a) as @ map (\<lambda>(name, b). bind_block name b) bs)"
| "bind_block name (NestedBlockSchema mode minimum maximum block) =
     block_field name (field_name name) (bind_fields block) (NestedBlockSchema mode minimum maximum block)"

text \<open>Every memo table holds what the plain derivation gives.\<close>

definition memo_ok :: "deriver \<Rightarrow> bool" where
  "memo_ok st \<longleftrightarrow>
     (\<forall>b fs. map_of (blocks_memo st) b = Some fs \<longrightarrow> fs = bind_fields b) \<and>
     (\<forall>as fs. map_of (objects_memo st) as = Some fs \<longrightarrow> fs = map (\<lambda>(name, a). bind_attribute name a) as) \<and>
     (\<forall>n p. map_of (public_names st) n = Some p \<longrightarrow> p = field_name n)"

text \<open>\<open>computes f y\<close>: from good tables, \<open>f\<close> returns \<open>y\<close> and leaves good tables.\<close>

definition computes :: "(deriver \<Rightarrow> 'a \<times> deriver) \<Rightarrow> 'a \<Rightarrow> bool" where
  "computes f y \<longleftrightarrow> (\<forall>st. memo_ok st \<longrightarrow> fst (f st) = y \<and> memo_ok (snd (f st)))"

lemma computesD: "computes f y \<Longrightarrow> memo_ok st \<Longrightarrow> f st = (z, st') \<Longrightarrow> z = y \<and> memo_ok st'"
  by (metis computes_def fst_conv snd_conv)

lemma computes_map:
  "(\<And>x. x \<in> set xs \<Longrightarrow> computes (f x) (g x)) \<Longrightarrow> computes (map_state f xs) (map g xs)"
proof (induction xs)
  case (Cons x xs)
  then have "computes (f x) (g x)" "computes (map_state f xs) (map g xs)" by auto
  then show ?case by (auto simp: computes_def Let_def case_prod_beta)
qed (simp add: computes_def)

lemma computes_public_name: "computes (public_name n) (field_name n)"
  by (auto simp: computes_def public_name_def memo_ok_def Let_def split: option.splits)

lemma memo_ok_object:
  "memo_ok st \<Longrightarrow> memo_ok (st\<lparr>objects_memo := (as, map (\<lambda>(name, a). bind_attribute name a) as) # objects_memo st\<rparr>)"
  by (auto simp: memo_ok_def)

lemma memo_ok_block: "memo_ok st \<Longrightarrow> memo_ok (st\<lparr>blocks_memo := (b, bind_fields b) # blocks_memo st\<rparr>)"
  by (auto simp: memo_ok_def)

lemma computes_type:
  "computes (derive_type t) (bind_type t)"
  "computes (derive_attribute name a) (bind_attribute name a)"
proof (induction t and name a rule: bind_type_bind_attribute.induct)
  case (8 ts)
  then have "computes (map_state derive_type ts) (map bind_type ts)" by (intro computes_map) blast
  then show ?case by (auto simp: computes_def case_prod_beta Let_def)
next
  case (9 as)
  let ?fs = "map (\<lambda>(name, a). bind_attribute name a) as"
  have *: "computes (map_state (\<lambda>(name, a). derive_attribute name a) as) ?fs"
    by (rule computes_map) (use 9 in \<open>auto simp: case_prod_beta\<close>)
  show ?case unfolding computes_def
  proof (intro allI impI)
    fix st assume ok: "memo_ok st"
    show "fst (derive_type (ObjectType as) st) = bind_type (ObjectType as) \<and>
        memo_ok (snd (derive_type (ObjectType as) st))"
    proof (cases "map_of (objects_memo st) as")
      case None
      with * ok memo_ok_object show ?thesis by (simp add: computes_def case_prod_beta Let_def)
    next
      case (Some fs)
      with ok have "fs = ?fs" unfolding memo_ok_def by blast
      with Some ok show ?thesis by simp
    qed
  qed
next
  case (10 name t r opt c sens description)
  with computes_public_name[of name] show ?case
    by (simp add: computes_def case_prod_beta Let_def)
qed (auto simp: computes_def case_prod_beta Let_def)

lemma computes_fields:
  "computes (derive_fields b) (bind_fields b)"
  "computes (derive_block name n) (bind_block name n)"
proof (induction b and name n rule: bind_fields_bind_block.induct)
  case (1 as bs)
  have as: "computes (map_state (\<lambda>(name, a). derive_attribute name a) as) (map (\<lambda>(name, a). bind_attribute name a) as)"
    by (rule computes_map) (auto simp: case_prod_beta computes_type)
  have bs: "computes (map_state (\<lambda>(name, b). derive_block name b) bs) (map (\<lambda>(name, b). bind_block name b) bs)"
    by (rule computes_map) (use 1 in \<open>auto simp: case_prod_beta\<close>)
  show ?case unfolding computes_def
  proof (intro allI impI)
    fix st assume ok: "memo_ok st"
    show "fst (derive_fields (BlockSchema as bs) st) = bind_fields (BlockSchema as bs) \<and>
        memo_ok (snd (derive_fields (BlockSchema as bs) st))"
    proof (cases "map_of (blocks_memo st) (BlockSchema as bs)")
      case None
      with as bs ok memo_ok_block[of _ "BlockSchema as bs"] show ?thesis
        by (simp add: computes_def case_prod_beta Let_def)
    next
      case (Some fs)
      with ok have "fs = bind_fields (BlockSchema as bs)" unfolding memo_ok_def by blast
      with Some ok show ?thesis by simp
    qed
  qed
next
  case (2 name mode minimum maximum block)
  with computes_public_name[of name] show ?case
    by (simp add: computes_def case_prod_beta Let_def)
qed

lemma memo_ok_default: "memo_ok deriver_default"
  by (simp add: memo_ok_def deriver_default_def)

section \<open>Items\<close>

definition bind_item :: "string \<Rightarrow> string \<times> resource_schema \<Rightarrow> binding_item" where
  "bind_item prefix entry =
     \<lparr>bi_provider_type = fst entry, bi_public_name = pascal_case (short_name prefix (fst entry)),
      bi_fields = bind_fields (snd entry)\<rparr>"

abbreviation entry_name :: "string \<Rightarrow> string \<times> resource_schema \<Rightarrow> string" where
  "entry_name prefix entry \<equiv> pascal_case (short_name prefix (fst entry))"

lemma derive_items_fold:
  "memo_ok st \<Longrightarrow> bm_wf seen \<Longrightarrow>
   (case try_fold (derive_item prefix) es (seen, items, st) of
      Inr (seen', items', st') \<Rightarrow> items' = items @ map (bind_item prefix) es \<and> memo_ok st'
    | Inl e \<Rightarrow> True) \<and>
   (is_ok (try_fold (derive_item prefix) es (seen, items, st)) \<longleftrightarrow>
      distinct (map (entry_name prefix) es) \<and> dom (map_of seen) \<inter> entry_name prefix ` set es = {})"
proof (induction es arbitrary: seen items st)
  case (Cons e es)
  obtain t b where e: "e = (t, b)" by (cases e)
  show ?case
  proof (cases "map_of seen (entry_name prefix e)")
    case None
    obtain fs st' where d: "derive_fields b st = (fs, st')" by (cases "derive_fields b st")
    from computesD[OF computes_fields(1) Cons.prems(1) d] have fs: "fs = bind_fields b" and ok: "memo_ok st'"
      by auto
    let ?n = "entry_name prefix e"
    have step: "derive_item prefix e (seen, items, st) = Inr (bm_insert ?n t seen, items @ [bind_item prefix e], st')"
      using None d fs by (simp add: e derive_item_def Let_def bind_item_def)
    have dom: "dom (map_of (bm_insert ?n t seen)) = insert ?n (dom (map_of seen))"
      using Cons.prems(2) by simp
    have wf: "bm_wf (bm_insert ?n t seen)" using Cons.prems(2) by simp
    have new: "?n \<notin> dom (map_of seen)" using None by auto
    from Cons.IH[OF ok wf, of "items @ [bind_item prefix e]"] dom new show ?thesis
      by (simp only: try_fold.simps step and_then_simps list.simps distinct.simps append_assoc
          append_Cons append_Nil Int_insert_left image_insert) auto
  next
    case (Some first)
    then show ?thesis by (auto simp: e derive_item_def Let_def)
  qed
qed simp

lemma derive_items_result:
  assumes "memo_ok st"
  shows "derive_items prefix es st = Inr (items, st') \<Longrightarrow> items = map (bind_item prefix) es \<and> memo_ok st'"
    and "is_ok (derive_items prefix es st) \<longleftrightarrow> distinct (map (entry_name prefix) es)"
proof -
  note fold = derive_items_fold[where seen = "[]" and items = "[]" and prefix = prefix and es = es, OF assms]
  show "derive_items prefix es st = Inr (items, st') \<Longrightarrow> items = map (bind_item prefix) es \<and> memo_ok st'"
    using fold by (auto simp: derive_items_def and_then_ok)
  show "is_ok (derive_items prefix es st) \<longleftrightarrow> distinct (map (entry_name prefix) es)"
    using fold by (simp add: derive_items_def case_prod_beta)
qed

definition type_prefix :: "provider_schema \<Rightarrow> string option \<Rightarrow> string" where
  "type_prefix schema strip =
     (case strip of
        Some prefix \<Rightarrow> prefix
      | None \<Rightarrow> infer_type_prefix (rsplit_last (CHR ''/'') (ps_source schema))
          (map fst (ps_resources schema) @ map fst (ps_data_sources schema)))"

definition bind_package :: "provider_schema \<Rightarrow> string \<Rightarrow> binding_package" where
  "bind_package schema prefix =
     \<lparr>bk_provider = \<lparr>bp_source = ps_source schema, bp_version = ps_version schema,
        bp_public_name = pascal_case (rsplit_last (CHR ''/'') (ps_source schema)),
        bp_fields = bind_fields (provider_config schema)\<rparr>,
      bk_resources = map (bind_item prefix) (ps_resources schema),
      bk_data_sources = map (bind_item prefix) (ps_data_sources schema)\<rparr>"

lemma pascal_case_empty [simp]: "pascal_case [] = []"
  by (simp add: pascal_case_def split_words_def)

lemma derive_bindings_ok:
  "is_ok (derive_bindings_with schema strip) \<longleftrightarrow>
     pascal_case (rsplit_last (CHR ''/'') (ps_source schema)) \<noteq> [] \<and>
     distinct (map (entry_name (type_prefix schema strip)) (ps_resources schema)) \<and>
     distinct (map (entry_name (type_prefix schema strip)) (ps_data_sources schema))"
proof -
  note rs = derive_items_result[OF memo_ok_default, of "type_prefix schema strip" "ps_resources schema"]
  show ?thesis
  proof (cases "derive_items (type_prefix schema strip) (ps_resources schema) deriver_default")
    case (Inl e)
    then have "\<not> distinct (map (entry_name (type_prefix schema strip)) (ps_resources schema))"
      using rs(2) by simp
    with Inl show ?thesis
      by (simp add: derive_bindings_with_def Let_def flip: type_prefix_def)
  next
    case (Inr p)
    obtain items st where p: "p = (items, st)" by (cases p)
    with Inr rs have ok: "memo_ok st" and dist: "distinct (map (entry_name (type_prefix schema strip)) (ps_resources schema))"
      by (simp, simp flip: rs(2))
    from Inr p dist derive_items_result(2)[OF ok] show ?thesis
      by (simp add: derive_bindings_with_def Let_def case_prod_beta flip: type_prefix_def)
  qed
qed

lemma derive_bindings_result:
  assumes "derive_bindings_with schema strip = Inr package"
  shows "package = bind_package schema (type_prefix schema strip)"
proof -
  let ?p = "type_prefix schema strip"
  from assms obtain rs st ds st'
    where 1: "derive_items ?p (ps_resources schema) deriver_default = Inr (rs, st)"
      and 2: "derive_items ?p (ps_data_sources schema) st = Inr (ds, st')"
      and package: "package = \<lparr>bk_provider = \<lparr>bp_source = ps_source schema, bp_version = ps_version schema,
          bp_public_name = pascal_case (rsplit_last (CHR ''/'') (ps_source schema)),
          bp_fields = fst (derive_fields (provider_config schema) st')\<rparr>,
        bk_resources = rs, bk_data_sources = ds\<rparr>"
    by (auto simp: derive_bindings_with_def Let_def case_prod_beta and_then_ok simp flip: type_prefix_def
        split: if_splits)
  note r1 = derive_items_result(1)[OF memo_ok_default 1]
  then have "memo_ok st" by simp
  note r2 = derive_items_result(1)[OF this 2]
  then have "fst (derive_fields (provider_config schema) st') = bind_fields (provider_config schema)"
    using computes_fields(1)[of "provider_config schema"] by (simp add: computes_def)
  with r1 r2 show ?thesis by (simp add: package bind_package_def)
qed

section \<open>Names\<close>

lemma split_where_words: "w \<in> set (split_where sep s) \<Longrightarrow> \<forall>c \<in> set w. \<not> sep c"
proof (induction s arbitrary: w)
  case (Cons c s)
  show ?case
  proof (cases "split_where sep s")
    case (Cons a ws)
    with Cons.IH[of a] Cons.IH[of w] Cons.prems show ?thesis by (auto split: if_splits)
  qed (use Cons.prems in \<open>auto split: if_splits\<close>)
qed simp

definition alphanumeric :: "string \<Rightarrow> bool" where
  "alphanumeric w \<longleftrightarrow> list_all is_ascii_alphanumeric w"

lemma alphanumeric_simps [simp]:
  "alphanumeric []" "alphanumeric (v @ w) \<longleftrightarrow> alphanumeric v \<and> alphanumeric w"
  "alphanumeric (c # w) \<longleftrightarrow> is_ascii_alphanumeric c \<and> alphanumeric w"
  by (simp_all add: alphanumeric_def)

lemma split_words_alphanumeric: "w \<in> set (split_words s) \<Longrightarrow> alphanumeric w"
  using split_where_words[of w "\<lambda>c. \<not> is_ascii_alphanumeric c" s]
  by (simp add: split_words_def alphanumeric_def list_all_iff)

lemma uppercase_alphanumeric: "is_ascii_alphanumeric c \<Longrightarrow> is_ascii_alphanumeric (to_ascii_uppercase c)"
proof (cases "is_ascii_lowercase c")
  case True
  then have range: "97 \<le> byte c" "byte c \<le> 122"
    by (simp_all add: is_ascii_lowercase_def)
  then have "byte (char_of (byte c - 32)) = byte c - 32"
    unfolding byte_def by (subst of_char_of) (simp add: mod_less)
  with range have "byte (char_of (byte c - 32)) = byte c - 32" "97 \<le> byte c" "byte c \<le> 122"
    by simp_all
  then have "is_ascii_uppercase (to_ascii_uppercase c)"
    using True by (simp add: to_ascii_uppercase_def is_ascii_uppercase_def) linarith
  then show ?thesis by (simp add: is_ascii_alphanumeric_def is_ascii_alphabetic_def)
qed (simp add: to_ascii_uppercase_def)

lemma push_all_alphanumeric:
  "alphanumeric out \<Longrightarrow> list_all alphanumeric ws \<Longrightarrow> alphanumeric (foldl push_capitalized out ws)"
proof (induction ws arbitrary: out)
  case (Cons w ws)
  have "alphanumeric (push_capitalized out w)"
    using Cons.prems by (cases w) (simp_all add: push_capitalized_def uppercase_alphanumeric)
  with Cons show ?case by simp
qed simp

lemma names_alphanumeric: "alphanumeric (pascal_case s)" "alphanumeric (field_name s)"
proof -
  have words: "list_all alphanumeric (split_words s)"
    using split_words_alphanumeric by (simp add: list_all_iff)
  then show "alphanumeric (pascal_case s)"
    unfolding pascal_case_def by (intro push_all_alphanumeric) simp_all
  from words show "alphanumeric (field_name s)"
    unfolding field_name_def by (cases "split_words s") (simp_all add: push_all_alphanumeric)
qed

text \<open>The items of derived bindings have different plain names.\<close>

lemma alphanumeric_replace: "alphanumeric s \<Longrightarrow> replace_char (CHR ''.'') (CHR ''/'') s = s"
  unfolding replace_char_def alphanumeric_def
  by (rule map_idI) (auto simp: list_all_iff string_simps)

lemma derived_names:
  assumes "derive_bindings_with schema strip = Inr package"
  shows "distinct (map bi_public_name (bk_resources package))" "distinct (map bi_public_name (bk_data_sources package))"
    and "item \<in> set (bk_resources package) \<union> set (bk_data_sources package) \<Longrightarrow> alphanumeric (bi_public_name item)"
proof -
  let ?p = "type_prefix schema strip"
  note package = derive_bindings_result[OF assms]
  have name: "bi_public_name (bind_item ?p e) = entry_name ?p e" "alphanumeric (entry_name ?p e)" for e
    by (simp_all add: bind_item_def case_prod_beta names_alphanumeric)
  from assms derive_bindings_ok[of schema strip]
  have "distinct (map (entry_name ?p) (ps_resources schema))" "distinct (map (entry_name ?p) (ps_data_sources schema))"
    by simp_all
  then show "distinct (map bi_public_name (bk_resources package))" "distinct (map bi_public_name (bk_data_sources package))"
    by (simp_all add: package bind_package_def comp_def name(1))
  show "item \<in> set (bk_resources package) \<union> set (bk_data_sources package) \<Longrightarrow> alphanumeric (bi_public_name item)"
    by (auto simp: package bind_package_def name names_alphanumeric)
qed

lemma foldl_push: "foldl push_capitalized out ws = out @ concat (map capitalized ws)"
  by (induction ws arbitrary: out) (auto simp: push_capitalized_def)

section \<open>Fields\<close>

lemma attribute_provider_name: "bf_provider_name (bind_attribute name a) = name"
  by (cases a) (simp add: attribute_field_def)

lemma block_provider_name: "bf_provider_name (bind_block name b) = name"
  by (cases b) (simp add: block_field_def)

lemma bind_fields_names:
  "sorted (map bf_provider_name (bind_fields (BlockSchema as bs)))"
  "mset (map bf_provider_name (bind_fields (BlockSchema as bs))) = mset (map fst as @ map fst bs)"
proof -
  show "sorted (map bf_provider_name (bind_fields (BlockSchema as bs)))" by simp
  have "mset (map bf_provider_name (bind_fields (BlockSchema as bs))) =
      image_mset bf_provider_name (mset (map (\<lambda>(name, a). bind_attribute name a) as @ map (\<lambda>(name, b). bind_block name b) bs))"
    by (simp only: bind_fields.simps mset_map mset_sort)
  also have "\<dots> = mset (map fst as @ map fst bs)"
    by (simp add: multiset.map_comp comp_def case_prod_beta attribute_provider_name block_provider_name flip: mset_map)
  finally show "mset (map bf_provider_name (bind_fields (BlockSchema as bs))) = mset (map fst as @ map fst bs)" .
qed

lemma bind_block_roles:
  "bf_block (bind_block name b)"
  "bf_required (bind_block name b) \<longleftrightarrow> \<not> bf_optional (bind_block name b)"
  "bf_min_items (bind_block name b) = (if bf_required (bind_block name b) then nb_min_items b else None)"
  by (cases b; auto simp: block_field_def positive_def word_gt_0 split: option.splits)+

section \<open>Properties\<close>

definition sample_block :: block_schema where
  "sample_block = BlockSchema
     [(''id'', AttributeSchema StringType False False True False None),
      (''size_gb'', AttributeSchema NumberType True False False False None)]
     [(''disk'', NestedBlockSchema ListNesting (Some 1) None (BlockSchema [] []))]"

definition sample_provider :: provider_schema where
  "sample_provider =
     \<lparr>ps_source = ''acme/demo'', ps_version = ''1.0'', provider_config = BlockSchema [] [],
      ps_resources = [(''demo_server'', sample_block), (''demo_volume'', sample_block)],
      ps_data_sources = [(''demo_server'', sample_block)]\<rparr>"

lemma sample_provider_prefix: "type_prefix sample_provider None = ''demo_''"
  by code_simp

text \<open>C39. Deriving bindings fails exactly when the provider has no name, or when two resources
  or two data sources would get the same public name.\<close>

theorem derive_bindings_succeeds:
  "is_ok (derive_bindings_with schema strip) \<longleftrightarrow>
     pascal_case (rsplit_last (CHR ''/'') (ps_source schema)) \<noteq> [] \<and>
     distinct (map (entry_name (type_prefix schema strip)) (ps_resources schema)) \<and>
     distinct (map (entry_name (type_prefix schema strip)) (ps_data_sources schema))"
  by (rule derive_bindings_ok)

text \<open>C38. The three memo tables threaded through a derivation change nothing: the package is
  what deriving every type, block and name afresh gives, with one item for each resource and
  data source of the schema in its order.\<close>

theorem derive_bindings_plain:
  assumes "derive_bindings_with schema strip = Inr package"
  shows "package = bind_package schema (type_prefix schema strip)"
  using assms by (rule derive_bindings_result)

lemma derive_bindings_plain_witness:
  "projr (derive_bindings_with sample_provider None) = bind_package sample_provider ''demo_''"
proof -
  have "is_ok (derive_bindings_with sample_provider None)"
    by (simp only: derive_bindings_ok) code_simp
  then have "derive_bindings_with sample_provider None = Inr (projr (derive_bindings_with sample_provider None))"
    by (auto elim!: is_okE)
  from derive_bindings_plain[OF this] show ?thesis by (simp only: sample_provider_prefix)
qed

text \<open>Public names hold ASCII letters and digits only, whatever the provider calls its
  types and attributes.\<close>

lemma public_names_plain:
  "list_all is_ascii_alphanumeric (pascal_case s) \<and> list_all is_ascii_alphanumeric (field_name s)"
  using names_alphanumeric[of s] by (simp add: alphanumeric_def)

text \<open>The fields of a block are its attributes and nested blocks, each once and in the
  order of their provider names; a nested block is required or optional, never both, and keeps
  its minimum exactly when it is required.\<close>

lemma block_fields_complete:
  "sorted (map bf_provider_name (bind_fields (BlockSchema as bs))) \<and>
   mset (map bf_provider_name (bind_fields (BlockSchema as bs))) = mset (map fst as @ map fst bs) \<and>
   (bf_required (bind_block name b) \<longleftrightarrow> \<not> bf_optional (bind_block name b)) \<and>
   bf_min_items (bind_block name b) = (if bf_required (bind_block name b) then nb_min_items b else None)"
  using bind_fields_names bind_block_roles by blast

end
