(* ===== verification/Project_Correct.thy ===== *)
theory Project_Correct
  imports Project Binding_Correct Depth_First
begin

text \<open>
  What a project that loads satisfies, stated without the order of the checks; stack names stay
  inside the workspace; the apply order puts every stack after the stacks it reads.
\<close>

section \<open>Accepted configurations\<close>

fun toml_keys :: "toml \<Rightarrow> string set" where
  "toml_keys (TTable table) = fst ` set table \<union> (\<Union>e \<in> set table. toml_keys (snd e))"
| "toml_keys (TArray items) = (\<Union>v \<in> set items. toml_keys v)"
| "toml_keys _ = {}"

definition no_secrets :: "toml \<Rightarrow> bool" where
  "no_secrets v \<longleftrightarrow> (\<forall>k \<in> toml_keys v. \<not> secret_like_key k)"

definition configured_frontend :: "project_config \<Rightarrow> frontend \<Rightarrow> bool" where
  "configured_frontend config frontend \<longleftrightarrow>
     (case frontend of PureScript \<Rightarrow> cf_purescript config \<noteq> None | Lean \<Rightarrow> cf_lean config \<noteq> None)"

text \<open>The stack is built by Lean: it says so, or Lean is the only frontend.\<close>

definition runs_lean :: "project_config \<Rightarrow> stack_config \<Rightarrow> bool" where
  "runs_lean config s \<longleftrightarrow>
     sc_frontend s = Some Lean \<or> sc_frontend s = None \<and> cf_purescript config = None \<and> cf_lean config \<noteq> None"

definition valid_gate :: "unicode \<Rightarrow> gate_config \<Rightarrow> bool" where
  "valid_gate u gate \<longleftrightarrow>
     valid_lean_name u (gate_module gate) \<and> valid_lean_name u (gate_program gate) \<and>
     valid_lean_name u (gate_policy gate) \<and> (\<forall>p. gate_proof gate = Some p \<longrightarrow> valid_lean_name u p)"

definition valid_stack :: "unicode \<Rightarrow> project_config \<Rightarrow> stack_config \<Rightarrow> bool" where
  "valid_stack u config s \<longleftrightarrow>
     valid_backend_kind (be_kind (sc_backend s)) \<and> sc_main s \<noteq> Some [] \<and> sc_test s \<noteq> Some [] \<and>
     (\<forall>f. sc_frontend s = Some f \<longrightarrow> configured_frontend config f) \<and>
     no_secrets (TTable (be_config (sc_backend s))) \<and>
     (\<forall>gate. sc_gate s = Some gate \<longrightarrow> valid_gate u gate \<and> runs_lean config s)"

definition valid_frontends :: "project_config \<Rightarrow> bool" where
  "valid_frontends config \<longleftrightarrow>
     (cf_purescript config \<noteq> None \<or> cf_lean config \<noteq> None) \<and>
     (\<forall>p. cf_purescript config = Some p \<longrightarrow>
        \<not> blank (psc_package p) \<and> \<not> blank (psc_main p) \<and> psc_test p \<noteq> Some []) \<and>
     (\<forall>l. cf_lean config = Some l \<longrightarrow>
        \<not> blank (lean_main l) \<and> lean_test l \<noteq> Some [] \<and>
        (core_path (lean_core l) = None \<or> core_git (lean_core l) = None) \<and>
        (core_git (lean_core l) = None \<longrightarrow> core_rev (lean_core l) = None \<and> core_subdir (lean_core l) = None))"

definition valid_config :: "unicode \<Rightarrow> project_config \<Rightarrow> bool" where
  "valid_config u config \<longleftrightarrow>
     valid_frontends config \<and>
     (\<forall>(name, p) \<in> set (cf_providers config).
        valid_component_name name \<and> \<not> blank (pv_source p) \<and> \<not> blank (pv_version p)) \<and>
     cf_stacks config \<noteq> [] \<and>
     (\<forall>(name, s) \<in> set (cf_stacks config). valid_stack_name name \<and> valid_stack u config s)"

lemma and_then_unit: "and_then r f = Inr () \<longleftrightarrow> (\<exists>x. r = Inr x \<and> f x = Inr ())"
  by (cases r) auto

lemma fail_if_unit [simp]: "fail_if b e = Inr u \<longleftrightarrow> \<not> b"
  by (cases b) simp_all

lemma check_purescript_ok [simp]:
  "check_purescript p = Inr () \<longleftrightarrow>
     \<not> blank (psc_package p) \<and> \<not> blank (psc_main p) \<and> psc_test p \<noteq> Some []"
  by (simp add: check_purescript_def and_then_unit)

lemma check_lean_ok [simp]:
  "check_lean l = Inr () \<longleftrightarrow>
     \<not> blank (lean_main l) \<and> lean_test l \<noteq> Some [] \<and>
     (core_path (lean_core l) = None \<or> core_git (lean_core l) = None) \<and>
     (core_git (lean_core l) = None \<longrightarrow> core_rev (lean_core l) = None \<and> core_subdir (lean_core l) = None)"
  by (auto simp: check_lean_def and_then_unit Let_def)

lemma check_provider_ok [simp]:
  "check_provider (name, p) = Inr () \<longleftrightarrow>
     valid_component_name name \<and> \<not> blank (pv_source p) \<and> \<not> blank (pv_version p)"
  by (simp add: check_provider_def and_then_unit)

lemma try_each_enumerate:
  "(\<forall>x \<in> set (enumerate n xs). P (snd x)) \<longleftrightarrow> (\<forall>x \<in> set xs. P x)"
  by (metis (no_types, lifting) image_eqI image_iff list.set_map map_snd_enumerate)

lemma no_secrets_simps [simp]:
  "no_secrets (TTable table) \<longleftrightarrow> (\<forall>e \<in> set table. \<not> secret_like_key (fst e) \<and> no_secrets (snd e))"
  "no_secrets (TArray items) \<longleftrightarrow> (\<forall>v \<in> set items. no_secrets v)"
  by (auto simp: no_secrets_def)

lemma validate_backend_value_ok [simp]:
  "validate_backend_value name path v = Inr () \<longleftrightarrow> no_secrets v"
proof (induction name path v rule: validate_backend_value.induct)
  case (1 name path table)
  have "validate_backend_value name (path @ ''.'' @ fst e) (snd e) = Inr () \<longleftrightarrow> no_secrets (snd e)"
    if "e \<in> set table" and "\<not> secret_like_key (fst e)" for e
    using 1[of e "fst e" "snd e"] that by simp
  then show ?case by (auto simp: case_prod_beta and_then_unit)
next
  case (2 name path items)
  have "validate_backend_value name (path @ ''['' @ show_nat (fst x) @ '']'') (snd x) = Inr () \<longleftrightarrow> no_secrets (snd x)"
    if "x \<in> set (enumerate 0 items)" for x
    using 2[of x "fst x" "snd x"] that by simp
  then have "validate_backend_value name path (TArray items) = Inr () \<longleftrightarrow>
      (\<forall>x \<in> set (enumerate 0 items). no_secrets (snd x))"
    by (simp add: case_prod_beta)
  then show ?case by (simp only: try_each_enumerate no_secrets_simps)
qed (simp_all add: no_secrets_def)

lemma validate_backend_config_ok [simp]:
  "validate_backend_config name config = Inr () \<longleftrightarrow> no_secrets (TTable config)"
  by (simp add: validate_backend_config_def and_then_unit case_prod_beta)

lemma validate_gate_ok [simp]: "validate_gate u name gate = Inr () \<longleftrightarrow> valid_gate u gate"
  by (auto simp: validate_gate_def valid_gate_def and_then_unit split: option.splits)

lemma check_stack_config_ok:
  "check_stack_config u config (name, s) = Inr () \<longleftrightarrow>
     valid_stack_name name \<and> valid_backend_kind (be_kind (sc_backend s)) \<and>
     sc_main s \<noteq> Some [] \<and> sc_test s \<noteq> Some [] \<and>
     (\<forall>f. sc_frontend s = Some f \<longrightarrow> configured_frontend config f) \<and>
     no_secrets (TTable (be_config (sc_backend s))) \<and>
     (\<forall>gate. sc_gate s = Some gate \<longrightarrow> valid_gate u gate)"
  by (auto simp: check_stack_config_def and_then_unit configured_frontend_def
      split: option.splits frontend.splits)

lemma stack_frontend_Lean:
  assumes "map_of (cf_stacks (pj_config project)) name = Some s"
  shows "(\<exists>f. stack_frontend project name = Inr f \<and> f = Lean) \<longleftrightarrow> runs_lean (pj_config project) s"
  using assms
  by (auto simp: stack_frontend_def stack_def frontends_def runs_lean_def split: option.splits list.splits if_splits)

lemma check_gate_frontends_ok:
  assumes "bm_wf (cf_stacks (pj_config project))"
  shows "check_gate_frontends project = Inr () \<longleftrightarrow>
    (\<forall>(name, s) \<in> set (cf_stacks (pj_config project)). sc_gate s \<noteq> None \<longrightarrow> runs_lean (pj_config project) s)"
proof -
  have "(case x of (name, s) \<Rightarrow> if sc_gate s = None then Inr ()
         else and_then (stack_frontend project name) (\<lambda>f. fail_if (f \<noteq> Lean) (GateNeedsLean name))) = Inr () \<longleftrightarrow>
      (case x of (name, s) \<Rightarrow> sc_gate s \<noteq> None \<longrightarrow> runs_lean (pj_config project) s)"
    if "x \<in> set (cf_stacks (pj_config project))" for x
  proof (cases x)
    case (Pair name s)
    have "map_of (cf_stacks (pj_config project)) name = Some s"
      using that assms Pair by (simp add: increasing_distinct)
    from stack_frontend_Lean[OF this] Pair show ?thesis by (auto simp: and_then_unit)
  qed
  then show ?thesis by (simp add: check_gate_frontends_def)
qed

lemma check_config_ok:
  "check_config u config = Inr () \<longleftrightarrow>
     valid_frontends config \<and>
     (\<forall>(name, p) \<in> set (cf_providers config).
        valid_component_name name \<and> \<not> blank (pv_source p) \<and> \<not> blank (pv_version p)) \<and>
     cf_stacks config \<noteq> [] \<and>
     (\<forall>x \<in> set (cf_stacks config). check_stack_config u config x = Inr ())"
  by (auto simp: check_config_def valid_frontends_def and_then_unit split: option.splits)

lemma load_ok:
  assumes "\<And>source config. decode_config source = Some config \<Longrightarrow> bm_wf (cf_stacks config)"
  shows "load u read_file decode_config path = Inr project \<longleftrightarrow>
    (\<exists>source. read_file path = Some source \<and> decode_config source = Some (pj_config project) \<and>
       valid_config u (pj_config project) \<and> pj_root project = project_root path)"
proof -
  have checks: "check_config u config = Inr () \<and>
      check_gate_frontends \<lparr>pj_root = project_root path, pj_config = config\<rparr> = Inr () \<longleftrightarrow> valid_config u config"
    if "bm_wf (cf_stacks config)" for config
    using that
    by (fastforce simp: check_config_ok check_gate_frontends_ok valid_config_def valid_stack_def check_stack_config_ok)
  show ?thesis
  proof (cases "\<exists>source config. read_file path = Some source \<and> decode_config source = Some config")
    case True
    then obtain source config where read: "read_file path = Some source" "decode_config source = Some config"
      by blast
    have "load u read_file decode_config path = Inr project \<longleftrightarrow>
        valid_config u config \<and> project = \<lparr>pj_root = project_root path, pj_config = config\<rparr>"
      using checks[OF assms[OF read(2)]] by (auto simp: load_def read and_then_unit and_then_ok Let_def)
    with read show ?thesis by auto
  qed (auto simp: load_def split: option.splits)
qed

section \<open>The apply order\<close>

text \<open>Each stack of the list comes after the stacks it reads.\<close>

definition after_reads :: "(string \<Rightarrow> string list) \<Rightarrow> string list \<Rightarrow> bool" where
  "after_reads succs order \<longleftrightarrow>
     distinct order \<and> (\<forall>before name rest. order = before @ name # rest \<longrightarrow> set (succs name) \<subseteq> set before)"

lemma after_reads_add:
  assumes "after_reads succs order" and "name \<notin> set order" and "set (succs name) \<subseteq> set order"
  shows "after_reads succs (order @ [name])"
  unfolding after_reads_def
proof (intro conjI allI impI)
  show "distinct (order @ [name])" using assms by (simp add: after_reads_def)
  fix before n rest
  assume eq: "order @ [name] = before @ n # rest"
  show "set (succs n) \<subseteq> set before"
  proof (cases rest rule: rev_cases)
    case Nil
    with eq assms(3) show ?thesis by simp
  next
    case (snoc rest' x)
    with eq have "order = before @ n # rest'" by simp
    with assms(1) show ?thesis by (simp add: after_reads_def)
  qed
qed

interpretation apply_order: depth_first "fst ` set graphs" "reads graphs"
    "\<lambda>order name. name \<in> set order" "\<lambda>name order. order @ [name]" set "after_reads (reads graphs)"
    "visit_stack graphs" "visit_reads graphs" for graphs
proof
  show "set (reads graphs n) \<subseteq> fst ` set graphs" for n by (rule reads_nodes)
  show "visit_stack graphs n p d =
      (if n \<in> set d then Inr d
       else if n \<in> set p then Inl (dropWhile (\<lambda>x. x \<noteq> n) p @ [n])
       else and_then (visit_reads graphs (reads graphs n) (p @ [n]) d) (\<lambda>d'. Inr (d' @ [n])))" for n p d
    by (subst visit_stack.simps) simp
qed (simp_all add: after_reads_add)

lemma stack_order_result:
  "case stack_order graphs of
     Inr order \<Rightarrow> after_reads (reads graphs) order \<and> set order = fst ` set graphs
   | Inl e \<Rightarrow> \<exists>c. e = StackCycle c \<and> is_cycle (reads graphs) c"
proof -
  let ?r = "visit_reads graphs (map fst graphs) [] []"
  have start: "set (map fst graphs) \<subseteq> fst ` set graphs" "after_reads (reads graphs) []"
    by (auto simp: after_reads_def)
  show ?thesis
  proof (cases ?r)
    case (Inl c)
    with apply_order.search_reports_cycle[OF start _ Inl] show ?thesis by (simp add: stack_order_def)
  next
    case (Inr order)
    from apply_order.search_none[OF start _ Inr] have "after_reads (reads graphs) order"
      "fst ` set graphs \<subseteq> set order" "set order \<subseteq> fst ` set graphs" by simp_all
    with Inr show ?thesis by (auto simp: stack_order_def)
  qed
qed

section \<open>Names stay inside their directory\<close>

lemma component_name_plain:
  assumes "valid_component_name name"
  shows "is_name (Normal name)" and "\<not> is_absolute name" and "name \<noteq> []"
proof -
  from assms have ne: "name \<noteq> []"
    and all: "\<forall>c \<in> set name. is_ascii_alphanumeric c \<or> c = CHR ''-'' \<or> c = CHR ''_''"
    and dots: "name \<noteq> ''.''" "name \<noteq> ''..''"
    by (auto simp: valid_component_name_def list_all_iff)
  have "\<not> is_ascii_alphanumeric (CHR ''/'')" by (simp add: string_simps)
  with all have "CHR ''/'' \<notin> set name" by auto
  moreover from this have "hd name \<noteq> CHR ''/''" using ne hd_in_set by metis
  ultimately show "is_name (Normal name)" "\<not> is_absolute name" "name \<noteq> []"
    using ne dots by (simp_all add: is_absolute_def)
qed

lemma normalize_child:
  assumes "is_absolute cwd" and "valid_component_name name"
  shows "normalize cwd (path_join base name) = normalize cwd base @ [Normal name]"
proof -
  note plain = component_name_plain[OF assms(2)]
  have "split_on (CHR ''/'') name = [name]" using plain(1) by (simp add: split_on_single)
  then have "body_components name = [Normal name]"
    using plain(1) by (simp add: body_components_def)
  with normalize_join[OF assms(1) plain(2,3), of base] show ?thesis by simp
qed

lemma cli_pascal_case_eq: "cli_pascal_case value = pascal_case value"
  by (simp add: cli_pascal_case_def pascal_case_def foldl_push split_words_def)

section \<open>Properties\<close>

text \<open>A project with one PureScript and one gated Lean stack; the second reads the first.\<close>

definition sample_unicode :: unicode where
  "sample_unicode =
     \<lparr>alphabetic = (\<lambda>c. c \<noteq> [] \<and> is_ascii_alphabetic (hd c)),
      alphanumeric_char = (\<lambda>c. c \<noteq> [] \<and> is_ascii_alphanumeric (hd c)),
      control = (\<lambda>c. c \<noteq> [] \<and> byte (hd c) < 32)\<rparr>"

definition sample_config :: project_config where
  "sample_config =
     \<lparr>cf_purescript = Some \<lparr>psc_directory = ''purescript'', psc_package = ''infra'', psc_main = ''Main'', psc_test = None\<rparr>,
      cf_lean = Some \<lparr>lean_directory = ''lean'', lean_main = ''infra'', lean_test = Some ''infra-test'',
        lean_core = \<lparr>core_path = None, core_git = None, core_rev = None, core_subdir = None\<rparr>\<rparr>,
      cf_providers = [], cf_workspace = default_workspace,
      cf_stacks =
        [(''app'', default_stack
            \<lparr>sc_frontend := Some Lean,
             sc_gate := Some \<lparr>gate_module = ''Infra.Test'', gate_program = ''infra'', gate_policy = ''policies'',
               gate_proof = None\<rparr>\<rparr>),
         (''network'', default_stack
            \<lparr>sc_frontend := Some PureScript,
             sc_backend := \<lparr>be_kind = ''s3'', be_config = [(''bucket'', TString ''state'')]\<rparr>\<rparr>)]\<rparr>"

definition sample_project :: project where
  "sample_project = \<lparr>pj_root = ''infra'', pj_config = sample_config\<rparr>"

definition sample_decode :: "string \<Rightarrow> project_config option" where
  "sample_decode source = (if source = [] then Some sample_config else None)"

lemma sample_decode_wf: "sample_decode source = Some config \<Longrightarrow> bm_wf (cf_stacks config)"
  by (auto simp: sample_decode_def sample_config_def split: if_splits)

lemma sample_loads: "load sample_unicode (\<lambda>_. Some []) sample_decode ''infra/inframe.toml'' = Inr sample_project"
  by code_simp

text \<open>C28. A project loads exactly when its file can be read and decoded and its configuration is
  valid: some frontend is configured and every one, provider and stack passes the checks of its
  table; no backend configuration has a secret-like key at any depth; every gate is written
  with Lean names and belongs to a stack that Lean builds. The project is the decoded one.\<close>

theorem load_accepts_valid:
  assumes "\<And>source config. decode_config source = Some config \<Longrightarrow> bm_wf (cf_stacks config)"
  shows "load u read_file decode_config path = Inr project \<longleftrightarrow>
    (\<exists>source. read_file path = Some source \<and> decode_config source = Some (pj_config project) \<and>
       valid_config u (pj_config project) \<and> pj_root project = project_root path)"
  using assms by (rule load_ok)

lemma load_accepts_valid_witness: "valid_config sample_unicode sample_config"
  using load_accepts_valid[of sample_decode sample_unicode "\<lambda>_. Some []" "''infra/inframe.toml''" sample_project]
    sample_decode_wf sample_loads
  by (auto simp: sample_project_def)

text \<open>C29. The directory of a stack of a loaded project is one level below the \<open>stacks\<close> directory
  of the workspace it was made for: no stack name is refused there, and none leads out of it.\<close>

theorem stack_directory_contained:
  assumes "\<And>source config. decode_config source = Some config \<Longrightarrow> bm_wf (cf_stacks config)"
    and "load u read_file decode_config path = Inr project"
    and "name \<in> set (stack_names project)" and "is_absolute cwd"
  shows "\<exists>root. workspace_root base name = Inr root \<and>
    normalize cwd root = normalize cwd (path_join base ''stacks'') @ [Normal name]"
proof -
  from assms(1,2) have "valid_config u (pj_config project)" using load_ok by blast
  with assms(3) have "valid_component_name name"
    by (auto simp: stack_names_def valid_config_def valid_stack_name_def)
  then show ?thesis
    using normalize_child[OF assms(4)] by (simp add: workspace_root_def valid_stack_name_def)
qed

lemma stack_directory_contained_witness:
  "\<exists>root. workspace_root ''.inframe'' ''app'' = Inr root \<and>
     normalize ''/'' root = normalize ''/'' (path_join ''.inframe'' ''stacks'') @ [Normal ''app'']"
  by (rule stack_directory_contained[OF sample_decode_wf sample_loads])
    (simp_all add: stack_names_def sample_project_def sample_config_def is_absolute_def)

text \<open>C27. The apply order of a project's stacks lists each built stack once and after every stack
  it reads; when the stacks read each other in a circle there is none, and the error names
  such a circle.\<close>

theorem stack_order_applies:
  "case stack_order graphs of
     Inr order \<Rightarrow> distinct order \<and> set order = fst ` set graphs \<and>
       (\<forall>before name rest. order = before @ name # rest \<longrightarrow> set (reads graphs name) \<subseteq> set before)
   | Inl e \<Rightarrow> \<exists>c. e = StackCycle c \<and> 2 \<le> length c \<and> hd c = last c \<and>
       successively (\<lambda>x y. y \<in> set (reads graphs x)) c"
  using stack_order_result[of graphs] unfolding after_reads_def is_cycle_def by (auto split: sum.splits)

definition sample_graphs :: stack_graphs where
  "sample_graphs =
     [(''app'', default_graph\<lparr>stack_references := [\<lparr>sr_stack = ''network''\<rparr>]\<rparr>), (''network'', default_graph)]"

lemma stack_order_applies_witness:
  "stack_order sample_graphs = Inr [''network'', ''app''] \<and> fst ` set sample_graphs = set [''network'', ''app'']"
proof -
  have run: "stack_order sample_graphs = Inr [''network'', ''app'']" by code_simp
  show ?thesis using stack_order_applies[of sample_graphs] unfolding run sum.case by blast
qed

text \<open>The command line's own \<open>pascal_case\<close>, which names module roots, agrees with that of
  the bindings, which names the modules below them.\<close>

lemma cli_pascal_case_agrees: "cli_pascal_case value = pascal_case value"
  by (rule cli_pascal_case_eq)

end
