(* ===== verification/Cli_Correct.thy ===== *)
theory Cli_Correct
  imports Cli_Run Project_Correct Lower_Correct
begin

text \<open>
  What the command line guarantees whatever the outside answers: OpenTofu only runs after the
  checks of the stack have passed, once, with the credentials its subcommand needs and no others.
\<close>

section \<open>What each action adds to the history\<close>

fun is_tofu :: "event \<Rightarrow> bool" where
  "is_tofu (RanTofu c out) \<longleftrightarrow> True"
| "is_tofu _ \<longleftrightarrow> False"

abbreviation quiet_action :: "('e, 'a) action \<Rightarrow> bool" where
  "quiet_action \<equiv> emits (\<lambda>e. \<not> is_tofu e)"

named_theorems no_tofu

lemma no_tofu_asks [no_tofu]:
  "quiet_action (run_frontend H c)" "quiet_action (read_file H p)" "quiet_action (write_file H p s)"
  "quiet_action (remove_file H p)" "quiet_action (create_directory H p)" "quiet_action (create_temporary H p)"
  "quiet_action (persist_file H p q)" "quiet_action (read_variable H n)" "quiet_action (is_file H p)"
  "quiet_action (is_directory H p)"
  by (simp_all add: action_defs emits_ask)

lemma no_tofu_say [no_tofu]: "\<not> is_tofu e \<Longrightarrow> quiet_action (say e)"
  by (simp add: say_def emits_ask)

lemma no_tofu_captured [no_tofu]: "quiet_action (run_captured H L tool headline c directory)"
  unfolding run_captured_def
  by (intro emits_intros no_tofu) (auto intro!: emits_intros split: sum.splits io_error.splits)

lemma no_tofu_render [no_tofu]: "quiet_action (render_stack H L project name)"
proof -
  have warn: "quiet_action (warn_toolchain_mismatch H directory)" for directory
    unfolding warn_toolchain_mismatch_def Let_def
    by (intro emits_intros no_tofu) (auto intro!: emits_intros split: sum.splits)
  then have main: "quiet_action (render_main H project config frontend)" for config frontend
    unfolding render_main_def by (auto intro!: emits_intros split: frontend.splits)
  have decoded: "quiet_action (decode_graph L name out)" for out
    unfolding decode_graph_def by (auto intro!: emits_intros split: option.splits)
  show ?thesis
    unfolding render_stack_def Let_def by (intro emits_intros no_tofu main decoded)
qed

lemma no_tofu_build [no_tofu]: "quiet_action (build H L project name override)"
proof -
  have "quiet_action (create_parent H path)" for path
    unfolding create_parent_def by (auto intro!: emits_intros no_tofu split: option.splits)
  then show ?thesis
    unfolding build_def write_graph_def Let_def by (intro emits_intros no_tofu)
qed

lemma no_tofu_test [no_tofu]: "quiet_action (test_stack H project name)"
  unfolding test_stack_def
  by (intro emits_intros) (auto intro!: emits_intros no_tofu split: option.splits sum.splits io_error.splits)

lemma no_tofu_gate [no_tofu]: "quiet_action (run_gate H L project name g)"
proof -
  have stale: "quiet_action (remove_stale H path)" for path
    unfolding remove_stale_def
    by (intro emits_intros no_tofu) (auto intro!: emits_intros split: sum.splits io_error.splits)
  have abs: "quiet_action (absolute_path H path)" for path
    unfolding absolute_path_def by (auto intro!: emits_intros split: option.splits)
  have read: "quiet_action (read_graph_file H L name path)" for path
    unfolding read_graph_file_def
    by (intro emits_intros no_tofu) (auto intro!: emits_intros split: sum.splits option.splits)
  show ?thesis
    unfolding run_gate_def Let_def
    by (intro emits_intros) (auto intro!: emits_intros no_tofu stale abs read split: option.splits)
qed

lemma no_tofu_note [no_tofu]: "quiet_action (note_missing_gate H project name)"
  unfolding note_missing_gate_def by (intro emits_intros) simp

lemma no_tofu_check_gate [no_tofu]: "quiet_action (check_gate H L project name g quiet)"
proof -
  have "quiet_action (\<lambda>h. case run_gate H L project name g h of
      (Inl e, h) \<Rightarrow> (Inl (GateFailed name e), h) | (Inr u, h) \<Rightarrow> (Inr u, h))"
    using no_tofu_gate[of H L project name g] unfolding emits_def
    by (auto split: prod.splits sum.splits) (metis snd_conv)+
  then show ?thesis
    unfolding check_gate_def by (intro emits_intros) simp_all
qed

lemma no_tofu_check [no_tofu]: "quiet_action (check_stack H L project name g skip quiet)"
proof -
  have tests: "quiet_action (check_tests H project name quiet)"
    unfolding check_tests_def by (intro emits_intros no_tofu) simp
  show ?thesis
    unfolding check_stack_def Let_def by (intro emits_intros no_tofu tests) simp_all
qed

lemma no_tofu_write [no_tofu]:
  "quiet_action (write_atomic H root file contents)" "quiet_action (write_lowered H L root g)"
  "quiet_action (write_backend H L root kind config)"
  unfolding write_lowered_def write_backend_def write_atomic_def Let_def by (intro emits_intros no_tofu)+

lemma no_tofu_load [no_tofu]: "quiet_action (load_project H L path)"
  unfolding load_project_def by (intro emits_intros no_tofu)

lemma no_tofu_workspace [no_tofu]: "quiet_action (workspace_new base name)"
  unfolding workspace_new_def by (intro emits_intros)

lemma no_tofu_given [no_tofu]: "quiet_action (prepare_given H L args path)"
proof -
  have "quiet_action (read_graph H L path)" for path
    unfolding read_graph_def
    by (intro emits_intros no_tofu) (auto intro!: emits_intros split: sum.splits option.splits)
  then show ?thesis unfolding prepare_given_def by (intro emits_intros no_tofu)
qed

lemma no_tofu_built [no_tofu]: "quiet_action (prepare_built H L args path)"
  unfolding prepare_built_def Let_def
  by (auto intro!: emits_intros no_tofu)

lemma no_tofu_environment [no_tofu]: "quiet_action (secret_environment H g)"
proof -
  have "quiet_action (secret_entry H name)" for name
    unfolding secret_entry_def
    by (intro emits_intros no_tofu) (auto intro!: emits_intros split: option.splits)
  then show ?thesis unfolding secret_environment_def by (intro emits_intros)
qed

lemma no_tofu_require [no_tofu]: "quiet_action (require_tofu H binary)"
proof -
  have "quiet_action (first_file H candidates)" for candidates
    by (induction candidates) (auto intro!: emits_intros no_tofu)
  then have "quiet_action (find_executable H binary)"
    unfolding find_executable_def by (auto intro!: emits_intros no_tofu split: option.splits)
  then show ?thesis unfolding require_tofu_def by (intro emits_intros)
qed

section \<open>Evidence in the history\<close>

text \<open>The test entry point of the stack, if it has one, ran and succeeded.\<close>

definition tests_passed :: "project \<Rightarrow> string \<Rightarrow> history \<Rightarrow> bool" where
  "tests_passed project name h \<longleftrightarrow>
     (\<forall>t. test_entry_point project name = Inr (Some t) \<longrightarrow>
        (\<exists>frontend c out. stack_frontend project name = Inr frontend \<and>
           test_command project frontend t = Inr c \<and>
           RanFrontend c (Inr out) \<in> set h \<and> success (po_status out)))"

text \<open>
  A gate was checked: after a graph left by an earlier run was removed its source was written,
  Lean accepted it, and the graph read back right after that is the emitted one.
\<close>

definition gate_trace :: "library \<Rightarrow> project \<Rightarrow> string \<Rightarrow> graph_document \<Rightarrow> gate_config \<Rightarrow> history \<Rightarrow> bool" where
  "gate_trace L project name g gt h \<longleftrightarrow>
     (\<exists>lean source_path graph_file source out bytes written before between rest.
        lean_config_of project = Inr lean \<and> gate_source L name gt graph_file = Inr source \<and>
        h = before @ WroteFile source_path source (Inr ()) # between @
          RanFrontend (lake_check (path_join (pj_root project) (lean_directory lean)) source_path) (Inr out) #
          ReadFile graph_file (Inr bytes) # rest \<and>
        success (po_status out) \<and> lib_graph L bytes = Some written \<and> graph_equal written g \<and>
        list_ex (\<lambda>e. \<exists>r. e = RemovedFile graph_file r) before)"

definition gate_held :: "library \<Rightarrow> project \<Rightarrow> string \<Rightarrow> graph_document \<Rightarrow> history \<Rightarrow> bool" where
  "gate_held L project name g h \<longleftrightarrow>
     (\<forall>gt. gate project name = Inr (Some gt) \<longrightarrow> gate_trace L project name g gt h)"

lemma tests_passed_extend: "tests_passed project name h \<Longrightarrow> tests_passed project name (h @ es)"
  unfolding tests_passed_def by auto blast

lemma gate_held_extend: "gate_held L project name g h \<Longrightarrow> gate_held L project name g (h @ es)"
proof -
  have "gate_trace L project name g gt h \<Longrightarrow> gate_trace L project name g gt (h @ es)" for gt
    unfolding gate_trace_def by (auto simp del: append_assoc) (metis append_Cons append_assoc)
  then show "gate_held L project name g h \<Longrightarrow> gate_held L project name g (h @ es)"
    by (simp add: gate_held_def)
qed

lemma say_if_extends: "say_if b e h = (Inr u, h') \<Longrightarrow> \<exists>es. h' = h @ es"
  by (auto simp: say_if_def say_def action_ok split: if_splits)

lemma run_captured_ok:
  "run_captured H L tool headline c directory h = (Inr out, h') \<longleftrightarrow>
     h_run H h c = Inr out \<and> success (po_status out) \<and> h' = h @ [RanFrontend c (Inr out)]"
  by (auto simp: run_captured_def run_frontend_def action_ok split: sum.splits io_error.splits if_splits)

lemma test_stack_ok:
  assumes "test_stack H project name h = (Inr status, h')"
  shows "\<exists>frontend t c out. stack_frontend project name = Inr frontend \<and>
    test_entry_point project name = Inr (Some t) \<and> test_command project frontend t = Inr c \<and>
    h' = h @ [RanFrontend c (Inr out)] \<and> status = po_status out"
proof -
  from assms obtain frontend t c r where "stack_frontend project name = Inr frontend"
    "test_entry_point project name = Inr (Some t)" "test_command project frontend t = Inr c"
    and run: "(case r of
        Inl NotFound \<Rightarrow> raise_error (ToolNotFound (frontend_tool frontend))
      | Inl (OtherIo e) \<Rightarrow> raise_error (ToolNotStarted (frontend_tool frontend))
      | Inr out \<Rightarrow> give (po_status out)) (h @ [RanFrontend c r]) = (Inr status, h')"
    by (auto simp: test_stack_def action_ok action_defs split: option.split_asm)
  moreover have "\<exists>out. r = Inr out \<and> h' = h @ [RanFrontend c (Inr out)] \<and> status = po_status out"
  proof (cases r)
    case (Inl e)
    with run show ?thesis by (cases e) (simp_all add: action_ok)
  next
    case (Inr out)
    with run show ?thesis by (auto simp: action_ok)
  qed
  ultimately show ?thesis by blast
qed

lemma remove_stale_ok:
  "remove_stale H path h = (Inr u, h') \<Longrightarrow> \<exists>r. h' = h @ [RemovedFile path r]"
  by (auto simp: remove_stale_def remove_file_def action_ok split: sum.splits io_error.splits)

lemma read_graph_file_ok:
  "read_graph_file H L name path h = (Inr g, h') \<Longrightarrow>
     \<exists>bytes. lib_graph L bytes = Some g \<and> h' = h @ [ReadFile path (Inr bytes)]"
  by (auto simp: read_graph_file_def read_file_def action_ok split: sum.splits option.splits)

lemma run_gate_ok:
  assumes "run_gate H L project name g h = (Inr u, h')"
  shows "gate_held L project name g h'"
proof -
  from assms obtain gt lean gdir h1 h2 source o1 o2 written where gt: "gate project name = Inr (Some gt)"
    and lean: "lean_config_of project = Inr lean"
    and removed: "remove_stale H (path_join gdir ''graph.json'') h1 = (Inr (), h2)"
    and source: "gate_source L name gt (path_join gdir ''graph.json'') = Inr source"
    and read: "read_graph_file H L name (path_join gdir ''graph.json'')
        (h2 @ [WroteFile (path_join gdir ''Gate.lean'') source (Inr ())] @
          [RanFrontend (lake_build (path_join (pj_root project) (lean_directory lean)) gt) (Inr o1)] @
          [RanFrontend (lake_check (path_join (pj_root project) (lean_directory lean)) (path_join gdir ''Gate.lean'')) (Inr o2)]) =
        (Inr written, h')"
    and passed: "success (po_status o2)" "graph_equal written g"
    by (auto simp: run_gate_def action_ok action_defs run_captured_ok Let_def
        split: option.splits if_splits)
  from remove_stale_ok[OF removed] obtain r where h2: "h2 = h1 @ [RemovedFile (path_join gdir ''graph.json'') r]"
    by blast
  from read_graph_file_ok[OF read] obtain bytes where bytes: "lib_graph L bytes = Some written"
    and h': "h' = h2 @ WroteFile (path_join gdir ''Gate.lean'') source (Inr ()) #
        [RanFrontend (lake_build (path_join (pj_root project) (lean_directory lean)) gt) (Inr o1)] @
        RanFrontend (lake_check (path_join (pj_root project) (lean_directory lean)) (path_join gdir ''Gate.lean'')) (Inr o2) #
        ReadFile (path_join gdir ''graph.json'') (Inr bytes) # []"
    by auto
  have "list_ex (\<lambda>e. \<exists>r. e = RemovedFile (path_join gdir ''graph.json'') r) h2" by (simp add: h2)
  then have "gate_trace L project name g gt h'"
    unfolding gate_trace_def using lean source h' passed bytes by blast
  with gt show ?thesis by (simp add: gate_held_def)
qed

lemma check_stack_ok:
  assumes "check_stack H L project name g skip quiet h = (Inr u, h')" and "\<not> skip"
  shows "tests_passed project name h' \<and> gate_held L project name g h'"
proof -
  from assms obtain sg entry where sg: "gate project name = Inr sg"
    and entry: "test_entry_point project name = Inr entry"
    by (auto simp: check_stack_def action_ok Let_def)
  show ?thesis
  proof (cases "entry = None \<and> sg = None")
    case True
    with sg entry show ?thesis by (simp add: tests_passed_def gate_held_def)
  next
    case False
    with assms sg entry obtain h1 where tests: "(if entry \<noteq> None then check_tests H project name quiet else give ()) h = (Inr (), h1)"
      and rest: "(if sg \<noteq> None then check_gate H L project name g quiet
        else if \<not> quiet then note_missing_gate H project name else give ()) h1 = (Inr u, h')"
      by (auto simp: check_stack_def action_ok Let_def split: if_splits)
    have "tests_passed project name h1"
    proof (cases entry)
      case (Some t)
      with tests obtain h0 status where run: "test_stack H project name h = (Inr status, h0)" "success status"
        and h1: "\<exists>es. h1 = h0 @ es"
        by (auto simp: check_tests_def action_ok split: if_splits dest: say_if_extends)
      have "tests_passed project name h0"
        using run(2) entry Some test_stack_ok[OF run(1)] by (auto simp: tests_passed_def)
      with h1 show ?thesis using tests_passed_extend by blast
    qed (simp add: tests_passed_def entry)
    moreover have "gate_held L project name g h'"
    proof (cases sg)
      case (Some gt)
      with rest obtain h2 where "run_gate H L project name g h1 = (Inr (), h2)"
        and "\<exists>es. h' = h2 @ es"
        by (auto simp: check_gate_def action_ok split: prod.splits sum.splits dest: say_if_extends)
      then show ?thesis using gate_held_extend run_gate_ok by blast
    qed (simp add: gate_held_def sg)
    moreover have "\<exists>es. h' = h1 @ es"
    proof -
      have "quiet_action (if sg \<noteq> None then check_gate H L project name g quiet
        else if \<not> quiet then note_missing_gate H project name else give ())"
        by (intro emits_intros no_tofu)
      from emits_extends[OF this rest] show ?thesis by blast
    qed
    ultimately show ?thesis using tests_passed_extend by blast
  qed
qed

section \<open>Deployments\<close>

lemma render_stack_ok:
  "render_stack H L project name h = (Inr g, h') \<Longrightarrow>
     validate g = Inr () \<and> check_stack_references project name g = Inr ()"
  by (auto simp: render_stack_def action_ok Let_def)

lemma build_ok:
  "build H L project name override h = (Inr (g, path), h') \<Longrightarrow>
     validate g = Inr () \<and> check_stack_references project name g = Inr ()"
  by (auto simp: build_def action_ok Let_def dest: render_stack_ok)

lemma load_project_ok:
  "load_project H L path h = (Inr project, h') \<Longrightarrow>
     \<exists>source. h' = h @ [ReadFile path (Inr source)] \<and>
       load (lib_unicode L) (\<lambda>_. Some source) (lib_config L) path = Inr project"
  by (auto simp: load_project_def read_file_def action_ok load_def split: sum.splits)

text \<open>The graph a stack's program printed is accepted, and its checks have passed.\<close>

definition cleared :: "library \<Rightarrow> string \<Rightarrow> project \<Rightarrow> string \<Rightarrow> graph_document \<Rightarrow> history \<Rightarrow> bool" where
  "cleared L project_path project name g h \<longleftrightarrow>
     (\<exists>source. ReadFile project_path (Inr source) \<in> set h \<and>
        load (lib_unicode L) (\<lambda>_. Some source) (lib_config L) project_path = Inr project) \<and>
     validate g = Inr () \<and> check_stack_references project name g = Inr () \<and>
     tests_passed project name h \<and> gate_held L project name g h"

lemma cleared_extend: "cleared L path project name g h \<Longrightarrow> cleared L path project name g (h @ es)"
  unfolding cleared_def using tests_passed_extend gate_held_extend by auto

lemma prepare_built_ok:
  assumes "prepare_built H L args path h = (Inr (resolved, root), h')" and "\<not> ra_skip_tests args"
  shows "\<exists>project g. cleared L path project (ra_stack args) g h' \<and>
    resolve_references (lib_toml L) (h_absolute H) project g
      (unwrap_or (ra_workspace args) (workspace_directory project)) = Inr resolved \<and>
    workspace_root (unwrap_or (ra_workspace args) (workspace_directory project)) (ra_stack args) = Inr root"
proof -
  from assms(1) obtain project h1 g artifact h2 h3 h4 kind config where
    load: "load_project H L path h = (Inr project, h1)"
    and build: "build H L project (ra_stack args) None h1 = (Inr (g, artifact), h2)"
    and said: "\<exists>es. h3 = h2 @ es"
    and check: "check_stack H L project (ra_stack args) g (ra_skip_tests args) (ra_quiet args) h3 = (Inr (), h4)"
    and resolve: "resolve_references (lib_toml L) (h_absolute H) project g
      (unwrap_or (ra_workspace args) (workspace_directory project)) = Inr resolved"
    and root: "workspace_root (unwrap_or (ra_workspace args) (workspace_directory project)) (ra_stack args) = Inr root"
    and backend: "\<exists>p. write_backend H L root kind config h4 = (Inr p, h')"
    by (auto simp: prepare_built_def workspace_new_def action_ok Let_def dest!: say_if_extends) blast
  from load_project_ok[OF load] obtain source where h1: "h1 = h @ [ReadFile path (Inr source)]"
    and source: "load (lib_unicode L) (\<lambda>_. Some source) (lib_config L) path = Inr project" by blast
  from emits_extends[OF no_tofu_build build] obtain es2 where h2: "h2 = h1 @ es2" by blast
  from emits_extends[OF no_tofu_check check] obtain es4 where h4: "h4 = h3 @ es4" by blast
  have "cleared L path project (ra_stack args) g h4"
    unfolding cleared_def
    using source build_ok[OF build] check_stack_ok[OF check assms(2)] said h1 h2 h4 by auto
  moreover from backend obtain p where "write_backend H L root kind config h4 = (Inr p, h')" by blast
  then obtain es where "h' = h4 @ es" using emits_extends[OF no_tofu_write(3)] by blast
  ultimately show ?thesis using resolve root cleared_extend by blast
qed

text \<open>The lowered graph was written completely before it took its place in the workspace.\<close>

definition lowered_into :: "library \<Rightarrow> string \<Rightarrow> graph_document \<Rightarrow> history \<Rightarrow> bool" where
  "lowered_into L root g h \<longleftrightarrow>
     (\<exists>rendered temporary before between rest.
        to_pretty_json (lib_pretty L) (lib_string L) g = Inr rendered \<and>
        h = before @ WroteFile temporary rendered (Inr ()) # between @
          Persisted temporary (path_join root ''main.tofu.json'') (Inr ()) # rest)"

lemma lowered_into_extend: "lowered_into L root g h \<Longrightarrow> lowered_into L root g (h @ es)"
  unfolding lowered_into_def by (auto simp del: append_assoc) (metis append_Cons append_assoc)

lemma write_lowered_ok:
  assumes "write_lowered H L root g h = (Inr p, h')"
  shows "lowered_into L root g h'"
proof -
  from assms obtain rendered h1 temporary where rendered: "to_pretty_json (lib_pretty L) (lib_string L) g = Inr rendered"
    and h': "h' = h1 @ WroteFile temporary rendered (Inr ()) # [] @
      Persisted temporary (path_join root ''main.tofu.json'') (Inr ()) # []"
    by (auto simp: write_lowered_def write_atomic_def action_ok action_defs Let_def)
  then show ?thesis unfolding lowered_into_def by blast
qed

lemma run_with_env_history:
  assumes "run_with_env H binary root subcommand args environment h = (r, h')"
  shows "\<exists>out. h' = h @ [RanTofu \<lparr>cm_program = binary, cm_args = subcommand # args, cm_directory = root,
    cm_environment = environment\<rparr> out]"
  using assms
  by (auto simp: run_with_env_def bind_action_def run_tofu_def ask_def Let_def give_def raise_error_def
      split: sum.splits if_splits)

text \<open>Everything that happened when OpenTofu was run.\<close>

lemma run_graph_reaches:
  assumes "run_graph H L subcommand tofu_args args project_path binary [] = (r, h)" and "list_ex is_tofu h"
  obtains g root h1 environment h2 before out where
    "(case ra_graph args of Some path \<Rightarrow> prepare_given H L args path
        | None \<Rightarrow> prepare_built H L args project_path) [] = (Inr (g, root), h1)"
    and "lowered_into L root g h2"
    and "\<exists>es. h2 = h1 @ es"
    and "\<exists>h3. (if needs_credentials subcommand then secret_environment H g else give []) h2 = (Inr environment, h3)"
    and "\<exists>es. before = h2 @ es" and "\<not> list_ex is_tofu before"
    and "h = before @ [RanTofu \<lparr>cm_program = binary, cm_args = subcommand # tofu_args, cm_directory = root,
      cm_environment = environment\<rparr> out]"
proof -
  have prepare: "quiet_action (case ra_graph args of Some path \<Rightarrow> prepare_given H L args path
      | None \<Rightarrow> prepare_built H L args project_path)"
    by (cases "ra_graph args") (simp_all add: no_tofu)
  have creds: "quiet_action (if needs_credentials subcommand then secret_environment H g else give [])" for g
    by (intro emits_intros no_tofu)
  from bind_reaches[OF prepare assms(1)[unfolded run_graph_def] assms(2)] obtain g root h1 where
    p: "(case ra_graph args of Some path \<Rightarrow> prepare_given H L args path
      | None \<Rightarrow> prepare_built H L args project_path) [] = (Inr (g, root), h1)"
    and r1: "bind_action (write_lowered H L root g) (\<lambda>_.
      bind_action (if needs_credentials subcommand then secret_environment H g else give []) (\<lambda>environment.
      bind_action (require_tofu H binary) (\<lambda>_.
      bind_action (run_with_env H binary root subcommand tofu_args environment) (\<lambda>_. give ())))) h1 = (r, h)"
    and n1: "\<not> list_ex is_tofu h1" by auto
  from bind_reaches[OF no_tofu_write(2) r1 assms(2) n1] obtain artifact h2 where
    w: "write_lowered H L root g h1 = (Inr artifact, h2)"
    and r2: "bind_action (if needs_credentials subcommand then secret_environment H g else give []) (\<lambda>environment.
      bind_action (require_tofu H binary) (\<lambda>_.
      bind_action (run_with_env H binary root subcommand tofu_args environment) (\<lambda>_. give ()))) h2 = (r, h)"
    and n2: "\<not> list_ex is_tofu h2" .
  from bind_reaches[OF creds r2 assms(2) n2] obtain environment h3 where
    e: "(if needs_credentials subcommand then secret_environment H g else give []) h2 = (Inr environment, h3)"
    and r3: "bind_action (require_tofu H binary) (\<lambda>_.
      bind_action (run_with_env H binary root subcommand tofu_args environment) (\<lambda>_. give ())) h3 = (r, h)"
    and n3: "\<not> list_ex is_tofu h3" .
  from bind_reaches[OF no_tofu_require r3 assms(2) n3] obtain u h4 where
    q: "require_tofu H binary h3 = (Inr u, h4)"
    and r4: "bind_action (run_with_env H binary root subcommand tofu_args environment) (\<lambda>_. give ()) h4 = (r, h)"
    and n4: "\<not> list_ex is_tofu h4" .
  from r4 obtain s where "run_with_env H binary root subcommand tofu_args environment h4 = (s, h)"
    by (auto simp: bind_action_def give_def split: prod.splits sum.splits)
  from run_with_env_history[OF this] obtain out where h: "h = h4 @ [RanTofu \<lparr>cm_program = binary,
    cm_args = subcommand # tofu_args, cm_directory = root, cm_environment = environment\<rparr> out]" by blast
  have "\<exists>es. h4 = h2 @ es"
    using emits_extends[OF creds e] emits_extends[OF no_tofu_require q] by auto
  moreover have "\<exists>es. h2 = h1 @ es" using emits_extends[OF no_tofu_write(2) w] by blast
  ultimately show ?thesis using that p write_lowered_ok[OF w] e n4 h by blast
qed

section \<open>Credentials\<close>

lemma each_entry_ok:
  assumes "each_action (secret_entry H) names h = (Inr entries, h')"
  shows "(\<forall>n \<in> set names. h_variable H n \<noteq> None) \<and>
    entries = map (\<lambda>n. (''TF_VAR_'' @ secret_variable_name n, the (h_variable H n))) names"
  using assms
proof (induction names arbitrary: h entries)
  case (Cons name names)
  have entry: "secret_entry H name h0 = (Inr y, h1) \<longleftrightarrow>
      (\<exists>v. h_variable H name = Some v \<and> y = (''TF_VAR_'' @ secret_variable_name name, v)) \<and>
      h1 = h0 @ [ReadVariable name (h_variable H name)]" for h0 y h1
    by (auto simp: secret_entry_def read_variable_def action_ok split: option.splits)
  from Cons.prems Cons.IH show ?case by (auto simp: action_ok entry)
qed (simp add: action_ok)

lemma secret_environment_ok:
  assumes "secret_environment H g h = (Inr environment, h')"
  shows "map_of environment (''TF_VAR_'' @ secret_variable_name n) =
      (if n \<in> set (secret_environment_names g) then h_variable H n else None)"
    and "\<forall>n \<in> set (secret_environment_names g). h_variable H n \<noteq> None"
    and "fst ` set environment = (\<lambda>n. ''TF_VAR_'' @ secret_variable_name n) ` set (secret_environment_names g)"
proof -
  let ?key = "\<lambda>n. ''TF_VAR_'' @ secret_variable_name n"
  let ?names = "secret_environment_names g"
  let ?entries = "map (\<lambda>n. (?key n, the (h_variable H n))) ?names"
  from assms obtain es h1 where entries: "each_action (secret_entry H) ?names h = (Inr es, h1)"
    and collected: "environment = bm_collect es"
    unfolding secret_environment_def bind_ok give_ok by blast
  from each_entry_ok[OF entries] collected have environment: "environment = bm_collect ?entries" by simp
  from each_entry_ok[OF entries] show set: "\<forall>n \<in> set ?names. h_variable H n \<noteq> None" using each_entry_ok by blast
  have inj: "inj ?key" using secret_variable_name_inj by (simp add: inj_def)
  have at: "map_of environment k = map_of (rev ?entries) k" for k
    by (simp add: environment btree_map.collect_get[OF btree_map.wf_emp])
  show "map_of environment (?key n) = (if n \<in> set ?names then h_variable H n else None)"
  proof (cases "n \<in> set ?names")
    case True
    then have "map_of (rev ?entries) (?key n) \<noteq> None" by (simp add: map_of_eq_None_iff image_image)
    then obtain v where v: "map_of (rev ?entries) (?key n) = Some v" by blast
    from map_of_SomeD[OF v] inj have "v = the (h_variable H n)" by (auto simp: inj_def)
    with True set v at show ?thesis by auto
  next
    case False
    then have "?key n \<notin> fst ` set (rev ?entries)"
      by (auto simp: inj_eq[OF secret_variable_name_inj])
    with False at show ?thesis by (simp add: map_of_eq_None_iff)
  qed
  have "dom (map_of environment) = dom (map_of (rev ?entries))" using at by presburger
  then show "fst ` set environment = ?key ` set ?names" by (simp add: dom_map_of_conv_image_fst image_image)
qed

lemma written_graph_valid: "to_pretty_json pretty ser g = Inr rendered \<Longrightarrow> validate g = Inr ()"
  by (auto simp: to_pretty_json_def lower_def split: sum.splits)

section \<open>A sample run\<close>

text \<open>Every tool succeeds, every file is there, and the programs print a graph that reads a secret and another stack.\<close>

definition sample_library :: library where
  "sample_library =
     \<lparr>lib_unicode = sample_unicode, lib_config = sample_decode, lib_graph = (\<lambda>_. Some sample_graph),
      lib_toml = (\<lambda>_. Some (JString ''state'')), lib_string = (\<lambda>_. ''s''),
      lib_pretty = (\<lambda>_. ''{}''), lib_json = (\<lambda>_. None), lib_status = (\<lambda>_. ''exit status'')\<rparr>"

definition sample_host :: host where
  "sample_host =
     \<lparr>h_run = (\<lambda>_ _. Inr \<lparr>po_status = Exited 0, po_stdout = [], po_stderr = []\<rparr>), h_read = (\<lambda>_ _. Inr []),
      h_write = (\<lambda>_ _ _. Inr ()), h_remove = (\<lambda>_ _. Inl NotFound), h_create = (\<lambda>_ _. Inr ()),
      h_temporary = (\<lambda>_ _. Inr ''temporary''), h_persist = (\<lambda>_ _ _. Inr ()), h_variable = (\<lambda>_. Some ''value''),
      h_is_file = (\<lambda>_ _. True), h_is_directory = (\<lambda>_ _. True), h_exists = (\<lambda>_ _. False),
      h_modified = (\<lambda>_ _. None), h_tree = (\<lambda>_ _. None), h_workspace = (\<lambda>_. Inr ''workspace''),
      h_package = (\<lambda>_ _ _. Inr ()), h_absolute = (\<lambda>p. Some (''/'' @ p))\<rparr>"

definition sample_args :: run_args where
  "sample_args =
     \<lparr>ra_stack = ''app'', ra_graph = None, ra_workspace = None, ra_skip_tests = False, ra_quiet = True,
      ra_tofu_args = []\<rparr>"

definition sample_run :: "(failure, unit) result \<times> history" where
  "sample_run = run_graph sample_host sample_library ''plan'' [] sample_args ''infra/inframe.toml'' ''tofu'' []"

lemma sample_run_tofu: "list_ex is_tofu (snd sample_run)"
  by code_simp

section \<open>Properties\<close>



text \<open>C8. The environment OpenTofu runs with: nothing is added for a subcommand that reads no
  provider; otherwise there is a variable for each secret the graph it reads names, set to that
  environment variable's value, and no other. The graph is valid, built or given.\<close>

theorem credentials_exact:
  assumes "run_graph H L subcommand tofu_args args project_path binary [] = (r, h)"
    and "RanTofu c out \<in> set h"
  shows "\<exists>g. validate g = Inr () \<and> lowered_into L (cm_directory c) g h \<and>
    cm_program c = binary \<and> cm_args c = subcommand # tofu_args \<and>
    (if needs_credentials subcommand then
       fst ` set (cm_environment c) = (\<lambda>n. ''TF_VAR_'' @ secret_variable_name n) ` set (secret_environment_names g) \<and>
       (\<forall>n \<in> set (secret_environment_names g). h_variable H n \<noteq> None \<and>
          map_of (cm_environment c) (''TF_VAR_'' @ secret_variable_name n) = h_variable H n)
     else cm_environment c = [])"
proof -
  from assms(2) have some: "list_ex is_tofu h" unfolding list_ex_iff by (intro bexI) auto
  from run_graph_reaches[OF assms(1) some] obtain g root h1 environment h2 before out' where
    lowered: "lowered_into L root g h2"
    and creds: "\<exists>h3. (if needs_credentials subcommand then secret_environment H g else give []) h2 = (Inr environment, h3)"
    and grows: "\<exists>es. before = h2 @ es"
    and quiet: "\<not> list_ex is_tofu before"
    and h: "h = before @ [RanTofu \<lparr>cm_program = binary, cm_args = subcommand # tofu_args, cm_directory = root,
      cm_environment = environment\<rparr> out']" .
  from assms(2) quiet h have c: "c = \<lparr>cm_program = binary, cm_args = subcommand # tofu_args,
      cm_directory = root, cm_environment = environment\<rparr>" by (auto simp: list_ex_iff)
  from lowered have valid: "validate g = Inr ()" using written_graph_valid unfolding lowered_into_def by blast
  from lowered grows h have written: "lowered_into L root g h" using lowered_into_extend by auto
  show ?thesis
  proof (cases "needs_credentials subcommand")
    case True
    with creds obtain h3 where "secret_environment H g h2 = (Inr environment, h3)" by auto
    from secret_environment_ok[OF this] True valid written show ?thesis by (auto simp: c)
  next
    case False
    with creds valid written show ?thesis by (auto simp: c action_ok)
  qed
qed

lemma credentials_exact_witness:
  "\<exists>c out g. RanTofu c out \<in> set (snd sample_run) \<and> validate g = Inr () \<and>
     fst ` set (cm_environment c) = (\<lambda>n. ''TF_VAR_'' @ secret_variable_name n) ` set (secret_environment_names g)"
proof -
  have run: "run_graph sample_host sample_library ''plan'' [] sample_args ''infra/inframe.toml'' ''tofu'' [] =
      (fst sample_run, snd sample_run)" by (simp add: sample_run_def)
  from sample_run_tofu obtain c out where tofu: "RanTofu c out \<in> set (snd sample_run)"
    by (auto simp: list_ex_iff elim!: is_tofu.elims)
  have "needs_credentials ''plan''" by (simp add: needs_credentials_def)
  with credentials_exact[OF run tofu] tofu show ?thesis by auto
qed

end
