(* ===== verification/Inspect.thy ===== *)
theory Inspect
  imports Graph_Validate Text_Lines
begin

text \<open>
  The tree \<open>inframe graph inspect\<close> prints: \<open>crates/cli/src/inspect.rs\<close>. \<open>ser\<close> stands for
  the writer of \<open>serde_json\<close>, which the code calls for strings.
\<close>

datatype tree_node = TreeNode (node_label: string) (node_children: "tree_node list")

abbreviation leaf :: "string \<Rightarrow> tree_node" where
  "leaf label \<equiv> TreeNode label []"

section \<open>Text of expressions\<close>

text \<open>\<open>BTreeMap\<close> lists its entries in key order; a \<open>serde_json\<close> map is sorted first.\<close>

fun format_json :: "(json \<Rightarrow> string) \<Rightarrow> json \<Rightarrow> string" where
  "format_json ser JNull = ''null''"
| "format_json ser (JBool b) = (if b then ''true'' else ''false'')"
| "format_json ser (JNumber n) = n"
| "format_json ser (JString s) = ser (JString s)"
| "format_json ser (JArray items) = ''['' @ join '', '' (map (format_json ser) items) @ '']''"
| "format_json ser (JObject members) =
     ''{'' @ join '', '' (map (\<lambda>(name, value). ser (JString name) @ '': '' @ format_json ser value)
       (sort_key fst members)) @ ''}''"

definition format_reference :: "address \<Rightarrow> string list \<Rightarrow> string" where
  "format_reference address path =
     (if path = [] then display_address address else display_address address @ ''.'' @ join ''.'' path)"

definition format_addresses :: "address list \<Rightarrow> string" where
  "format_addresses addresses = ''['' @ join '', '' (map display_address addresses) @ '']''"

fun format_expr :: "(json \<Rightarrow> string) \<Rightarrow> expr \<Rightarrow> string" where
  "format_expr ser (Literal value) = format_json ser value"
| "format_expr ser (ResourceAttr address path) = format_reference address path"
| "format_expr ser (DataSourceAttr address path) = format_reference address path"
| "format_expr ser (Array items) = ''['' @ join '', '' (map (format_expr ser) items) @ '']''"
| "format_expr ser (Object members) =
     ''{'' @ join '', '' (map (\<lambda>(name, value). name @ '': '' @ format_expr ser value) members) @ ''}''"
| "format_expr ser (Index collection key) = format_expr ser collection @ ''['' @ format_expr ser key @ '']''"
| "format_expr ser (Attribute e name) = format_expr ser e @ ''.'' @ name"
| "format_expr ser (Splat e) = format_expr ser e @ ''[*]''"
| "format_expr ser (Conditional condition when_true when_false) =
     ''if '' @ format_expr ser condition @ '' then '' @ format_expr ser when_true @ '' else '' @
       format_expr ser when_false"
| "format_expr ser (Function name args) = name @ ''('' @ join '', '' (map (format_expr ser) args) @ '')''"
| "format_expr ser (Template parts) =
     ''template('' @ join '', '' (map (\<lambda>part. case part of
         TextPart value \<Rightarrow> ser (JString value)
       | Interpolation e \<Rightarrow> ''${'' @ format_expr ser e @ ''}'') parts) @ '')''"
| "format_expr ser (SecretEnv name) = ''secretEnv('' @ ser (JString name) @ '')''"
| "format_expr ser (UnsafeRaw text) = ''unsafeRaw('' @ ser (JString text) @ '')''"

section \<open>Nodes\<close>

text \<open>The values of an aligned list start in one column, right of the longest name.\<close>

definition column_width :: "(string \<times> 'v) list \<Rightarrow> nat" where
  "column_width members = fold max (map (length \<circ> fst) members) 0"

definition aligned :: "nat \<Rightarrow> string \<Rightarrow> string \<Rightarrow> string" where
  "aligned width name value = name @ '':'' @ replicate (width - length name) (CHR '' '') @ '' '' @ value"

definition item_label :: "nat \<Rightarrow> string" where
  "item_label index = ''['' @ show_nat index @ '']''"

fun is_structured_json :: "json \<Rightarrow> bool" where
  "is_structured_json (JArray items) \<longleftrightarrow> items \<noteq> []"
| "is_structured_json (JObject members) \<longleftrightarrow> members \<noteq> []"
| "is_structured_json _ \<longleftrightarrow> False"

lemma json_member_size [termination_simp]:
  "(k, v) \<in> set m \<Longrightarrow> size v < Suc (size_list (size_prod (\<lambda>_. 0) size) m)"
  by (induction m) auto

lemma argument_size: "(n, e) \<in> set m \<Longrightarrow> size e < Suc (size_list (\<lambda>x. Suc (size (snd x))) m)"
  by (induction m) auto

lemma item_size: "x \<in> set xs \<Longrightarrow> size x < Suc (size_list size xs)"
  by (induction xs) auto

lemma numbered_item_size: "(i, x) \<in> set (enumerate n xs) \<Longrightarrow> size x < Suc (size_list size xs)"
  by (rule item_size) (auto simp: in_set_enumerate_eq)

function (sequential)
  json_children :: "(json \<Rightarrow> string) \<Rightarrow> json \<Rightarrow> tree_node list"
  and json_item_node :: "(json \<Rightarrow> string) \<Rightarrow> nat \<Rightarrow> json \<Rightarrow> tree_node"
  and json_argument_nodes :: "(json \<Rightarrow> string) \<Rightarrow> (string \<times> json) list \<Rightarrow> tree_node list"
where
  "json_children ser (JArray items) = map (\<lambda>(index, item). json_item_node ser index item) (enumerate 0 items)"
| "json_children ser (JObject members) = json_argument_nodes ser members"
| "json_children ser _ = []"
| "json_item_node ser index value =
     (if is_structured_json value then TreeNode (item_label index) (json_children ser value)
      else leaf (item_label index @ '': '' @ format_json ser value))"
| "json_argument_nodes ser members =
     map (\<lambda>(name, value).
         if is_structured_json value then TreeNode (name @ '':'') (json_children ser value)
         else leaf (aligned (column_width members) name (format_json ser value)))
       (sort_key fst members)"
  by pat_completeness auto
termination
  by (relation "measure (case_sum (\<lambda>(ser, v). 2 * size v)
      (case_sum (\<lambda>(ser, i, v). 2 * size v + 1)
        (\<lambda>(ser, m). 2 * size_list (size_prod (\<lambda>_. 0) size) m + 1)))")
    (auto dest!: json_member_size numbered_item_size)

text \<open>An expression has children when part of it does not fit on one line.\<close>

function (sequential)
  expression_children :: "(json \<Rightarrow> string) \<Rightarrow> expr \<Rightarrow> tree_node list option"
  and expression_item_node :: "(json \<Rightarrow> string) \<Rightarrow> nat \<Rightarrow> expr \<Rightarrow> tree_node"
  and named_expression_node :: "(json \<Rightarrow> string) \<Rightarrow> string \<Rightarrow> expr \<Rightarrow> nat \<Rightarrow> tree_node"
  and argument_nodes :: "(json \<Rightarrow> string) \<Rightarrow> expr btree_map \<Rightarrow> tree_node list"
where
  "expression_children ser (Array items) =
     (if items \<noteq> [] \<and> list_ex (\<lambda>item. expression_children ser item \<noteq> None) items
      then Some (map (\<lambda>(index, item). expression_item_node ser index item) (enumerate 0 items))
      else None)"
| "expression_children ser (Object members) =
     (if members \<noteq> [] then Some (argument_nodes ser members) else None)"
| "expression_children ser (Literal (JArray items)) =
     (if items \<noteq> [] \<and> list_ex is_structured_json items
      then Some (map (\<lambda>(index, item). json_item_node ser index item) (enumerate 0 items))
      else None)"
| "expression_children ser (Literal (JObject members)) =
     (if members \<noteq> [] then Some (json_argument_nodes ser members) else None)"
| "expression_children ser _ = None"
| "expression_item_node ser index expression =
     (case expression_children ser expression of
        None \<Rightarrow> leaf (item_label index @ '': '' @ format_expr ser expression)
      | Some children \<Rightarrow> TreeNode (item_label index) children)"
| "named_expression_node ser name expression width =
     (case expression_children ser expression of
        Some children \<Rightarrow> TreeNode (name @ '':'') children
      | None \<Rightarrow> leaf (aligned width name (format_expr ser expression)))"
| "argument_nodes ser args =
     map (\<lambda>(name, expression). named_expression_node ser name expression (column_width args)) args"
  by pat_completeness auto
termination
  by (relation "measure (case_sum
      (case_sum (\<lambda>(ser, e). 3 * size e) (\<lambda>(ser, i, e). 3 * size e + 1))
      (case_sum (\<lambda>(ser, n, e, w). 3 * size e + 1) (\<lambda>(ser, m). 3 * size_list (\<lambda>x. Suc (size (snd x))) m + 2)))")
    (auto simp: termination_simp dest!: argument_size item_size[where 'a = expr] numbered_item_size[where 'a = expr])

section \<open>Sections\<close>

definition provider_configuration_node :: "(json \<Rightarrow> string) \<Rightarrow> provider_config \<Rightarrow> tree_node" where
  "provider_configuration_node ser configuration =
     TreeNode
       (case pc_alias configuration of
          None \<Rightarrow> ''default configuration''
        | Some alias \<Rightarrow> ''configuration alias: '' @ alias)
       (argument_nodes ser (pc_arguments configuration))"

definition provider_nodes :: "(json \<Rightarrow> string) \<Rightarrow> graph_document \<Rightarrow> tree_node list" where
  "provider_nodes ser g =
     map (\<lambda>(local_name, requirement).
         let configurations = sort_key provider_address
               (filter (\<lambda>configuration. pc_provider configuration = local_name) (provider_configs g));
             children = (if configurations = [] then [leaf ''default configuration: implicit'']
               else map (provider_configuration_node ser) configurations)
         in TreeNode (local_name @ '': '' @ pr_source requirement @ '' '' @ pr_version requirement) children)
       (required_providers g) @
     map (\<lambda>configuration. TreeNode (pc_provider configuration @ '': no explicit requirement'')
         [provider_configuration_node ser configuration])
       (sort_key provider_address
         (filter (\<lambda>configuration. pc_provider configuration \<notin> fst ` set (required_providers g))
           (provider_configs g)))"

definition provider_leaf :: "string option \<Rightarrow> tree_node list" where
  "provider_leaf provider = (case provider of None \<Rightarrow> [] | Some provider \<Rightarrow> [leaf (''provider: '' @ provider)])"

definition depends_on_leaf :: "address list \<Rightarrow> tree_node list" where
  "depends_on_leaf depends_on =
     (if depends_on = [] then [] else [leaf (''depends_on: '' @ format_addresses depends_on)])"

definition lifecycle_node :: "(json \<Rightarrow> string) \<Rightarrow> lifecycle \<Rightarrow> tree_node" where
  "lifecycle_node ser l =
     TreeNode ''lifecycle''
       ((if create_before_destroy l then [leaf ''create_before_destroy: true''] else []) @
        (if prevent_destroy l then [leaf ''prevent_destroy: true''] else []) @
        (if ignore_changes l = [] then []
         else [leaf (''ignore_changes: '' @ format_json ser (JArray (map JString (ignore_changes l))))]) @
        (if replace_triggered_by l = [] then []
         else [leaf (''replace_triggered_by: '' @ format_addresses (replace_triggered_by l))]))"

definition resource_node :: "(json \<Rightarrow> string) \<Rightarrow> resource_spec \<Rightarrow> tree_node" where
  "resource_node ser r =
     TreeNode (display_address (resource_address r))
       (argument_nodes ser (rs_arguments r) @ provider_leaf (rs_provider r) @ depends_on_leaf (rs_depends_on r) @
        (case rs_lifecycle r of None \<Rightarrow> [] | Some l \<Rightarrow> [lifecycle_node ser l]))"

definition resource_nodes :: "(json \<Rightarrow> string) \<Rightarrow> graph_document \<Rightarrow> tree_node list" where
  "resource_nodes ser g =
     map (resource_node ser) (sort_key (\<lambda>r. display_address (resource_address r)) (resources g))"

definition data_source_node :: "(json \<Rightarrow> string) \<Rightarrow> data_source_spec \<Rightarrow> tree_node" where
  "data_source_node ser d =
     TreeNode (display_address (data_source_address d))
       (argument_nodes ser (ds_arguments d) @ provider_leaf (ds_provider d) @ depends_on_leaf (ds_depends_on d))"

definition data_source_nodes :: "(json \<Rightarrow> string) \<Rightarrow> graph_document \<Rightarrow> tree_node list" where
  "data_source_nodes ser g =
     map (data_source_node ser) (sort_key (\<lambda>d. display_address (data_source_address d)) (data_sources g))"

definition output_node :: "(json \<Rightarrow> string) \<Rightarrow> string \<Rightarrow> output_spec \<Rightarrow> tree_node" where
  "output_node ser name out =
     TreeNode
       (name @ '': '' @ format_expr ser (os_value out) @ (if os_sensitive out then '' (sensitive)'' else []))
       (case os_description out of
          None \<Rightarrow> []
        | Some description \<Rightarrow> [leaf (''description: '' @ format_json ser (JString description))])"

definition output_nodes :: "(json \<Rightarrow> string) \<Rightarrow> graph_document \<Rightarrow> tree_node list" where
  "output_nodes ser g = map (\<lambda>(name, out). output_node ser name out) (outputs g)"

text \<open>The moves are sorted by pairs of texts.\<close>

definition move_nodes :: "graph_document \<Rightarrow> tree_node list" where
  "move_nodes g =
     map (\<lambda>m. leaf (display_address (move_from m) @ '' -> '' @ display_address (move_to m)))
       (sort_key (\<lambda>m. [display_address (move_from m), display_address (move_to m)]) (moves g))"

definition import_nodes :: "(json \<Rightarrow> string) \<Rightarrow> graph_document \<Rightarrow> tree_node list" where
  "import_nodes ser g =
     map (\<lambda>i. leaf (display_address (import_to i) @ '' <- '' @ format_json ser (JString (import_id i))))
       (sort_key (\<lambda>i. display_address (import_to i)) (graph_imports g))"

definition dependency_nodes :: "dependency list \<Rightarrow> tree_node list" where
  "dependency_nodes ds =
     map (\<lambda>d. leaf (display_address (dep_from d) @ '' -> '' @ display_address (dep_to d) @ '' ('' @
         (if explicit d then ''explicit'' else ''inferred'') @ '')''))
       ds"

section \<open>Printing\<close>

text \<open>The marks that draw the branches, in UTF-8.\<close>

definition tee :: string where
  "tee = utf8 [226, 148, 156, 226, 148, 128, 226, 148, 128, 32]"

definition corner :: string where
  "corner = utf8 [226, 148, 148, 226, 148, 128, 226, 148, 128, 32]"

definition bar :: string where
  "bar = utf8 [226, 148, 130, 32, 32, 32]"

definition gap :: string where
  "gap = utf8 [32, 32, 32, 32]"

fun render_nodes :: "tree_node list \<Rightarrow> string \<Rightarrow> string" where
  "render_nodes [] prefix = []"
| "render_nodes (TreeNode label children # rest) prefix =
     (let final = (rest = [])
      in prefix @ (if final then corner else tee) @ label @ nl @
         (if children = [] then [] else render_nodes children (prefix @ (if final then gap else bar))) @
         render_nodes rest prefix)"

definition render_section :: "string \<Rightarrow> tree_node list \<Rightarrow> string" where
  "render_section title nodes =
     (if nodes = [] then [] else title @ nl @ render_nodes nodes [] @ nl)"

definition plural :: "nat \<Rightarrow> string \<Rightarrow> string \<Rightarrow> string" where
  "plural n one many = (if n = 1 then one else many)"

definition counted :: "nat \<Rightarrow> string \<Rightarrow> string \<Rightarrow> string" where
  "counted n one many = show_nat n @ '' '' @ plural n one many"

definition inspect_summary :: "graph_document \<Rightarrow> dependency list \<Rightarrow> string" where
  "inspect_summary g ds =
     ''Summary: '' @ counted (length (required_providers g)) ''provider'' ''providers'' @ '', '' @
     counted (length (resources g)) ''resource'' ''resources'' @ '', '' @
     counted (length (data_sources g)) ''data source'' ''data sources'' @ '', '' @
     counted (length (outputs g)) ''output'' ''outputs'' @ '', '' @
     counted (length ds) ''dependency'' ''dependencies'' @ nl"

definition inspect :: "(json \<Rightarrow> string) \<Rightarrow> graph_document \<Rightarrow> string validated" where
  "inspect ser g =
     and_then (dependencies g) (\<lambda>ds.
       Inr (''Graph IR '' @ format_version g @ nl @ nl @
         render_section ''Providers'' (provider_nodes ser g) @
         render_section ''Resources'' (resource_nodes ser g) @
         render_section ''Data sources'' (data_source_nodes ser g) @
         render_section ''Outputs'' (output_nodes ser g) @
         render_section ''Moves'' (move_nodes g) @
         render_section ''Imports'' (import_nodes ser g) @
         render_section ''Dependencies'' (dependency_nodes ds) @
         inspect_summary g ds))"

end
