(* ===== verification/Inspect_Correct.thy ===== *)
theory Inspect_Correct
  imports Inspect Graph_Valid
begin

text \<open>
  The printed tree determines the nodes it was printed from: a reader that looks at the branch
  marks only recovers the forest. The values of an aligned list share a column, and the nodes of
  a section are those of the document in the order of their addresses.
\<close>

section \<open>Reading a printed tree\<close>

text \<open>The depth and the label of a line.\<close>

function read_branch :: "string \<Rightarrow> (nat \<times> string) option" where
  "read_branch line =
     (case strip_prefix tee line of
        Some label \<Rightarrow> Some (0, label)
      | None \<Rightarrow>
     (case strip_prefix corner line of
        Some label \<Rightarrow> Some (0, label)
      | None \<Rightarrow>
     (case (if starts_with bar line then strip_prefix bar line else strip_prefix gap line) of
        Some rest \<Rightarrow> map_option (\<lambda>(depth, label). (Suc depth, label)) (read_branch rest)
      | None \<Rightarrow> None)))"
  by pat_completeness auto
termination
proof (relation "measure length")
  fix line rest
  assume "(if starts_with bar line then strip_prefix bar line else strip_prefix gap line) = Some rest"
  then have "line = bar @ rest \<or> line = gap @ rest" by (auto simp: strip_prefix_Some split: if_splits)
  then show "(rest, line) \<in> measure length" by (auto simp: bar_def gap_def utf8_def)
qed simp

declare read_branch.simps [simp del]

text \<open>The lines below a line of depth \<open>d\<close> are those after it that are deeper.\<close>

function (sequential) read_levels :: "nat \<Rightarrow> (nat \<times> string) list \<Rightarrow> tree_node list" where
  "read_levels d [] = []"
| "read_levels d ((_, label) # ls) =
     TreeNode label (read_levels (Suc d) (takeWhile (\<lambda>l. d < fst l) ls)) #
     read_levels d (dropWhile (\<lambda>l. d < fst l) ls)"
  by pat_completeness auto
termination
  by (relation "measure (length \<circ> snd)") (simp_all add: length_takeWhile_le length_dropWhile_le le_imp_less_Suc)

definition read_forest :: "string \<Rightarrow> tree_node list" where
  "read_forest text = read_levels 0 (map (the \<circ> read_branch) (butlast (split_on (CHR 0x0A) text)))"

text \<open>Nodes without a line break in a label.\<close>

fun unbroken :: "tree_node list \<Rightarrow> bool" where
  "unbroken [] \<longleftrightarrow> True"
| "unbroken (TreeNode label children # rest) \<longleftrightarrow> CHR 0x0A \<notin> set label \<and> unbroken children \<and> unbroken rest"

fun levels :: "nat \<Rightarrow> tree_node list \<Rightarrow> (nat \<times> string) list" where
  "levels d [] = []"
| "levels d (TreeNode label children # rest) = (d, label) # levels (Suc d) children @ levels d rest"

fun printed_lines :: "tree_node list \<Rightarrow> string \<Rightarrow> string list" where
  "printed_lines [] prefix = []"
| "printed_lines (TreeNode label children # rest) prefix =
     (let final = (rest = [])
      in (prefix @ (if final then corner else tee) @ label) #
         printed_lines children (prefix @ (if final then gap else bar)) @ printed_lines rest prefix)"

lemma render_nodes_lines: "render_nodes ns prefix = concat (map (\<lambda>l. l @ nl) (printed_lines ns prefix))"
  by (induction ns prefix rule: render_nodes.induct) (auto simp: Let_def)

lemma levels_deeper: "(k, label) \<in> set (levels d ns) \<Longrightarrow> d \<le> k"
  by (induction d ns rule: levels.induct) auto

lemma read_levels_levels: "read_levels d (levels d ns) = ns"
proof (induction d ns rule: levels.induct)
  case (2 d label children rest)
  have deeper: "\<forall>l \<in> set (levels (Suc d) children). d < fst l"
    using levels_deeper by (fastforce simp: Suc_le_eq)
  have next_level: "levels d rest = [] \<or> (\<exists>l ls. levels d rest = l # ls \<and> \<not> d < fst l)"
    by (cases rest rule: unbroken.cases) auto
  have "takeWhile (\<lambda>l. d < fst l) (levels (Suc d) children @ levels d rest) = levels (Suc d) children"
    "dropWhile (\<lambda>l. d < fst l) (levels (Suc d) children @ levels d rest) = levels d rest"
    using deeper next_level by (auto simp: takeWhile_append2 dropWhile_append2)
  with 2 show ?case by simp
qed simp

lemma marks_differ:
  "strip_prefix tee (corner @ s) = None" "strip_prefix tee (bar @ s) = None" "strip_prefix tee (gap @ s) = None"
  "strip_prefix corner (bar @ s) = None" "strip_prefix corner (gap @ s) = None" "\<not> starts_with bar (gap @ s)"
  by (simp_all add: tee_def corner_def bar_def gap_def utf8_def starts_with_def)

lemma strip_own: "strip_prefix p (p @ s) = Some s" "starts_with p (p @ s)"
  by (simp_all add: strip_prefix_Some starts_with_iff)

lemma read_branch_line:
  assumes "set units \<subseteq> {bar, gap}" and "branch \<in> {tee, corner}"
  shows "read_branch (concat units @ branch @ label) = Some (length units, label)"
  using assms(1)
proof (induction units)
  case Nil
  with assms(2) show ?case by (subst read_branch.simps) (auto simp: marks_differ strip_own)
next
  case (Cons u us)
  then show ?case by (subst read_branch.simps) (auto simp: marks_differ strip_own)
qed

lemma read_printed_lines:
  assumes "set units \<subseteq> {bar, gap}"
  shows "map read_branch (printed_lines ns (concat units)) = map Some (levels (length units) ns)"
  using assms
proof (induction "length units" ns arbitrary: units rule: levels.induct)
  case (2 label children rest)
  have "printed_lines children (concat units @ u) = printed_lines children (concat (units @ [u]))" for u
    by simp
  with 2 show ?case
    by (auto simp: Let_def read_branch_line simp del: concat_append)
qed simp

lemma marks_unbroken:
  "CHR 0x0A \<notin> set tee" "CHR 0x0A \<notin> set corner" "CHR 0x0A \<notin> set bar" "CHR 0x0A \<notin> set gap"
  unfolding tee_def corner_def bar_def gap_def utf8_def
  by (auto dest!: arg_cong[where f = "of_char :: char \<Rightarrow> nat"])

lemma printed_unbroken:
  "unbroken ns \<Longrightarrow> CHR 0x0A \<notin> set prefix \<Longrightarrow> l \<in> set (printed_lines ns prefix) \<Longrightarrow> CHR 0x0A \<notin> set l"
proof (induction ns prefix arbitrary: l rule: printed_lines.induct)
  case (2 label children rest prefix)
  let ?down = "prefix @ (if rest = [] then gap else bar)"
  from 2(3,4) marks_unbroken have parts: "unbroken children" "unbroken rest" "CHR 0x0A \<notin> set ?down"
    "CHR 0x0A \<notin> set (prefix @ (if rest = [] then corner else tee) @ label)" by auto
  from 2(5) consider "l = prefix @ (if rest = [] then corner else tee) @ label"
    | "l \<in> set (printed_lines children ?down)" | "l \<in> set (printed_lines rest prefix)"
    by (auto simp only: printed_lines.simps Let_def list.set Un_iff set_append insert_iff)
  then show ?case
    using 2(1)[OF refl parts(1,3)] 2(2)[OF refl parts(2) 2(4)] parts(4) by cases blast+
qed simp

lemma split_lines: "\<forall>l \<in> set ls. d \<notin> set l \<Longrightarrow> split_on d (concat (map (\<lambda>l. l @ [d]) ls)) = ls @ [[]]"
  by (induction ls) (simp_all add: split_on_append)

lemma read_forest_render:
  assumes "unbroken ns"
  shows "read_forest (render_nodes ns []) = ns"
proof -
  have "\<forall>l \<in> set (printed_lines ns []). CHR 0x0A \<notin> set l"
    by (rule ballI, rule printed_unbroken[OF assms, of "[]"]) simp_all
  from split_lines[OF this] have "split_on (CHR 0x0A) (render_nodes ns []) = printed_lines ns [] @ [[]]"
    by (simp add: render_nodes_lines nl_def)
  moreover have "map read_branch (printed_lines ns []) = map Some (levels 0 ns)"
    using read_printed_lines[of "[]" ns] by simp
  then have "map the (map read_branch (printed_lines ns [])) = levels 0 ns" by simp
  ultimately show ?thesis by (simp add: read_forest_def read_levels_levels)
qed


section \<open>Columns and sections\<close>

lemma column_width_bound:
  assumes "(name, v) \<in> set members"
  shows "length name \<le> column_width members"
proof -
  have "column_width members = Max (set (0 # map (length \<circ> fst) members))"
    unfolding column_width_def by (rule Max.set_eq_fold[symmetric])
  moreover from assms have "length name \<in> set (0 # map (length \<circ> fst) members)" by force
  ultimately show ?thesis by (metis List.finite_set Max_ge)
qed

text \<open>The padding of a name never underflows: a value starts two columns after the longest name.\<close>

lemma aligned_column:
  "(name, v) \<in> set members \<Longrightarrow>
     length (aligned (column_width members) name value) = column_width members + 2 + length value"
  using column_width_bound[of name v members] by (simp add: aligned_def)

lemma display_address_inj:
  assumes "valid_address a" and "valid_address b" and "display_address a = display_address b"
  shows "a = b"
proof -
  have "Inr a = parse_address (display_address a)" using parse_display[OF assms(1)] by (rule sym)
  also have "\<dots> = Inr b" unfolding assms(3) by (rule parse_display[OF assms(2)])
  finally show ?thesis by (rule Inr_inject)
qed

lemma labels_resource: "map node_label (resource_nodes ser g) = sort (map (display_address \<circ> resource_address) (resources g))"
proof -
  have "map (\<lambda>r. display_address (resource_address r)) (sort_key (\<lambda>r. display_address (resource_address r)) (resources g)) =
      sort (map (\<lambda>r. display_address (resource_address r)) (resources g))"
    by (rule properties_for_sort[symmetric]) (simp_all add: mset_map)
  then show ?thesis by (simp add: resource_nodes_def resource_node_def comp_def)
qed

lemma labels_data_source:
  "map node_label (data_source_nodes ser g) = sort (map (display_address \<circ> data_source_address) (data_sources g))"
proof -
  have "map (\<lambda>d. display_address (data_source_address d)) (sort_key (\<lambda>d. display_address (data_source_address d)) (data_sources g)) =
      sort (map (\<lambda>d. display_address (data_source_address d)) (data_sources g))"
    by (rule properties_for_sort[symmetric]) (simp_all add: mset_map)
  then show ?thesis by (simp add: data_source_nodes_def data_source_node_def comp_def)
qed

section \<open>Properties\<close>

text \<open>C25. The tree that \<open>inframe graph inspect\<close> draws can be read back: from the branch marks
  and indentation alone, the nodes, their labels and their nesting are recovered, when no label
  contains a line break.\<close>

theorem inspect_reads_back:
  assumes "unbroken nodes"
  shows "read_forest (render_nodes nodes []) = nodes"
  using assms by (rule read_forest_render)

definition sample_tree :: "tree_node list" where
  "sample_tree =
     [TreeNode ''digitalocean_droplet.web'' [leaf ''name: web'', TreeNode ''lifecycle'' [leaf ''prevent_destroy: true'']],
      TreeNode ''digitalocean_tag.app'' [leaf ''name: app'']]"

lemma inspect_reads_back_witness: "read_forest (render_nodes sample_tree []) = sample_tree"
  by (rule inspect_reads_back) (simp add: sample_tree_def)

text \<open>Inspecting succeeds for the documents \<open>validate\<close> accepts and no others, and lists every
  resource and every data source of the document once, in the order of their printed addresses.\<close>

lemma inspect_lists_nodes:
  "case inspect ser g of
     Inl e \<Rightarrow> validate g = Inl e
   | Inr text \<Rightarrow> validate g = Inr () \<and>
       map node_label (resource_nodes ser g) = sort (map (display_address \<circ> resource_address) (resources g)) \<and>
       map node_label (data_source_nodes ser g) = sort (map (display_address \<circ> data_source_address) (data_sources g)) \<and>
       distinct (map node_label (resource_nodes ser g) @ map node_label (data_source_nodes ser g))"
proof (cases "validate g")
  case (Inl e)
  then show ?thesis by (simp add: inspect_def dependencies_def)
next
  case (Inr u)
  then have valid: "valid_graph g" by (simp add: validate_iff_valid)
  let ?as = "map resource_address (resources g) @ map data_source_address (data_sources g)"
  from valid have as: "distinct ?as" "\<forall>a \<in> set ?as. valid_address a"
    by (auto simp: valid_graph_def names_ok_def node_addresses_def)
  have "inj_on display_address (set ?as)"
    by (rule inj_onI) (rule display_address_inj; use as(2) in blast)
  with as(1) have "distinct (map display_address ?as)" unfolding distinct_map[of display_address] by blast
  moreover have "mset (map node_label (resource_nodes ser g) @ map node_label (data_source_nodes ser g)) =
      mset (map display_address ?as)"
    by (simp add: labels_resource labels_data_source)
  ultimately have "distinct (map node_label (resource_nodes ser g) @ map node_label (data_source_nodes ser g))"
    by (metis mset_eq_imp_distinct_iff)
  with Inr show ?thesis by (simp add: inspect_def dependencies_def labels_resource labels_data_source)
qed

end
