(* ===== verification/Emit_PureScript.thy ===== *)
theory Emit_PureScript
  imports Binding_Model Emit_Files Json_Value Text_Lines
begin

text \<open>
  The emitter of PureScript bindings: \<open>crates/emit-purescript/src/lib.rs\<close>. A function that
  writes to an \<open>Output\<close> is the text it writes; what an \<open>Output\<close> does with it is the subject of
  \<open>Emit_Files\<close>.
\<close>

section \<open>Names\<close>

definition safe_field_name :: "binding_field \<Rightarrow> string" where
  "safe_field_name field = bf_public_name field @ (if bf_target_reserved field then ''_'' else [])"

definition safe_type_name :: "string \<Rightarrow> string" where
  "safe_type_name name =
     (if name = ''Record'' \<or> name = ''Row'' \<or> name = ''Type'' then name @ ''Handle'' else name)"

text \<open>The names generated for a nested input block, extended from those of its parent.\<close>

record builder_names =
  bn_root :: bool
  bn_joined :: string
  bn_type_name :: string
  bn_prefix :: string

definition root_names :: builder_names where
  "root_names = \<lparr>bn_root = True, bn_joined = [], bn_type_name = [], bn_prefix = []\<rparr>"

definition child_names :: "builder_names \<Rightarrow> string \<Rightarrow> builder_names" where
  "child_names names segment =
     (let joined = push_capitalized (bn_joined names) segment;
          prefix = (if bn_root names then segment else push_capitalized (bn_prefix names) segment)
      in \<lparr>bn_root = False, bn_joined = joined, bn_type_name = safe_type_name joined, bn_prefix = prefix\<rparr>)"

definition nested_setter_name :: "builder_names \<Rightarrow> binding_field \<Rightarrow> string" where
  "nested_setter_name names field = bn_prefix names @ capitalized (bf_public_name field)"

definition provider_marker :: "string \<Rightarrow> string" where
  "provider_marker module_root = rsplit_last (CHR ''.'') module_root @ ''Provider''"

definition provider_local_name_from_source :: "string \<Rightarrow> string" where
  "provider_local_name_from_source source = rsplit_last (CHR ''/'') source"

section \<open>Nested input blocks\<close>

datatype container =
    NestedSingle (container_fields: fields_list)
  | NestedArray (container_fields: fields_list)
  | NestedMap (container_fields: fields_list)

fun nested_container :: "binding_type \<Rightarrow> container option" where
  "nested_container (BindObject fs) = Some (NestedSingle fs)"
| "nested_container (BindList (BindObject fs)) = Some (NestedArray fs)"
| "nested_container (BindSet (BindObject fs)) = Some (NestedArray fs)"
| "nested_container (BindMap (BindObject fs)) = Some (NestedMap fs)"
| "nested_container _ = None"

definition is_input :: "binding_field \<Rightarrow> bool" where
  "is_input field \<longleftrightarrow> bf_required field \<or> bf_optional field"

lemma nested_container_size [termination_simp]:
  assumes "f \<in> set fs" and "nested_container (bf_type f) = Some c"
  shows "size_list size (container_fields c) < size_list size fs"
proof (rule field_size[OF assms(1)])
  show "object_fields (bf_type f) = Some (container_fields c)"
    using assms(2) by (cases "bf_type f" rule: nested_container.cases) auto
qed

text \<open>The blocks \<open>for_each_builder\<close> visits, in its order.\<close>

fun builders :: "fields_list \<Rightarrow> builder_names \<Rightarrow> (builder_names \<times> fields_list) list" where
  "builders fs parent =
     concat (map (\<lambda>field. case nested_container (bf_type field) of
         None \<Rightarrow> []
       | Some container \<Rightarrow>
           let names = child_names parent (bf_public_name field)
           in (names, container_fields container) # builders (container_fields container) names)
       (filter is_input fs))"

fun any_builder :: "(fields_list \<Rightarrow> bool) \<Rightarrow> fields_list \<Rightarrow> bool" where
  "any_builder matches fs \<longleftrightarrow>
     list_ex (\<lambda>field. case nested_container (bf_type field) of
         None \<Rightarrow> False
       | Some container \<Rightarrow> matches (container_fields container) \<or> any_builder matches (container_fields container))
       (filter is_input fs)"

fun any_nested_input :: "(container \<Rightarrow> bool) \<Rightarrow> fields_list \<Rightarrow> bool" where
  "any_nested_input matches fs \<longleftrightarrow>
     list_ex (\<lambda>field.
         if \<not> bf_required field \<and> \<not> bf_optional field then False
         else case nested_container (bf_type field) of
           None \<Rightarrow> False
         | Some container \<Rightarrow> matches container \<or> any_nested_input matches (container_fields container))
       fs"

declare builders.simps [simp del] any_builder.simps [simp del] any_nested_input.simps [simp del]

definition has_required_fields :: "fields_list \<Rightarrow> bool" where
  "has_required_fields fs \<longleftrightarrow> list_ex bf_required fs \<or> any_builder (list_ex bf_required) fs"

definition uses_nested_mapping :: "fields_list \<Rightarrow> bool" where
  "uses_nested_mapping fs \<longleftrightarrow>
     any_nested_input (\<lambda>c. case c of NestedSingle _ \<Rightarrow> False | NestedArray _ \<Rightarrow> True | NestedMap _ \<Rightarrow> True) fs"

definition uses_array_expressions :: "fields_list \<Rightarrow> bool" where
  "uses_array_expressions fs \<longleftrightarrow>
     any_nested_input (\<lambda>c. case c of NestedArray _ \<Rightarrow> True | NestedSingle _ \<Rightarrow> False | NestedMap _ \<Rightarrow> False) fs"

definition uses_map_expressions :: "fields_list \<Rightarrow> bool" where
  "uses_map_expressions fs \<longleftrightarrow>
     any_nested_input (\<lambda>c. case c of NestedMap _ \<Rightarrow> True | NestedSingle _ \<Rightarrow> False | NestedArray _ \<Rightarrow> False) fs"

definition has_optional_nested_fields :: "fields_list \<Rightarrow> bool" where
  "has_optional_nested_fields fs \<longleftrightarrow> any_builder (list_ex bf_optional) fs"

definition has_nested_builders :: "fields_list \<Rightarrow> bool" where
  "has_nested_builders fs \<longleftrightarrow> any_builder (\<lambda>_. True) fs"

fun type_uses_json :: "binding_type \<Rightarrow> bool"
  and field_uses_json :: "binding_field \<Rightarrow> bool" where
  "type_uses_json (BindMap _) \<longleftrightarrow> True"
| "type_uses_json (BindTuple _) \<longleftrightarrow> True"
| "type_uses_json BindDynamic \<longleftrightarrow> True"
| "type_uses_json (BindList item) \<longleftrightarrow> type_uses_json item"
| "type_uses_json (BindSet item) \<longleftrightarrow> type_uses_json item"
| "type_uses_json (BindObject fs) \<longleftrightarrow> list_ex field_uses_json fs"
| "type_uses_json BindString \<longleftrightarrow> False"
| "type_uses_json BindBool \<longleftrightarrow> False"
| "type_uses_json BindNumber \<longleftrightarrow> False"
| "field_uses_json (BindingField _ _ t _ _ _ _ _ _ _ _ _) \<longleftrightarrow> type_uses_json t"

definition requires_json_import :: "fields_list \<Rightarrow> bool" where
  "requires_json_import fs \<longleftrightarrow> list_ex (\<lambda>field. type_uses_json (bf_type field)) fs"

section \<open>Types\<close>

fun render_type :: "binding_type \<Rightarrow> string"
  and render_type_argument :: "binding_type \<Rightarrow> string"
  and render_record_field :: "binding_field \<Rightarrow> string" where
  "render_type BindString = ''String''"
| "render_type BindBool = ''Boolean''"
| "render_type BindNumber = ''Number''"
| "render_type (BindList item) = ''Array '' @ render_type_argument item"
| "render_type (BindSet item) = ''Array '' @ render_type_argument item"
| "render_type (BindMap item) = ''Json''"
| "render_type (BindTuple items) = ''Json''"
| "render_type BindDynamic = ''Json''"
| "render_type (BindObject fs) = ''{ '' @ join '', '' (map render_record_field fs) @ '' }''"
| "render_type_argument BindString = ''String''"
| "render_type_argument BindBool = ''Boolean''"
| "render_type_argument BindNumber = ''Number''"
| "render_type_argument (BindMap item) = ''Json''"
| "render_type_argument (BindTuple items) = ''Json''"
| "render_type_argument BindDynamic = ''Json''"
| "render_type_argument (BindList item) = ''(Array '' @ render_type_argument item @ '')''"
| "render_type_argument (BindSet item) = ''(Array '' @ render_type_argument item @ '')''"
| "render_type_argument (BindObject fs) = ''({ '' @ join '', '' (map render_record_field fs) @ '' })''"
| "render_record_field (BindingField provider public t r opt c sens b reserved d lo hi) =
     public @ (if reserved then ''_'' else []) @ '' :: '' @ render_type t"

text \<open>An argument is the type itself, in parentheses when it is made of several words.\<close>

lemma render_type_argument_eq:
  "render_type_argument t =
     (case t of
        BindList _ \<Rightarrow> ''('' @ render_type t @ '')''
      | BindSet _ \<Rightarrow> ''('' @ render_type t @ '')''
      | BindObject _ \<Rightarrow> ''('' @ render_type t @ '')''
      | _ \<Rightarrow> render_type t)"
  by (cases t) simp_all

lemma render_record_field_eq: "render_record_field field = safe_field_name field @ '' :: '' @ render_type (bf_type field)"
  by (cases field) (simp add: safe_field_name_def)

definition render_input_type :: "binding_field \<Rightarrow> builder_names \<Rightarrow> string" where
  "render_input_type field parent =
     (let child = child_names parent (bf_public_name field)
      in case nested_container (bf_type field) of
           None \<Rightarrow> ''Input '' @ render_type_argument (bf_type field)
         | Some (NestedSingle _) \<Rightarrow> bn_type_name child
         | Some (NestedArray _) \<Rightarrow> ''Array '' @ bn_type_name child
         | Some (NestedMap _) \<Rightarrow> ''Object.Object '' @ bn_type_name child)"

definition render_input_node :: "string \<Rightarrow> binding_field \<Rightarrow> builder_names \<Rightarrow> string" where
  "render_input_node value field parent =
     (let node = bn_prefix (child_names parent (bf_public_name field))
      in case nested_container (bf_type field) of
           None \<Rightarrow> ''inputNode '' @ value
         | Some (NestedSingle _) \<Rightarrow> node @ ''Node '' @ value
         | Some (NestedArray _) \<Rightarrow> ''arrayExprNode (map '' @ node @ ''Node '' @ value @ '')''
         | Some (NestedMap _) \<Rightarrow> ''objectExprNode (map '' @ node @ ''Node '' @ value @ '')'')"

section \<open>Documentation\<close>

definition doc_line :: "string \<Rightarrow> string \<Rightarrow> string" where
  "doc_line start line =
     (if blank line then ''-- |'' @ nl else start @ trim_end line @ nl)"

definition render_doc_comment :: "string \<Rightarrow> string" where
  "render_doc_comment description = concat (map (doc_line ''-- | '') (text_lines (trim description)))"

text \<open>The path of the parent is passed down; the code extends one buffer and truncates it again.\<close>

fun collect_field_documentation :: "string \<Rightarrow> binding_field \<Rightarrow> string"
  and collect_type_documentation :: "string \<Rightarrow> binding_type \<Rightarrow> string" where
  "collect_field_documentation parent (BindingField provider public t r opt c sens b reserved d lo hi) =
     (let path = (if parent = [] then [] else parent @ ''.'') @ public @ (if reserved then ''_'' else []);
          description = (case d of None \<Rightarrow> [] | Some d \<Rightarrow> trim d);
          own = (if description = [] then []
                 else
                   (case text_lines description of
                      [] \<Rightarrow> ''-- | - '' @ ticked path @ '': '' @ nl
                    | first # rest \<Rightarrow>
                        ''-- | - '' @ ticked path @ '': '' @ trim_end first @ nl @
                        concat (map (doc_line ''-- |   '') rest)))
      in own @ collect_type_documentation path t)"
| "collect_type_documentation path (BindObject fs) = concat (map (collect_field_documentation path) fs)"
| "collect_type_documentation path (BindList (BindObject fs)) = concat (map (collect_field_documentation path) fs)"
| "collect_type_documentation path (BindSet (BindObject fs)) = concat (map (collect_field_documentation path) fs)"
| "collect_type_documentation path (BindMap (BindObject fs)) = concat (map (collect_field_documentation path) fs)"
| "collect_type_documentation path _ = []"

definition render_record_documentation :: "string \<Rightarrow> fields_list \<Rightarrow> string" where
  "render_record_documentation summary fs =
     (let entries = concat (map (collect_field_documentation []) fs)
      in render_doc_comment summary @ (if entries = [] then [] else ''-- |'' @ nl @ entries))"

section \<open>Declarations\<close>

definition quoted :: "string \<Rightarrow> string" where
  "quoted s = quote_mark @ s @ quote_mark"

text \<open>Items after the first start a new line.\<close>

definition separated :: "(binding_field \<Rightarrow> string) \<Rightarrow> fields_list \<Rightarrow> string" where
  "separated f fs = (if fs = [] then [] else '' '' @ join (nl @ ''  , '') (map f fs))"

definition render_required_fields :: "fields_list \<Rightarrow> builder_names \<Rightarrow> string" where
  "render_required_fields required parent =
     separated (\<lambda>field. safe_field_name field @ '' :: '' @ render_input_type field parent) required"

definition render_required_values :: "fields_list \<Rightarrow> builder_names \<Rightarrow> string" where
  "render_required_values required parent =
     separated (\<lambda>field. ''Tuple '' @ quoted (bf_provider_name field) @ '' ('' @
         render_input_node (''required.'' @ safe_field_name field) field parent @ '')'') required"

definition field_comment :: "binding_field \<Rightarrow> string" where
  "field_comment field = (case bf_description field of None \<Rightarrow> [] | Some d \<Rightarrow> render_doc_comment d)"

definition render_setter :: "binding_field \<Rightarrow> string" where
  "render_setter field =
     (let name = safe_field_name field
      in field_comment field @
         name @ '' :: '' @ render_input_type field root_names @ '' -> Args -> Args'' @ nl @
         name @ '' value (Args values) = Args (insertInputField '' @ quoted (bf_provider_name field) @ '' ('' @
         render_input_node ''value'' field root_names @ '') values)'' @ nl @ nl)"

definition render_nested_setter :: "builder_names \<Rightarrow> binding_field \<Rightarrow> string" where
  "render_nested_setter names field =
     (let name = nested_setter_name names field; type_name = bn_type_name names
      in field_comment field @
         name @ '' :: '' @ render_input_type field names @ '' -> '' @ type_name @ '' -> '' @ type_name @ nl @
         name @ '' value ('' @ type_name @ '' values) = '' @ type_name @ '' (insertInputField '' @
         quoted (bf_provider_name field) @ '' ('' @ render_input_node ''value'' field names @ '') values)'' @ nl @ nl)"

definition render_nested_builder :: "builder_names \<times> fields_list \<Rightarrow> string" where
  "render_nested_builder = (\<lambda>(names, fs).
     let type_name = bn_type_name names; prefix = bn_prefix names; required = filter bf_required fs
     in ''newtype '' @ type_name @ '' = '' @ type_name @ '' InputObject'' @ nl @ nl @
        render_record_documentation (''Required fields for '' @ ticked type_name @ ''.'') required @
        ''type '' @ type_name @ ''Required ='' @ nl @ ''  {'' @ render_required_fields required names @ nl @
        ''  }'' @ nl @ nl @ prefix @ ''Args :: '' @ type_name @ ''Required -> '' @ type_name @ nl @
        prefix @ ''Args '' @ (if required = [] then ''_'' else ''required'') @ '' = '' @ type_name @
        '' (inputObject'' @ nl @ ''  ['' @ render_required_values required names @ nl @ ''  ])'' @ nl @ nl @
        concat (map (render_nested_setter names) (filter bf_optional fs)) @
        prefix @ ''Node :: '' @ type_name @ '' -> ExprNode'' @ nl @
        prefix @ ''Node ('' @ type_name @ '' values) = inputObjectNode values'' @ nl @ nl)"

definition render_nested_builders :: "fields_list \<Rightarrow> string" where
  "render_nested_builders fs = concat (map render_nested_builder (builders fs root_names))"

definition render_args :: "fields_list \<Rightarrow> string" where
  "render_args fs =
     (let required = filter bf_required fs
      in render_record_documentation ''Required arguments.'' required @
         ''type Required ='' @ nl @ ''  {'' @ render_required_fields required root_names @ nl @
         ''  }'' @ nl @ nl @ ''newtype Args = Args InputObject'' @ nl @ nl @
         ''args :: Required -> Args'' @ nl @ ''args '' @ (if required = [] then ''_'' else ''required'') @
         '' = Args (inputObject'' @ nl @ ''  ['' @ render_required_values required root_names @ nl @
         ''  ])'' @ nl @ nl)"

section \<open>Module headers\<close>

text \<open>\<open>Exports\<close>: the text so far, and whether no name was added yet.\<close>

type_synonym exports = "string \<times> bool"

definition exports_new :: "string \<Rightarrow> exports" where
  "exports_new module = (''module '' @ module @ nl @ ''  ( '', True)"

definition exports_add :: "string \<Rightarrow> exports \<Rightarrow> exports" where
  "exports_add export = (\<lambda>(out, first). (out @ (if first then [] else nl @ ''  , '') @ export, False))"

definition exports_finish :: "exports \<Rightarrow> string" where
  "exports_finish = (\<lambda>(out, first). out @ nl @ ''  ) where'' @ nl @ nl)"

definition render_exports :: "string \<Rightarrow> string list \<Rightarrow> string" where
  "render_exports module names = exports_finish (fold exports_add names (exports_new module))"

definition nested_exports :: "fields_list \<Rightarrow> string list" where
  "nested_exports fs =
     concat (map (\<lambda>(names, members).
         [bn_type_name names, bn_type_name names @ ''Required'', bn_prefix names @ ''Args''] @
         map (nested_setter_name names) (filter bf_optional members))
       (builders fs root_names))"

definition import_line :: "string \<Rightarrow> string list \<Rightarrow> string" where
  "import_line module names = ''import '' @ module @ '' ('' @ join '', '' names @ '')'' @ nl"

definition render_builder_import :: "string \<Rightarrow> fields_list \<Rightarrow> string" where
  "render_builder_import operation fs =
     (let (public, internal) =
        (if operation = ''addResource''
         then ([''Infra'', ''ResourceOptions'', ''resourceOptions''],
           [operation, ''InputObject'', ''inputObject'', ''requireProvider''])
         else if operation = ''addDataSource''
         then ([''Infra'', ''DataSourceOptions'', ''dataSourceOptions''],
           [operation, ''InputObject'', ''inputObject'', ''requireProvider''])
         else ([''Infra''], [operation, ''InputObject'', ''inputObject'']));
          internal = internal @
            (if list_ex bf_optional fs \<or> has_optional_nested_fields fs then [''insertInputField''] else []) @
            (if has_nested_builders fs then [''inputObjectNode''] else [])
      in import_line ''Inframe.Builder'' public @ import_line ''Inframe.Internal.Builder'' internal)"

text \<open>The kind of an item: none for the provider, whether it is a data source otherwise.\<close>

definition render_core_import :: "bool option \<Rightarrow> fields_list \<Rightarrow> string" where
  "render_core_import item_kind fs =
     (let public =
        (if item_kind = None then [''Provider''] else [''Expr'']) @ [''Input''] @
        (case item_kind of None \<Rightarrow> [] | Some data_source \<Rightarrow> [if data_source then ''DataSource'' else ''Resource'']);
          internal = [''inputNode''] @
            (if has_nested_builders fs
             then [''ExprNode''] @ (if uses_array_expressions fs then [''arrayExprNode''] else []) @
               (if uses_map_expressions fs then [''objectExprNode''] else [])
             else []) @
            (case item_kind of
               None \<Rightarrow> []
             | Some data_source \<Rightarrow> [if data_source then ''dataSourceAttr'' else ''resourceAttr''])
      in import_line ''Inframe.Core'' public @ import_line ''Inframe.Internal.Core'' internal)"

section \<open>Modules\<close>

definition provider_exports :: "string \<Rightarrow> fields_list \<Rightarrow> string list" where
  "provider_exports module_root fs =
     [provider_marker module_root, ''Args'', ''Required'', ''args'', ''configure'', ''configureAs''] @
     nested_exports fs @ map safe_field_name (filter bf_optional fs)"

definition render_provider :: "binding_package \<Rightarrow> string \<Rightarrow> string" where
  "render_provider package module_root =
     (let provider = bk_provider package;
          fs = bp_fields provider;
          marker = provider_marker module_root;
          arguments = quoted (provider_local_name_from_source (bp_source provider)) @ '' '' @
            quoted (bp_source provider) @ '' '' @ quoted (''= '' @ bp_version provider)
      in render_exports (module_root @ ''.Provider'') (provider_exports module_root fs) @
         (if uses_nested_mapping fs then ''import Prelude (map)'' @ nl @ nl else []) @
         (if requires_json_import fs then ''import Data.Argonaut.Core (Json)'' @ nl else []) @
         ''import Data.Maybe (Maybe(..))'' @ nl @
         (if has_required_fields fs then ''import Data.Tuple (Tuple(..))'' @ nl else []) @
         (if uses_map_expressions fs then ''import Foreign.Object as Object'' @ nl else []) @
         render_builder_import ''addProvider'' fs @ render_core_import None fs @ nl @
         ''data '' @ marker @ nl @ nl @
         render_nested_builders fs @ render_args fs @
         concat (map render_setter (filter bf_optional fs)) @
         ''configure :: Args -> Infra (Provider '' @ marker @ '')'' @ nl @
         ''configure (Args values) = addProvider '' @ arguments @ '' Nothing values'' @ nl @ nl @
         ''configureAs :: String -> Args -> Infra (Provider '' @ marker @ '')'' @ nl @
         ''configureAs alias (Args values) = addProvider '' @ arguments @ '' (Just alias) values'' @ nl)"

definition item_node_name :: "binding_item \<Rightarrow> bool \<Rightarrow> string" where
  "item_node_name item data_source = bi_public_name item @ (if data_source then ''DataSource'' else ''Resource'')"

definition item_exports :: "binding_item \<Rightarrow> bool \<Rightarrow> string list" where
  "item_exports item data_source =
     [''Args'', ''Required'', safe_type_name (bi_public_name item), item_node_name item data_source, ''args''] @
     (if data_source then [''read'', ''readWith''] else [''create'', ''createWith'']) @
     nested_exports (bi_fields item) @ map safe_field_name (filter bf_optional (bi_fields item))"

definition render_handle :: "binding_item \<Rightarrow> bool \<Rightarrow> string" where
  "render_handle item data_source =
     (let handle_fields = item_outputs item
      in render_record_documentation (''A symbolic handle to '' @ ticked (bi_provider_type item) @ ''.'') handle_fields @
         ''type '' @ safe_type_name (bi_public_name item) @ '' ='' @ nl @ ''  { '' @
         (if data_source then ''dataSource :: DataSource '' else ''resource :: Resource '') @
         item_node_name item data_source @
         concat (map (\<lambda>field. nl @ ''  , '' @ safe_field_name field @ '' :: Expr '' @
           render_type_argument (bf_type field)) handle_fields) @
         nl @ ''  }'' @ nl @ nl)"

definition render_operations :: "binding_item \<Rightarrow> string \<Rightarrow> binding_provider \<Rightarrow> bool \<Rightarrow> string" where
  "render_operations item module_root provider data_source =
     (let handle_name = safe_type_name (bi_public_name item);
          (operation, operation_with) = (if data_source then (''read'', ''readWith'') else (''create'', ''createWith''));
          (options_type, default_options) =
            (if data_source then (''DataSourceOptions'', ''dataSourceOptions'')
             else (''ResourceOptions'', ''resourceOptions''));
          (add, handle_key, attr) =
            (if data_source then (''addDataSource'', ''dataSource'', ''dataSourceAttr'')
             else (''addResource'', ''resource'', ''resourceAttr''))
      in operation @ '' :: String -> Args -> Infra '' @ handle_name @ nl @
         operation @ '' logicalName values = '' @ operation_with @ '' logicalName values '' @ default_options @ nl @ nl @
         operation_with @ '' :: String -> Args -> '' @ options_type @ '' '' @ provider_marker module_root @
         '' -> Infra '' @ handle_name @ nl @
         operation_with @ '' logicalName (Args values) options = do'' @ nl @
         ''  _ <- requireProvider '' @ quoted (provider_local_name_from_source (bp_source provider)) @ '' '' @
         quoted (bp_source provider) @ '' '' @ quoted (''= '' @ bp_version provider) @ nl @
         ''  handle <- '' @ add @ '' options '' @ quoted (bi_provider_type item) @ '' logicalName values'' @ nl @
         ''  pure'' @ nl @ ''    { '' @ handle_key @ '': handle'' @
         concat (map (\<lambda>field. nl @ ''    , '' @ safe_field_name field @ '': '' @ attr @ '' handle [ '' @
           quoted (bf_provider_name field) @ '' ]'') (item_outputs item)) @
         nl @ ''    }'' @ nl)"

definition render_item :: "binding_item \<Rightarrow> string \<Rightarrow> string \<Rightarrow> binding_provider \<Rightarrow> bool \<Rightarrow> string" where
  "render_item item module module_root provider data_source =
     (let fs = bi_fields item
      in render_exports module (item_exports item data_source) @
         ''import Prelude (bind'' @ (if uses_nested_mapping fs then '', map'' else []) @ '', pure)'' @ nl @ nl @
         (if requires_json_import fs then ''import Data.Argonaut.Core (Json)'' @ nl else []) @
         (if has_required_fields fs then ''import Data.Tuple (Tuple(..))'' @ nl else []) @
         (if uses_map_expressions fs then ''import Foreign.Object as Object'' @ nl else []) @
         render_builder_import (if data_source then ''addDataSource'' else ''addResource'') fs @
         render_core_import (Some data_source) fs @
         import_line (module_root @ ''.Provider'') [provider_marker module_root] @ nl @
         ''data '' @ item_node_name item data_source @ nl @ nl @
         render_nested_builders fs @ render_args fs @
         concat (map render_setter (filter bf_optional fs)) @
         render_handle item data_source @
         render_operations item module_root provider data_source)"

section \<open>Packages\<close>

definition valid_module_root :: "string \<Rightarrow> bool" where
  "valid_module_root value \<longleftrightarrow>
     value \<noteq> [] \<and>
     list_all (\<lambda>segment.
         (case segment of [] \<Rightarrow> False | first # _ \<Rightarrow> is_ascii_uppercase first) \<and>
         list_all is_ascii_alphanumeric segment)
       (split_on (CHR ''.'') value)"

definition module_path :: "string \<Rightarrow> string" where
  "module_path module = ''src/'' @ replace_char (CHR ''.'') (CHR ''/'') module @ ''.purs''"

definition CARGO_PKG_VERSION :: string where
  "CARGO_PKG_VERSION = ''0.1.0''"

definition manifest :: "binding_provider \<Rightarrow> string \<Rightarrow> json" where
  "manifest provider digest =
     JObject
       [(''provider_source'', JString (bp_source provider)), (''provider_version'', JString (bp_version provider)),
        (''schema_sha256'', JString digest), (''generator_version'', JString CARGO_PKG_VERSION),
        (''binding_model_version'', JString ''1.0''), (''graph_ir_version'', JString ''1.0'')]"

text \<open>\<open>FileJob::text\<close>.\<close>

definition text_job :: "string \<Rightarrow> string \<Rightarrow> string file_job" where
  "text_job path contents = \<lparr>job_path = path, job_weight = 0, job_render = contents\<rparr>"

definition item_jobs :: "binding_package \<Rightarrow> string \<Rightarrow> string \<Rightarrow> bool \<Rightarrow> binding_item list \<Rightarrow> string file_job list" where
  "item_jobs package module_root kind data_source items =
     map (\<lambda>item.
         let module = module_root @ ''.'' @ kind @ ''.'' @ bi_public_name item
         in \<lparr>job_path = module_path module, job_weight = path_count (bi_fields item),
             job_render = render_item item module module_root (bk_provider package) data_source\<rparr>)
       items"

datatype purescript_error = InvalidModuleRoot string

definition package_files ::
  "(json \<Rightarrow> string) \<Rightarrow> binding_package \<Rightarrow> string \<Rightarrow> string \<Rightarrow> (purescript_error, string file_job list) result" where
  "package_files pretty package module_root digest =
     (if \<not> valid_module_root module_root then Inl (InvalidModuleRoot module_root)
      else
        let provider = bk_provider package
        in Inr (
          [\<lparr>job_path = module_path (module_root @ ''.Provider''), job_weight = path_count (bp_fields provider),
            job_render = render_provider package module_root\<rparr>] @
          item_jobs package module_root ''Resource'' False (bk_resources package) @
          item_jobs package module_root ''Data'' True (bk_data_sources package) @
          [\<lparr>job_path = ''provider-manifest.json'', job_weight = 0,
            job_render = pretty (manifest provider digest) @ nl\<rparr>,
           text_job ''README.md''
             (''# '' @ module_root @ nl @ nl @ ''Generated PureScript bindings for '' @ ticked (bp_source provider) @
              '' '' @ ticked (bp_version provider) @ ''. Do not edit by hand.'' @ nl),
           text_job ''spago.yaml''
             (text_of_lines [''package:'', ''  name: generated-'' @ map to_ascii_lowercase (bp_public_name provider),
                ''  dependencies:'', ''    - argonaut-core'', ''    - foreign-object'', ''    - prelude'',
                ''    - inframe-graph-core'', ''    - tuples''])]))"

end
