(* ===== verification/Emit_PureScript_Correct.thy ===== *)
theory Emit_PureScript_Correct
  imports Emit_PureScript Binding_Correct
begin

text \<open>
  What a generated PureScript package satisfies: the names of a nested block are those of its
  path, the imports of a module cover what its declarations use, every name a module exports is
  declared in it, and no two files of a package have the same path.
\<close>

section \<open>Names and paths\<close>

text \<open>The names of a block, from its path at once.\<close>

definition names_of_path :: "string list \<Rightarrow> builder_names" where
  "names_of_path path =
     \<lparr>bn_root = (path = []), bn_joined = concat (map capitalized path),
      bn_type_name = (if path = [] then [] else safe_type_name (concat (map capitalized path))),
      bn_prefix = (case path of [] \<Rightarrow> [] | s # ss \<Rightarrow> s @ concat (map capitalized ss))\<rparr>"

lemma names_of_root: "names_of_path [] = root_names"
  by (simp add: names_of_path_def root_names_def)

lemma names_of_child: "child_names (names_of_path path) s = names_of_path (path @ [s])"
  by (cases path) (simp_all add: names_of_path_def child_names_def push_capitalized_def Let_def)

text \<open>The nested input blocks of a record with their paths, parents before children.\<close>

fun block_paths :: "fields_list \<Rightarrow> string list \<Rightarrow> (string list \<times> fields_list) list" where
  "block_paths fs path =
     concat (map (\<lambda>field. case nested_container (bf_type field) of
         None \<Rightarrow> []
       | Some container \<Rightarrow>
           (path @ [bf_public_name field], container_fields container) #
           block_paths (container_fields container) (path @ [bf_public_name field]))
       (filter is_input fs))"

declare block_paths.simps [simp del]

lemma builders_paths: "builders fs (names_of_path path) = map (\<lambda>(p, m). (names_of_path p, m)) (block_paths fs path)"
proof (induction fs path rule: block_paths.induct)
  case (1 fs path)
  then show ?case
    by (subst builders.simps, subst block_paths.simps)
      (auto simp: map_concat comp_def Let_def names_of_child intro!: arg_cong[of _ _ concat] map_cong
        split: option.splits)
qed

section \<open>Inputs at every depth\<close>

fun blocks_below :: "fields_list \<Rightarrow> fields_list list" where
  "blocks_below fs =
     concat (map (\<lambda>field. case nested_container (bf_type field) of
         None \<Rightarrow> []
       | Some container \<Rightarrow> container_fields container # blocks_below (container_fields container))
       (filter is_input fs))"

declare blocks_below.simps [simp del]

definition inputs_below :: "fields_list \<Rightarrow> fields_list" where
  "inputs_below fs = filter is_input fs @ concat (map (filter is_input) (blocks_below fs))"

lemma map_option_list:
  "map f (case x of None \<Rightarrow> [] | Some c \<Rightarrow> g c # h c) = (case x of None \<Rightarrow> [] | Some c \<Rightarrow> f (g c) # map f (h c))"
  by (cases x) simp_all

lemma list_ex_option_list:
  "list_ex P (case x of None \<Rightarrow> [] | Some c \<Rightarrow> g c # h c) \<longleftrightarrow>
     (case x of None \<Rightarrow> False | Some c \<Rightarrow> P (g c) \<or> list_ex P (h c))"
  by (cases x) simp_all

lemma list_ex_concat_map: "list_ex P (concat (map f xs)) \<longleftrightarrow> list_ex (\<lambda>x. list_ex P (f x)) xs"
  by (induction xs) auto

lemma option_case_cong:
  "(\<And>c. x = Some c \<Longrightarrow> f c = g c) \<Longrightarrow> (case x of None \<Rightarrow> a | Some c \<Rightarrow> f c) = (case x of None \<Rightarrow> a | Some c \<Rightarrow> g c)"
  by (cases x) simp_all

lemma block_paths_blocks: "map snd (block_paths fs path) = blocks_below fs"
proof (induction fs path rule: block_paths.induct)
  case (1 fs path)
  show ?case
    unfolding block_paths.simps[of fs path] blocks_below.simps[of fs] map_concat list.map_comp
    by (intro arg_cong[of _ _ concat] map_cong refl) (auto simp: 1 map_option_list intro!: option_case_cong)
qed

lemma any_builder_iff: "any_builder P fs \<longleftrightarrow> list_ex P (blocks_below fs)"
proof (induction P fs rule: any_builder.induct)
  case (1 P fs)
  show ?case
    unfolding any_builder.simps[of P fs] blocks_below.simps[of fs] list_ex_concat_map list_ex_option_list
    by (intro list_ex_cong refl option_case_cong) (auto simp: 1)
qed

lemma inputs_below_rec:
  "list_ex Q (inputs_below fs) \<longleftrightarrow>
     list_ex (\<lambda>f. Q f \<or> (case nested_container (bf_type f) of
         None \<Rightarrow> False | Some c \<Rightarrow> list_ex Q (inputs_below (container_fields c))))
       (filter is_input fs)"
proof -
  have "list_ex Q (inputs_below fs) \<longleftrightarrow>
      list_ex Q (filter is_input fs) \<or> list_ex (\<lambda>m. list_ex Q (filter is_input m)) (blocks_below fs)"
    by (simp add: inputs_below_def list_ex_concat_map)
  also have "list_ex (\<lambda>m. list_ex Q (filter is_input m)) (blocks_below fs) \<longleftrightarrow>
      list_ex (\<lambda>f. case nested_container (bf_type f) of
          None \<Rightarrow> False | Some c \<Rightarrow> list_ex Q (inputs_below (container_fields c))) (filter is_input fs)"
    unfolding blocks_below.simps[of fs] inputs_below_def list_ex_append list_ex_concat_map list_ex_option_list
    by (rule refl)
  also have "list_ex Q (filter is_input fs) \<or> list_ex R (filter is_input fs) \<longleftrightarrow>
      list_ex (\<lambda>f. Q f \<or> R f) (filter is_input fs)" for R by (auto simp: list_ex_iff)
  finally show ?thesis .
qed

lemma list_ex_disj: "list_ex (\<lambda>x. P x \<or> Q x) xs \<longleftrightarrow> list_ex P xs \<or> list_ex Q xs"
  by (induction xs) auto

lemma any_builder_inputs:
  "list_ex P fs \<or> any_builder (list_ex P) fs \<longleftrightarrow> list_ex P (inputs_below fs)"
  if "\<And>f. P f \<Longrightarrow> is_input f"
proof -
  have "list_ex P m \<longleftrightarrow> list_ex P (filter is_input m)" for m using that by (auto simp: list_ex_iff)
  then show ?thesis by (simp add: any_builder_iff inputs_below_def list_ex_concat_map)
qed

lemma any_nested_input_iff:
  "any_nested_input P fs \<longleftrightarrow>
     list_ex (\<lambda>f. case nested_container (bf_type f) of None \<Rightarrow> False | Some c \<Rightarrow> P c) (inputs_below fs)"
proof (induction P fs rule: any_nested_input.induct)
  case (1 P fs)
  let ?nested = "\<lambda>f. case nested_container (bf_type f) of None \<Rightarrow> False | Some c \<Rightarrow> P c"
  have inputs: "list_ex (\<lambda>f. if \<not> bf_required f \<and> \<not> bf_optional f then False else R f) fs \<longleftrightarrow>
      list_ex R (filter is_input fs)" for R by (auto simp: list_ex_iff is_input_def)
  have "any_nested_input P fs \<longleftrightarrow>
      list_ex (\<lambda>f. case nested_container (bf_type f) of None \<Rightarrow> False
        | Some c \<Rightarrow> P c \<or> any_nested_input P (container_fields c)) (filter is_input fs)"
    by (subst any_nested_input.simps) (rule inputs)
  also have "\<dots> \<longleftrightarrow> list_ex (\<lambda>f. ?nested f \<or> (case nested_container (bf_type f) of None \<Rightarrow> False
        | Some c \<Rightarrow> list_ex ?nested (inputs_below (container_fields c)))) (filter is_input fs)"
  proof (rule list_ex_cong[OF refl])
    fix f assume "f \<in> set (filter is_input fs)"
    then have "f \<in> set fs" "\<not> (\<not> bf_required f \<and> \<not> bf_optional f)" by (auto simp: is_input_def)
    with 1 show "(case nested_container (bf_type f) of None \<Rightarrow> False
        | Some c \<Rightarrow> P c \<or> any_nested_input P (container_fields c)) \<longleftrightarrow>
      ?nested f \<or> (case nested_container (bf_type f) of None \<Rightarrow> False
        | Some c \<Rightarrow> list_ex ?nested (inputs_below (container_fields c)))"
      by (cases "nested_container (bf_type f)") auto
  qed
  also have "\<dots> \<longleftrightarrow> list_ex ?nested (inputs_below fs)" by (rule inputs_below_rec[symmetric])
  finally show ?case .
qed

text \<open>A type that mentions \<open>Json\<close> anywhere below an input makes the whole record use it.\<close>

lemma field_uses_json_type: "field_uses_json f \<longleftrightarrow> type_uses_json (bf_type f)"
  by (cases f) simp

lemma nested_uses_json:
  "nested_container t = Some c \<Longrightarrow> list_ex (\<lambda>f. type_uses_json (bf_type f)) (container_fields c) \<Longrightarrow> type_uses_json t"
  by (cases t rule: nested_container.cases) (auto simp: list_ex_iff field_uses_json_type)

lemma json_below:
  "list_ex (\<lambda>f. type_uses_json (bf_type f)) m \<Longrightarrow> m \<in> set (blocks_below fs) \<Longrightarrow> requires_json_import fs"
proof (induction fs rule: blocks_below.induct)
  case (1 fs)
  from 1(3)[unfolded blocks_below.simps[of fs]] obtain f c where f: "f \<in> set (filter is_input fs)" "nested_container (bf_type f) = Some c"
    and m: "m = container_fields c \<or> m \<in> set (blocks_below (container_fields c))"
    by (auto split: option.splits) metis+
  have "list_ex (\<lambda>f. type_uses_json (bf_type f)) (container_fields c)"
    using m 1(1)[OF f 1(2)] 1(2) unfolding requires_json_import_def by blast
  with nested_uses_json[OF f(2)] f(1) show ?case by (auto simp: requires_json_import_def list_ex_iff)
qed

section \<open>Text that starts a line\<close>

definition ends_line :: "string \<Rightarrow> bool" where
  "ends_line t \<longleftrightarrow> t = [] \<or> last t = CHR 0x0A"

text \<open>A line of \<open>t\<close> starts with \<open>h\<close>.\<close>

definition starts_line :: "string \<Rightarrow> string \<Rightarrow> bool" where
  "starts_line h t \<longleftrightarrow> (\<exists>a b. t = a @ h @ b \<and> ends_line a)"

named_theorems line_intros

lemma ends_line_nil [line_intros]: "ends_line []"
  by (simp add: ends_line_def)

lemma ends_line_nl [line_intros]: "ends_line nl"
  by (simp add: ends_line_def nl_def)

lemma ends_line_append [line_intros]: "ends_line b \<Longrightarrow> ends_line a \<Longrightarrow> ends_line (a @ b)"
  by (auto simp: ends_line_def last_append)

lemma ends_line_at_nl [line_intros]: "ends_line (a @ nl)"
  by (simp add: ends_line_def nl_def)

lemma ends_line_concat [line_intros]: "(\<And>x. x \<in> set xs \<Longrightarrow> ends_line (f x)) \<Longrightarrow> ends_line (concat (map f xs))"
  by (induction xs) (auto intro: line_intros)

lemma ends_line_if [line_intros]: "(b \<Longrightarrow> ends_line s) \<Longrightarrow> (\<not> b \<Longrightarrow> ends_line t) \<Longrightarrow> ends_line (if b then s else t)"
  by simp

lemma starts_line_here: "starts_line h (h @ b)"
  unfolding starts_line_def by (rule exI[of _ "[]"]) (auto intro: line_intros)

lemma starts_line_left: "starts_line h t \<Longrightarrow> starts_line h (t @ c)"
  unfolding starts_line_def by force

lemma starts_line_right: "starts_line h t \<Longrightarrow> ends_line a \<Longrightarrow> starts_line h (a @ t)"
  unfolding starts_line_def by (metis append.assoc ends_line_append)

lemma starts_line_concat:
  assumes "x \<in> set xs" and "starts_line h (f x)" and "\<And>x. x \<in> set xs \<Longrightarrow> ends_line (f x)"
  shows "starts_line h (concat (map f xs))"
proof -
  from assms(1) obtain as bs where xs: "xs = as @ x # bs" by (meson split_list)
  have "ends_line (concat (map f as))" using assms(3) xs by (intro line_intros) auto
  with assms(2) show ?thesis by (simp add: xs starts_line_left starts_line_right)
qed

text \<open>How a module declares a name: as a value, a type or an opaque type.\<close>

definition declares :: "string \<Rightarrow> string \<Rightarrow> bool" where
  "declares text n \<longleftrightarrow>
     starts_line (n @ '' :: '') text \<or> starts_line (''newtype '' @ n @ '' = '') text \<or>
     starts_line (''type '' @ n @ '' ='') text \<or> starts_line (''data '' @ n @ nl) text"

lemma declares_left: "declares t n \<Longrightarrow> declares (t @ c) n"
  unfolding declares_def using starts_line_left by blast

lemma declares_right: "declares t n \<Longrightarrow> ends_line a \<Longrightarrow> declares (a @ t) n"
  unfolding declares_def using starts_line_right by blast

lemma declares_concat:
  assumes "x \<in> set xs" and "declares (f x) n" and "\<And>x. x \<in> set xs \<Longrightarrow> ends_line (f x)"
  shows "declares (concat (map f xs)) n"
proof -
  have "starts_line h (f x) \<longrightarrow> starts_line h (concat (map f xs))" for h
    using starts_line_concat[of x xs h f, OF assms(1) _ assms(3)] by blast
  with assms(2) show ?thesis unfolding declares_def by blast
qed

lemma declares_here:
  "declares (n @ '' :: '' @ b) n" "declares (''newtype '' @ n @ '' = '' @ b) n" "declares (''type '' @ n @ '' ='' @ b) n"
  "declares (''data '' @ n @ nl @ b) n"
  using starts_line_here[of "n @ '' :: ''" b] starts_line_here[of "''newtype '' @ n @ '' = ''" b]
    starts_line_here[of "''type '' @ n @ '' =''" b] starts_line_here[of "''data '' @ n @ nl" b]
  by (simp_all add: declares_def)

text \<open>A declaration found after text that ends a line.\<close>

lemma declares_at:
  "ends_line a \<Longrightarrow> \<exists>b. t = a @ n @ '' :: '' @ b \<Longrightarrow> declares t n"
  "ends_line a \<Longrightarrow> \<exists>b. t = a @ ''newtype '' @ n @ '' = '' @ b \<Longrightarrow> declares t n"
  "ends_line a \<Longrightarrow> \<exists>b. t = a @ ''type '' @ n @ '' ='' @ b \<Longrightarrow> declares t n"
  "ends_line a \<Longrightarrow> \<exists>b. t = a @ ''data '' @ n @ nl @ b \<Longrightarrow> declares t n"
  using declares_here(1)[of n] declares_here(2)[of n] declares_here(3)[of n] declares_here(4)[of n] declares_right
  by blast+

section \<open>What is written ends its lines\<close>

lemma doc_line_ends [line_intros]: "ends_line (doc_line s l)"
  by (simp add: doc_line_def ends_line_def nl_def)

lemma doc_comment_ends [line_intros]: "ends_line (render_doc_comment d)"
  unfolding render_doc_comment_def by (intro line_intros)

lemma field_comment_ends [line_intros]: "ends_line (field_comment field)"
  by (auto simp: field_comment_def intro: line_intros split: option.splits)

lemma collect_ends: "ends_line (collect_field_documentation parent f)" "ends_line (collect_type_documentation path t)"
proof (induction parent f and path t rule: collect_field_documentation_collect_type_documentation.induct)
  case (1 parent provider public t r opt c sens b reserved d lo hi)
  have own: "ends_line (case ls of [] \<Rightarrow> ''-- | - '' @ p @ '': '' @ nl
      | first # rest \<Rightarrow> ''-- | - '' @ p @ '': '' @ trim_end first @ nl @ concat (map (doc_line s) rest))" for ls p s
  proof (cases ls)
    case (Cons first rest)
    have "ends_line (concat (map (doc_line s) rest))" by (intro line_intros)
    with Cons show ?thesis by (auto simp: ends_line_def nl_def last_append)
  qed (simp add: ends_line_def nl_def)
  show ?case
    unfolding collect_field_documentation.simps Let_def
    by (intro line_intros 1[OF refl refl refl] own)
qed (auto intro!: line_intros)

lemma record_documentation_ends [line_intros]: "ends_line (render_record_documentation s fs)"
proof -
  have "ends_line (concat (map (collect_field_documentation []) fs))" by (intro line_intros collect_ends)
  then have "ends_line (''-- |'' @ nl @ concat (map (collect_field_documentation []) fs))"
    by (auto simp: ends_line_def nl_def last_append)
  then show ?thesis
    by (cases "concat (map (collect_field_documentation []) fs) = []")
      (simp_all add: render_record_documentation_def Let_def doc_comment_ends ends_line_append)
qed

lemma setter_ends [line_intros]: "ends_line (render_setter field)" "ends_line (render_nested_setter names field)"
  by (simp_all add: render_setter_def render_nested_setter_def Let_def ends_line_def nl_def)

lemma nested_builder_ends [line_intros]: "ends_line (render_nested_builder block)"
  by (cases block) (simp add: render_nested_builder_def Let_def ends_line_def nl_def)

lemma nested_builders_ends [line_intros]: "ends_line (render_nested_builders fs)"
  unfolding render_nested_builders_def by (intro line_intros)

lemma args_ends [line_intros]: "ends_line (render_args fs)"
  by (simp add: render_args_def Let_def ends_line_def nl_def)

lemma import_line_ends [line_intros]: "ends_line (import_line m names)"
  by (simp add: import_line_def ends_line_def nl_def)

lemma imports_end [line_intros]: "ends_line (render_builder_import operation fs)" "ends_line (render_core_import kind fs)"
  unfolding render_builder_import_def render_core_import_def Let_def
  by (auto simp: case_prod_beta intro!: line_intros)

lemma exports_end [line_intros]: "ends_line (render_exports m names)"
  by (simp add: render_exports_def exports_finish_def case_prod_beta ends_line_def nl_def)

lemma handle_ends [line_intros]: "ends_line (render_handle item data_source)"
  by (simp add: render_handle_def Let_def ends_line_def nl_def)

section \<open>Exported names are declared\<close>

lemma setter_declares:
  "declares (render_setter field) (safe_field_name field)"
  "declares (render_nested_setter names field) (nested_setter_name names field)"
  by (rule declares_at(1)[where a = "field_comment field"];
      auto simp: render_setter_def render_nested_setter_def Let_def intro: line_intros)+

lemma builder_declares:
  assumes "n \<in> set ([bn_type_name names, bn_type_name names @ ''Required'', bn_prefix names @ ''Args''] @
    map (nested_setter_name names) (filter bf_optional members))"
  shows "declares (render_nested_builder (names, members)) n"
proof -
  let ?t = "bn_type_name names" and ?p = "bn_prefix names" and ?req = "filter bf_required members"
  let ?head = "''newtype '' @ ?t @ '' = '' @ ?t @ '' InputObject'' @ nl @ nl @
    render_record_documentation (''Required fields for '' @ ticked ?t @ ''.'') ?req"
  let ?type = "''type '' @ ?t @ ''Required ='' @ nl @ ''  {'' @ render_required_fields ?req names @ nl @ ''  }'' @ nl @ nl"
  let ?args = "?p @ ''Args :: '' @ ?t @ ''Required -> '' @ ?t @ nl @
    ?p @ ''Args '' @ (if ?req = [] then ''_'' else ''required'') @ '' = '' @ ?t @
    '' (inputObject'' @ nl @ ''  ['' @ render_required_values ?req names @ nl @ ''  ])'' @ nl @ nl"
  have "ends_line (''newtype '' @ ?t @ '' = '' @ ?t @ '' InputObject'' @ nl @ nl)"
    by (simp add: ends_line_def nl_def)
  from ends_line_append[OF record_documentation_ends this] have head: "ends_line ?head" by simp
  have type: "ends_line ?type" and args: "ends_line ?args" by (simp_all add: ends_line_def nl_def)
  from assms consider "n = ?t" | "n = ?t @ ''Required''" | "n = ?p @ ''Args''"
    | f where "f \<in> set (filter bf_optional members)" "n = nested_setter_name names f" by auto
  then show ?thesis
  proof cases
    case 1
    then show ?thesis by (intro declares_at(2)[of "[]"]) (simp_all add: render_nested_builder_def Let_def ends_line_nil)
  next
    case 2
    then show ?thesis by (intro declares_at(3)[OF head]) (simp add: render_nested_builder_def Let_def)
  next
    case 3
    then show ?thesis
      by (intro declares_at(1)[OF ends_line_append[OF type head]]) (simp add: render_nested_builder_def Let_def)
  next
    case 4
    have "declares (concat (map (render_nested_setter names) (filter bf_optional members))) n"
      using declares_concat[where f = "render_nested_setter names", OF 4(1) setter_declares(2) setter_ends(2)] 4(2) by simp
    from declares_right[OF declares_left[OF this] ends_line_append[OF args ends_line_append[OF type head]]]
    show ?thesis by (simp add: render_nested_builder_def Let_def)
  qed
qed

lemma builders_declare: "n \<in> set (nested_exports fs) \<Longrightarrow> declares (render_nested_builders fs) n"
proof -
  assume "n \<in> set (nested_exports fs)"
  then obtain names members where block: "(names, members) \<in> set (builders fs root_names)"
    and "n \<in> set ([bn_type_name names, bn_type_name names @ ''Required'', bn_prefix names @ ''Args''] @
      map (nested_setter_name names) (filter bf_optional members))"
    by (auto simp: nested_exports_def)
  from declares_concat[where f = render_nested_builder, OF block builder_declares[OF this(2)]] show ?thesis
    by (simp add: render_nested_builders_def nested_builder_ends)
qed

lemma args_declare: "n \<in> {''Args'', ''Required'', ''args''} \<Longrightarrow> declares (render_args fs) n"
proof -
  let ?req = "filter bf_required fs"
  let ?doc = "render_record_documentation ''Required arguments.'' ?req"
  let ?type = "''type Required ='' @ nl @ ''  {'' @ render_required_fields ?req root_names @ nl @ ''  }'' @ nl @ nl"
  let ?new = "''newtype Args = Args InputObject'' @ nl @ nl"
  have type: "ends_line ?type" and new: "ends_line ?new" by (simp_all add: ends_line_def nl_def)
  note doc = record_documentation_ends[of "''Required arguments.''" ?req]
  assume "n \<in> {''Args'', ''Required'', ''args''}"
  then consider "n = ''Required''" | "n = ''Args''" | "n = ''args''" by auto
  then show ?thesis
  proof cases
    case 1
    then show ?thesis by (intro declares_at(3)[OF doc]) (simp add: render_args_def Let_def)
  next
    case 2
    then show ?thesis by (intro declares_at(2)[OF ends_line_append[OF type doc]]) (simp add: render_args_def Let_def)
  next
    case 3
    then show ?thesis
      by (intro declares_at(1)[OF ends_line_append[OF new ends_line_append[OF type doc]]]) (simp add: render_args_def Let_def)
  qed
qed

lemma setters_declare:
  "n \<in> set (map safe_field_name (filter bf_optional fs)) \<Longrightarrow> declares (concat (map render_setter (filter bf_optional fs))) n"
  using declares_concat[where f = render_setter and xs = "filter bf_optional fs", OF _ setter_declares(1) setter_ends(1)]
  by auto

lemma header_ends: "ends_line (''import Prelude (bind'' @ (if m then '', map'' else []) @ '', pure)'' @ nl @ nl)"
  "ends_line (if b then ''import Prelude (map)'' @ nl @ nl else [])"
  "ends_line (if b then ''import Data.Argonaut.Core (Json)'' @ nl else [])" "ends_line (''import Data.Maybe (Maybe(..))'' @ nl)"
  "ends_line (if b then ''import Data.Tuple (Tuple(..))'' @ nl else [])"
  "ends_line (if b then ''import Foreign.Object as Object'' @ nl else [])" "ends_line (''data '' @ n @ nl @ nl)"
  by (simp_all add: ends_line_def nl_def)

text \<open>A module in parts, each ending a line: header, opaque type, blocks, arguments, setters, rest.\<close>

lemma parts_declare:
  assumes "ends_line header"
    and "n \<in> set ([marker, ''Args'', ''Required'', ''args''] @ nested_exports fs @
      map safe_field_name (filter bf_optional fs)) \<or> declares rest n"
  shows "declares (header @ (''data '' @ marker @ nl @ nl) @ render_nested_builders fs @ render_args fs @
    concat (map render_setter (filter bf_optional fs)) @ rest) n"
proof -
  note ends = assms(1) header_ends(7)[of marker] nested_builders_ends[of fs] args_ends[of fs]
  have setters: "ends_line (concat (map render_setter (filter bf_optional fs)))" by (intro line_intros)
  from assms(2) consider "n = marker" | "n \<in> set (nested_exports fs)" | "n \<in> {''Args'', ''Required'', ''args''}"
    | "n \<in> set (map safe_field_name (filter bf_optional fs))" | "declares rest n" by auto
  then show ?thesis
  proof cases
    case 1
    then show ?thesis by (intro declares_at(4)[OF ends(1)]) simp
  next
    case 2
    then show ?thesis by (intro declares_right declares_left builders_declare ends)
  next
    case 3
    then show ?thesis by (intro declares_right declares_left args_declare ends)
  next
    case 4
    then show ?thesis by (intro declares_right declares_left setters_declare ends)
  next
    case 5
    then show ?thesis by (intro declares_right ends setters)
  qed
qed

lemma handle_declares: "declares (render_handle item data_source) (safe_type_name (bi_public_name item))"
  by (rule declares_at(3)[OF record_documentation_ends]) (auto simp: render_handle_def Let_def)

lemma operations_declare:
  "n \<in> set (if data_source then [''read'', ''readWith''] else [''create'', ''createWith'']) \<Longrightarrow>
     declares (render_operations item module_root provider data_source) n"
proof -
  let ?h = "safe_type_name (bi_public_name item)"
  define op where "op = (if data_source then ''read'' else ''create'')"
  define op_with where "op_with = (if data_source then ''readWith'' else ''createWith'')"
  define options where "options = (if data_source then ''dataSourceOptions'' else ''resourceOptions'')"
  let ?first = "op @ '' :: String -> Args -> Infra '' @ ?h @ nl @ op @ '' logicalName values = '' @ op_with @
    '' logicalName values '' @ options @ nl @ nl"
  have "\<exists>b. render_operations item module_root provider data_source = ?first @ op_with @ '' :: '' @ b"
    by (cases data_source) (simp_all add: render_operations_def op_def op_with_def options_def Let_def)
  then obtain b where r: "render_operations item module_root provider data_source = ?first @ op_with @ '' :: '' @ b" ..
  assume "n \<in> set (if data_source then [''read'', ''readWith''] else [''create'', ''createWith''])"
  then consider "n = op" | "n = op_with" by (auto simp: op_def op_with_def split: if_splits)
  then show ?thesis
  proof cases
    case 1
    then show ?thesis by (intro declares_at(1)[OF ends_line_nil]) (simp add: r)
  next
    case 2
    have "ends_line ?first" by (simp add: ends_line_def nl_def)
    with 2 show ?thesis by (intro declares_at(1)[of ?first]) (simp_all add: r)
  qed
qed

lemma item_declares:
  assumes "n \<in> set (item_exports item data_source)"
  shows "declares (render_item item module module_root provider data_source) n"
proof -
  let ?fs = "bi_fields item"
  let ?header = "render_exports module (item_exports item data_source) @
    (''import Prelude (bind'' @ (if uses_nested_mapping ?fs then '', map'' else []) @ '', pure)'' @ nl @ nl) @
    (if requires_json_import ?fs then ''import Data.Argonaut.Core (Json)'' @ nl else []) @
    (if has_required_fields ?fs then ''import Data.Tuple (Tuple(..))'' @ nl else []) @
    (if uses_map_expressions ?fs then ''import Foreign.Object as Object'' @ nl else []) @
    render_builder_import (if data_source then ''addDataSource'' else ''addResource'') ?fs @
    render_core_import (Some data_source) ?fs @
    import_line (module_root @ ''.Provider'') [provider_marker module_root] @ nl"
  let ?rest = "render_handle item data_source @ render_operations item module_root provider data_source"
  have header: "ends_line ?header" by (intro ends_line_append header_ends imports_end import_line_ends exports_end ends_line_nl)
  have "n \<in> set ([item_node_name item data_source, ''Args'', ''Required'', ''args''] @ nested_exports ?fs @
      map safe_field_name (filter bf_optional ?fs)) \<or> declares ?rest n"
    using assms declares_left[OF handle_declares[of item data_source]]
      declares_right[OF operations_declare[of n data_source item module_root provider] handle_ends[of item data_source]]
    by (auto simp: item_exports_def)
  from parts_declare[OF header this] show ?thesis by (simp add: render_item_def Let_def)
qed

lemma provider_declares:
  assumes "n \<in> set (provider_exports module_root (bp_fields (bk_provider package)))"
  shows "declares (render_provider package module_root) n"
proof -
  let ?fs = "bp_fields (bk_provider package)" and ?p = "bk_provider package" and ?m = "provider_marker module_root"
  let ?header = "render_exports (module_root @ ''.Provider'') (provider_exports module_root ?fs) @
    (if uses_nested_mapping ?fs then ''import Prelude (map)'' @ nl @ nl else []) @
    (if requires_json_import ?fs then ''import Data.Argonaut.Core (Json)'' @ nl else []) @
    (''import Data.Maybe (Maybe(..))'' @ nl) @
    (if has_required_fields ?fs then ''import Data.Tuple (Tuple(..))'' @ nl else []) @
    (if uses_map_expressions ?fs then ''import Foreign.Object as Object'' @ nl else []) @
    render_builder_import ''addProvider'' ?fs @ render_core_import None ?fs @ nl"
  define arguments where "arguments = quoted (provider_local_name_from_source (bp_source ?p)) @ '' '' @
    quoted (bp_source ?p) @ '' '' @ quoted (''= '' @ bp_version ?p)"
  let ?first = "''configure :: Args -> Infra (Provider '' @ ?m @ '')'' @ nl @
    ''configure (Args values) = addProvider '' @ arguments @ '' Nothing values'' @ nl @ nl"
  let ?second = "''configureAs :: String -> Args -> Infra (Provider '' @ ?m @ '')'' @ nl @
    ''configureAs alias (Args values) = addProvider '' @ arguments @ '' (Just alias) values'' @ nl"
  have header: "ends_line ?header" by (intro ends_line_append header_ends imports_end exports_end ends_line_nl)
  have first: "ends_line ?first" by (simp add: ends_line_def nl_def)
  have "declares (?first @ ?second) ''configure''" by (rule declares_at(1)[OF ends_line_nil]) simp
  moreover have "declares (?first @ ?second) ''configureAs''" by (rule declares_at(1)[OF first]) simp
  ultimately have "n \<in> set ([?m, ''Args'', ''Required'', ''args''] @ nested_exports ?fs @
      map safe_field_name (filter bf_optional ?fs)) \<or> declares (?first @ ?second) n"
    using assms by (auto simp: provider_exports_def simp del: append_assoc append.simps)
  from parts_declare[OF header this] show ?thesis
    by (simp add: render_provider_def Let_def arguments_def)
qed

section \<open>Paths of a package\<close>

lemma item_path:
  assumes "alphanumeric name"
  shows "module_path (module_root @ ''.Resource.'' @ name) =
      ''src/'' @ replace_char (CHR ''.'') (CHR ''/'') module_root @ ''/Resource/'' @ name @ ''.purs''"
    and "module_path (module_root @ ''.Data.'' @ name) =
      ''src/'' @ replace_char (CHR ''.'') (CHR ''/'') module_root @ ''/Data/'' @ name @ ''.purs''"
    and "module_path (module_root @ ''.Provider'') =
      ''src/'' @ replace_char (CHR ''.'') (CHR ''/'') module_root @ ''/Provider.purs''"
  using alphanumeric_replace[OF assms] by (simp_all add: module_path_def replace_char_def)

lemma item_jobs_paths:
  assumes "kind \<in> {''Resource'', ''Data''}" and "\<And>item. item \<in> set items \<Longrightarrow> alphanumeric (bi_public_name item)"
  shows "map job_path (item_jobs package module_root kind data_source items) =
    map (\<lambda>name. ''src/'' @ replace_char (CHR ''.'') (CHR ''/'') module_root @ ''/'' @ kind @ ''/'' @ name @ ''.purs'')
      (map bi_public_name items)"
  using assms item_path(1,2)[of _ module_root] by (auto simp: item_jobs_def Let_def)

lemma package_paths:
  assumes "derive_bindings_with schema strip = Inr package" and "package_files pretty package module_root digest = Inr jobs"
  shows "distinct (map job_path jobs)"
proof -
  let ?root = "''src/'' @ replace_char (CHR ''.'') (CHR ''/'') module_root @ ''/''"
  let ?rs = "map (\<lambda>name. ?root @ ''Resource/'' @ name @ ''.purs'') (map bi_public_name (bk_resources package))"
  let ?ds = "map (\<lambda>name. ?root @ ''Data/'' @ name @ ''.purs'') (map bi_public_name (bk_data_sources package))"
  note names = derived_names[OF assms(1)]
  have "map job_path jobs = (?root @ ''Provider.purs'') # ?rs @ ?ds @
      [''provider-manifest.json'', ''README.md'', ''spago.yaml'']"
    using assms(2) item_jobs_paths[of "''Resource''" "bk_resources package" package module_root False]
      item_jobs_paths[of "''Data''" "bk_data_sources package" package module_root True] names(3) item_path(3)[of "[]" module_root]
    by (auto simp: package_files_def text_job_def Let_def split: if_splits)
  moreover have "distinct ?rs" "distinct ?ds"
    using names(1,2) unfolding distinct_map[of "\<lambda>name. ?root @ _ @ name @ ''.purs''"] by (auto simp: inj_on_def)
  ultimately show ?thesis by auto
qed

section \<open>Properties\<close>

lemma render_exports_text:
  "names \<noteq> [] \<Longrightarrow> render_exports m names = ''module '' @ m @ nl @ ''  ( '' @ join (nl @ ''  , '') names @ nl @ ''  ) where'' @ nl @ nl"
proof -
  have fold: "fold exports_add names (out, False) = (out @ concat (map (\<lambda>n. nl @ ''  , '' @ n) names), False)" for out names
    by (induction names arbitrary: out) (simp_all add: exports_add_def)
  have join: "join sep (n # ns) = n @ concat (map (\<lambda>n. sep @ n) ns)" for sep n and ns :: "string list"
    by (induction ns arbitrary: n) simp_all
  assume "names \<noteq> []"
  then show ?thesis
    by (cases names) (simp_all add: render_exports_def exports_new_def exports_finish_def exports_add_def fold join
        del: join.simps)
qed


text \<open>The imports of a generated module cover what its declarations use at every depth of
  nesting: each predicate that decides an import holds exactly when some input field needs it,
  and a type written as \<open>Json\<close> anywhere below an input brings in \<open>Json\<close>.\<close>

lemma imports_cover_uses:
  "(has_required_fields fs \<longleftrightarrow> list_ex bf_required (inputs_below fs)) \<and>
   (list_ex bf_optional fs \<or> has_optional_nested_fields fs \<longleftrightarrow> list_ex bf_optional (inputs_below fs)) \<and>
   (uses_array_expressions fs \<longleftrightarrow>
      list_ex (\<lambda>f. \<exists>m. nested_container (bf_type f) = Some (NestedArray m)) (inputs_below fs)) \<and>
   (uses_map_expressions fs \<longleftrightarrow>
      list_ex (\<lambda>f. \<exists>m. nested_container (bf_type f) = Some (NestedMap m)) (inputs_below fs)) \<and>
   (uses_nested_mapping fs \<longleftrightarrow> uses_array_expressions fs \<or> uses_map_expressions fs) \<and>
   (has_nested_builders fs \<longleftrightarrow> blocks_below fs \<noteq> []) \<and>
   (requires_json_import fs \<or> list_ex (\<lambda>f. type_uses_json (bf_type f)) (inputs_below fs) \<longleftrightarrow>
      requires_json_import fs)"
proof (intro conjI)
  show "has_required_fields fs \<longleftrightarrow> list_ex bf_required (inputs_below fs)"
    unfolding has_required_fields_def by (rule any_builder_inputs) (simp add: is_input_def)
  show "list_ex bf_optional fs \<or> has_optional_nested_fields fs \<longleftrightarrow> list_ex bf_optional (inputs_below fs)"
    unfolding has_optional_nested_fields_def by (rule any_builder_inputs) (simp add: is_input_def)
  show "uses_array_expressions fs \<longleftrightarrow>
      list_ex (\<lambda>f. \<exists>m. nested_container (bf_type f) = Some (NestedArray m)) (inputs_below fs)"
    unfolding uses_array_expressions_def any_nested_input_iff
    by (intro list_ex_cong refl) (auto split: option.splits container.splits)
  show "uses_map_expressions fs \<longleftrightarrow>
      list_ex (\<lambda>f. \<exists>m. nested_container (bf_type f) = Some (NestedMap m)) (inputs_below fs)"
    unfolding uses_map_expressions_def any_nested_input_iff
    by (intro list_ex_cong refl) (auto split: option.splits container.splits)
  show "uses_nested_mapping fs \<longleftrightarrow> uses_array_expressions fs \<or> uses_map_expressions fs"
    unfolding uses_nested_mapping_def uses_array_expressions_def uses_map_expressions_def any_nested_input_iff
      list_ex_disj[symmetric]
    by (intro list_ex_cong refl) (auto split: option.splits container.splits)
  show "has_nested_builders fs \<longleftrightarrow> blocks_below fs \<noteq> []"
    unfolding has_nested_builders_def any_builder_iff by (cases "blocks_below fs") auto
  have "requires_json_import fs" if "f \<in> set (inputs_below fs)" "type_uses_json (bf_type f)" for f
  proof -
    from that have "f \<in> set fs \<or> (\<exists>m \<in> set (blocks_below fs). f \<in> set m)" by (auto simp: inputs_below_def)
    with that(2) show ?thesis using json_below[of _ fs] by (auto simp: requires_json_import_def list_ex_iff)
  qed
  then show "requires_json_import fs \<or> list_ex (\<lambda>f. type_uses_json (bf_type f)) (inputs_below fs) \<longleftrightarrow>
      requires_json_import fs" by (auto simp: list_ex_iff)
qed

text \<open>The names of a nested input block, computed by extending those of its parent, are the
  ones its whole path gives: every block of a record is visited once, parents before children,
  with the type name and the prefix of its path.\<close>

lemma builders_named_by_path:
  "builders fs root_names = map (\<lambda>(path, members). (names_of_path path, members)) (block_paths fs [])"
  using builders_paths[of fs "[]"] by (simp add: names_of_root)

text \<open>The files of a package generated from derived bindings all have different paths, so no
  module overwrites another one or the manifest.\<close>

lemma package_paths_distinct:
  assumes "derive_bindings_with schema strip = Inr package"
    and "package_files pretty package module_root digest = Inr jobs"
  shows "distinct (map job_path jobs)"
  using package_paths[OF assms] .

lemma package_paths_distinct_witness:
  "distinct (map job_path (projr (package_files (\<lambda>_. []) (projr (derive_bindings_with sample_provider None)) ''Demo'' ''abc'')))"
proof -
  have "is_ok (derive_bindings_with sample_provider None)"
    by (simp only: derive_bindings_ok) code_simp
  then have package: "derive_bindings_with sample_provider None = Inr (projr (derive_bindings_with sample_provider None))"
    by (auto elim!: is_okE)
  have "valid_module_root ''Demo''" by code_simp
  then have files: "package_files (\<lambda>_. []) p ''Demo'' d = Inr (projr (package_files (\<lambda>_. []) p ''Demo'' d))" for p d
    by (simp add: package_files_def Let_def)
  show ?thesis by (rule package_paths_distinct[OF package files])
qed

section \<open>Names that clash\<close>

text \<open>
  Two facts about the generator as it is. The capitalized path of a block does not determine the
  path: a block \<open>node\<close> with a nested \<open>pool_taint\<close> and a block \<open>node_pool\<close> with a nested
  \<open>taint\<close> get the same type name, and the module exports it twice. An optional field called
  \<open>args\<close> gets a setter with the name of the constructor.
\<close>

definition single_block :: "(string \<times> nested_block_schema) list \<Rightarrow> nested_block_schema" where
  "single_block bs = NestedBlockSchema SingleNesting None None (BlockSchema [] bs)"

definition clashing_block :: block_schema where
  "clashing_block = BlockSchema []
     [(''node'', single_block [(''pool_taint'', single_block [])]),
      (''node_pool'', single_block [(''taint'', single_block [])])]"

lemma block_names_clash:
  "map (bn_type_name \<circ> fst) (builders (bind_fields clashing_block) root_names) =
     [''Node'', ''NodePoolTaint'', ''NodePool'', ''NodePoolTaint'']"
  by code_simp

definition args_block :: block_schema where
  "args_block = BlockSchema [(''args'', AttributeSchema StringType False True False False None)] []"

lemma setter_name_clashes:
  "safe_field_name (hd (bind_fields args_block)) = ''args'' \<and>
   \<not> distinct (item_exports \<lparr>bi_provider_type = ''demo_task'', bi_public_name = ''Task'', bi_fields = bind_fields args_block\<rparr> False)"
  by code_simp

end
