(* ===== verification/Lean_Shapes.thy ===== *)
theory Lean_Shapes
  imports Binding_Model
begin

text \<open>
  Names and nested types of a generated Lean module: the second half of
  \<open>crates/emit-lean/src/lib.rs\<close>. \<open>Shapes\<close> gives every distinct list of fields one
  declaration, however many block paths have it; its hash maps are association lists, and a
  shared list of fields, compared by value, is the list.
\<close>

section \<open>Names\<close>

definition RESERVED_TYPE_NAMES :: "string list" where
  "RESERVED_TYPE_NAMES =
     [''Type'', ''Prop'', ''Sort'', ''String'', ''Bool'', ''Nat'', ''Int'', ''Float'', ''Char'', ''List'', ''Array'',
      ''Option'', ''Unit'', ''Value'', ''Number'', ''Map'', ''Expr'', ''ExprNode'', ''Input'', ''InputObject'',
      ''Identifier'', ''Address'', ''Resource'', ''DataSource'', ''Provider'', ''Infra'', ''Args'', ''Required'',
      ''Block'', ''Dependable'', ''Managed'', ''Interpolated'', ''Attributes'', ''State'', ''Partial'', ''Resolved'',
      ''Marshal'', ''FromValue'', ''ToValue'', ''Lean'', ''Inframe'']"

definition safe_lean_type_name :: "string \<Rightarrow> string list \<Rightarrow> string \<Rightarrow> string" where
  "safe_lean_type_name name reserved suffix =
     (if List.member RESERVED_TYPE_NAMES name \<or> List.member reserved name then name @ suffix else name)"

definition safe_handle_name :: "string \<Rightarrow> string \<Rightarrow> string" where
  "safe_handle_name name node = safe_lean_type_name name [node] ''Handle''"

definition nested_type_name :: "string list \<Rightarrow> string list \<Rightarrow> string" where
  "nested_type_name path reserved = safe_lean_type_name (foldl push_capitalized [] path) reserved ''Block''"

definition lean_reserved :: "string \<Rightarrow> bool" where
  "lean_reserved name = List.member
     [''abbrev'', ''at'', ''attribute'', ''axiom'', ''break'', ''by'', ''calc'', ''catch'', ''class'', ''continue'',
      ''declare_syntax_cat'', ''decreasing_by'', ''def'', ''deriving'', ''do'', ''elab'', ''else'', ''end'', ''example'',
      ''exists'', ''export'', ''extends'', ''false'', ''finally'', ''for'', ''forall'', ''from'', ''fun'', ''generalizing'',
      ''have'', ''hiding'', ''if'', ''import'', ''in'', ''include'', ''inductive'', ''infix'', ''infixl'', ''infixr'',
      ''instance'', ''let'', ''local'', ''macro'', ''macro_rules'', ''match'', ''matches'', ''meta'', ''module'', ''mut'',
      ''mutual'', ''namespace'', ''nofun'', ''nomatch'', ''noncomputable'', ''nonrec'', ''notation'', ''omit'', ''only'',
      ''opaque'', ''open'', ''partial'', ''postfix'', ''prefix'', ''private'', ''protected'', ''public'', ''renaming'',
      ''repeat'', ''return'', ''scoped'', ''section'', ''set_option'', ''show'', ''sorry'', ''structure'', ''suffices'',
      ''syntax'', ''termination_by'', ''then'', ''theorem'', ''this'', ''true'', ''try'', ''universe'', ''unless'',
      ''unsafe'', ''until'', ''using'', ''variable'', ''where'', ''while'', ''with''] name"

text \<open>Names that would clash with generated members of an argument record.\<close>

definition ARGS_RESERVED :: "string list" where
  "ARGS_RESERVED = [''mk'', ''toInputObject'', ''toExprNode'']"

definition lean_field_name :: "binding_field \<Rightarrow> string list \<Rightarrow> string" where
  "lean_field_name field reserved =
     (let name = bf_public_name field
      in name @
         (if lean_reserved name \<or> List.member reserved name \<or> (case name of [] \<Rightarrow> False | c # _ \<Rightarrow> is_ascii_digit c)
          then ''_'' else []))"

section \<open>Nesting\<close>

datatype lean_container = LeanSingle | LeanArray | LeanMap

fun lean_container_of :: "binding_type \<Rightarrow> lean_container option" where
  "lean_container_of (BindObject _) = Some LeanSingle"
| "lean_container_of (BindList (BindObject _)) = Some LeanArray"
| "lean_container_of (BindSet (BindObject _)) = Some LeanArray"
| "lean_container_of (BindMap (BindObject _)) = Some LeanMap"
| "lean_container_of _ = None"

definition lean_input :: "binding_field \<Rightarrow> bool" where
  "lean_input field \<longleftrightarrow> bf_required field \<or> bf_optional field"

text \<open>How many entries a block may have.\<close>

datatype multiplicity = One | AtMostOne | Many "u64 option" "u64 option"

definition multiplicity_of :: "binding_field \<Rightarrow> multiplicity" where
  "multiplicity_of field =
     (case bf_max_items field of
        Some m \<Rightarrow>
          if m = 1 then (if bf_required field then One else AtMostOne)
          else Many (bf_min_items field) (Some m)
      | None \<Rightarrow> Many (bf_min_items field) None)"

definition nullable_list :: "binding_field \<Rightarrow> bool" where
  "nullable_list field \<longleftrightarrow> \<not> bf_block field \<and> \<not> bf_required field"

section \<open>Shapes\<close>

text \<open>A node of the trie of paths is an index of \<open>sh_declared\<close>; the item itself is node 0.\<close>

type_synonym path_node = nat

definition ROOT :: path_node where
  "ROOT = 0"

record lean_nested_type =
  nt_path :: "string list"
  nt_node :: path_node
  nt_name :: string
  nt_fields :: fields_list
  nt_builder :: bool
  nt_occurrences :: nat

record shapes =
  sh_entries :: "lean_nested_type list"
  sh_by_fields :: "((bool \<times> fields_list) \<times> nat) list"
  sh_children :: "((path_node \<times> string) \<times> path_node) list"
  sh_declared :: "nat option list"

definition no_shapes :: shapes where
  "no_shapes = \<lparr>sh_entries = [], sh_by_fields = [], sh_children = [], sh_declared = [None]\<rparr>"

text \<open>A node is a \<open>u32\<close>: with $2^{32}$ of them the code panics, which is \<open>None\<close> here.\<close>

definition fits_u32 :: "nat \<Rightarrow> bool" where
  "fits_u32 n \<longleftrightarrow> unat (of_nat n :: 32 word) = n"

lemma fits_u32_iff: "fits_u32 n \<longleftrightarrow> n < 2 ^ 32"
  unfolding fits_u32_def unat_of_nat by (auto simp: mod_eq_self_iff_div_eq_0 intro: mod_less)

definition shape_child :: "path_node \<Rightarrow> string \<Rightarrow> shapes \<Rightarrow> (path_node \<times> shapes) option" where
  "shape_child parent segment s =
     (let fresh = length (sh_declared s)
      in if \<not> fits_u32 fresh then None
         else
           (case map_of (sh_children s) (parent, segment) of
              Some node \<Rightarrow> Some (node, s)
            | None \<Rightarrow>
                Some (fresh, s\<lparr>sh_children := ((parent, segment), fresh) # sh_children s,
                  sh_declared := sh_declared s @ [None]\<rparr>)))"

text \<open>Declares the shape of \<open>fs\<close> unless it is known, and records it for the node.\<close>

definition shape_declare ::
  "string list \<Rightarrow> bool \<Rightarrow> fields_list \<Rightarrow> string list \<Rightarrow> path_node \<Rightarrow> shapes \<Rightarrow> shapes" where
  "shape_declare reserved builder fs path node s =
     (case map_of (sh_by_fields s) (builder, fs) of
        Some index \<Rightarrow>
          let entry = sh_entries s ! index
          in s\<lparr>sh_entries := (sh_entries s)[index := entry\<lparr>nt_occurrences := nt_occurrences entry + 1\<rparr>],
               sh_declared := (sh_declared s)[node := Some index]\<rparr>
      | None \<Rightarrow>
          let index = length (sh_entries s);
              entry = \<lparr>nt_path = path, nt_node = node, nt_name = nested_type_name path reserved,
                nt_fields = fs, nt_builder = builder, nt_occurrences = 1\<rparr>
          in s\<lparr>sh_entries := sh_entries s @ [entry], sh_by_fields := ((builder, fs), index) # sh_by_fields s,
               sh_declared := (sh_declared s)[node := Some index]\<rparr>)"

fun fold_option :: "('a \<Rightarrow> 's \<Rightarrow> 's option) \<Rightarrow> 'a list \<Rightarrow> 's \<Rightarrow> 's option" where
  "fold_option f [] s = Some s"
| "fold_option f (x # xs) s = Option.bind (f x s) (fold_option f xs)"

lemma fold_option_cong [fundef_cong]:
  assumes "xs = ys" and "s = t" and "\<And>x s. x \<in> set ys \<Longrightarrow> f x s = g x s"
  shows "fold_option f xs s = fold_option g ys t"
proof -
  have "(\<And>x s. x \<in> set ys \<Longrightarrow> f x s = g x s) \<Longrightarrow> fold_option f ys s' = fold_option g ys s'" for s'
    by (induction ys arbitrary: s') (auto intro!: arg_cong[of _ _ "Option.bind _"])
  with assms show ?thesis by blast
qed

lemma member_size [termination_simp]:
  assumes "child \<in> set fs" and "object_fields (bf_type field) = Some fs"
  shows "size child < size field"
proof -
  from assms(1) have "size child < size_list size fs" by (induction fs) auto
  with object_fields_size[OF assms(2)] show ?thesis by (cases field) simp
qed

definition child_builder :: "bool \<Rightarrow> binding_field \<Rightarrow> bool" where
  "child_builder parent_builder field \<longleftrightarrow>
     parent_builder \<and> lean_input field \<and> lean_container_of (bf_type field) \<noteq> None"

fun shape_visit ::
  "string list \<Rightarrow> path_node \<Rightarrow> string list \<Rightarrow> bool \<Rightarrow> binding_field \<Rightarrow> shapes \<Rightarrow> shapes option" where
  "shape_visit reserved parent path parent_builder field s =
     (case object_fields (bf_type field) of
        None \<Rightarrow> Some s
      | Some fs \<Rightarrow>
          let builder = child_builder parent_builder field;
              path = path @ [bf_public_name field]
          in Option.bind (shape_child parent (bf_public_name field) s) (\<lambda>(node, s).
             Option.bind (fold_option (\<lambda>child. shape_visit reserved node path builder child) fs s) (\<lambda>s.
             Some (shape_declare reserved builder fs path node s))))"

declare shape_visit.simps [simp del]

definition shapes_collect :: "fields_list \<Rightarrow> string list \<Rightarrow> shapes option" where
  "shapes_collect fs reserved = fold_option (shape_visit reserved ROOT [] True) fs no_shapes"

text \<open>The shape of an object-typed field of the record at a node; \<open>None\<close> is the panic of \<open>expect\<close>.\<close>

definition shape_index :: "shapes \<Rightarrow> path_node \<Rightarrow> binding_field \<Rightarrow> nat option" where
  "shape_index s parent field =
     Option.bind (map_of (sh_children s) (parent, bf_public_name field)) (\<lambda>node. sh_declared s ! node)"

definition shape_name :: "shapes \<Rightarrow> path_node \<Rightarrow> binding_field \<Rightarrow> string" where
  "shape_name s parent field =
     (case shape_index s parent field of None \<Rightarrow> [] | Some index \<Rightarrow> nt_name (sh_entries s ! index))"

definition shared_note :: "nat \<Rightarrow> string" where
  "shared_note occurrences =
     (if 1 < occurrences then '' (shared by '' @ show_nat occurrences @ '' block paths with the same shape)'' else [])"

end
