(* ===== verification/Emit_Lean.thy ===== *)
theory Emit_Lean
  imports Lean_Shapes Emit_Files Project
begin

text \<open>
  The emitter of Lean bindings: the first half of \<open>crates/emit-lean/src/lib.rs\<close>. A function
  that writes to an \<open>Output\<close> is the text it writes; the set of records that carry an obligation
  about the length of their block lists is threaded through the functions that extend it.
\<close>

section \<open>Text\<close>

definition angles :: "string \<Rightarrow> string" where
  "angles s = utf8 [226, 159, 168] @ s @ utf8 [226, 159, 169]"

definition left_arrow :: string where
  "left_arrow = utf8 [226, 134, 144]"

definition right_arrow :: string where
  "right_arrow = utf8 [226, 134, 146]"

definition at_most :: string where
  "at_most = utf8 [226, 137, 164]"

definition times_mark :: string where
  "times_mark = utf8 [195, 151]"

definition guillemets :: "string \<Rightarrow> string" where
  "guillemets s = utf8 [194, 171] @ s @ utf8 [194, 187]"

definition parenthesized :: "string \<Rightarrow> string" where
  "parenthesized s = ''('' @ s @ '')''"

definition backslash :: string where
  "backslash = [CHR 0x5C]"

text \<open>A string as the body of a Lean string literal.\<close>

definition escaped_char :: "char \<Rightarrow> string" where
  "escaped_char c =
     (if c = CHR 0x5C then backslash @ backslash
      else if c = CHR 0x22 then backslash @ ''\"''
      else if c = CHR 0x0A then backslash @ ''n''
      else if c = CHR 0x0D then backslash @ ''r''
      else if c = CHR 0x09 then backslash @ ''t''
      else [c])"

definition escaped :: "string \<Rightarrow> string" where
  "escaped s = concat (map escaped_char s)"

text \<open>\<open>str::replace\<close> with a pattern that is not empty.\<close>

function replace_text :: "string \<Rightarrow> string \<Rightarrow> string \<Rightarrow> string" where
  "replace_text pat rep [] = []"
| "replace_text pat rep (c # cs) =
     (if starts_with pat (c # cs) then rep @ replace_text pat rep (drop (length pat - 1) cs)
      else c # replace_text pat rep cs)"
  by pat_completeness auto
termination
  by (relation "measure (\<lambda>(pat, rep, s). length s)") auto

definition escape_doc :: "string \<Rightarrow> string" where
  "escape_doc s = replace_text ''/-'' ''/ -'' (replace_text ''-/'' ''- /'' s)"

definition escape_toml :: "string \<Rightarrow> string" where
  "escape_toml s = replace_with (CHR 0x22) (backslash @ ''\"'') (replace_with (CHR 0x5C) (backslash @ backslash) s)"

section \<open>Documentation\<close>

definition first_line :: "string \<Rightarrow> string" where
  "first_line description =
     escape_doc (trim_end (case text_lines description of [] \<Rightarrow> [] | l # _ \<Rightarrow> l))"

definition write_doc_comment :: "string \<Rightarrow> string \<Rightarrow> string" where
  "write_doc_comment doc indent =
     (let doc = trim doc; lines = map trim_end (text_lines doc)
      in if doc = [] then []
         else indent @ ''/-- '' @ (case lines of [] \<Rightarrow> [] | l # _ \<Rightarrow> l) @
           concat (map (\<lambda>l. nl @ indent @ l) (tl lines)) @ '' -/'' @ nl)"

definition trimmed_description :: "binding_field \<Rightarrow> string" where
  "trimmed_description field = (case bf_description field of None \<Rightarrow> [] | Some d \<Rightarrow> trim d)"

definition has_description :: "binding_field \<Rightarrow> bool" where
  "has_description field \<longleftrightarrow> trimmed_description field \<noteq> []"

text \<open>The description of a field, and the first line of those of its direct nested fields.\<close>

definition write_field_documentation :: "binding_field \<Rightarrow> string \<Rightarrow> string" where
  "write_field_documentation field indent =
     (let children = (case object_fields (bf_type field) of None \<Rightarrow> [] | Some fs \<Rightarrow> fs);
          own = escape_doc (trimmed_description field)
      in if \<not> has_description field \<and> \<not> list_ex has_description children then []
         else write_doc_comment
           (own @
            (if list_ex has_description children
             then (if own \<noteq> [] then nl else []) @
               concat (map (\<lambda>child. nl @ ''- `'' @ bf_public_name child @ ''`: '' @ first_line (trimmed_description child))
                 (filter has_description children))
             else []))
           indent)"

section \<open>Types\<close>

definition compound :: "binding_type \<Rightarrow> bool" where
  "compound t \<longleftrightarrow>
     (case t of BindList _ \<Rightarrow> True | BindSet _ \<Rightarrow> True | BindMap _ \<Rightarrow> True | BindObject _ \<Rightarrow> True | _ \<Rightarrow> False)"

text \<open>\<open>field\<close>, of the record at \<open>parent\<close>, names the object shape, whatever collections it sits in.\<close>

fun render_lean_type :: "shapes \<Rightarrow> path_node \<Rightarrow> binding_field \<Rightarrow> binding_type \<Rightarrow> string" where
  "render_lean_type s parent field BindString = ''String''"
| "render_lean_type s parent field BindBool = ''Bool''"
| "render_lean_type s parent field BindNumber = ''Number''"
| "render_lean_type s parent field (BindList item) =
     (let text = render_lean_type s parent field item in ''List '' @ (if compound item then parenthesized text else text))"
| "render_lean_type s parent field (BindSet item) =
     (let text = render_lean_type s parent field item in ''List '' @ (if compound item then parenthesized text else text))"
| "render_lean_type s parent field (BindMap item) =
     (let text = render_lean_type s parent field item in ''Map '' @ (if compound item then parenthesized text else text))"
| "render_lean_type s parent field (BindTuple _) = ''Value''"
| "render_lean_type s parent field BindDynamic = ''Value''"
| "render_lean_type s parent field (BindObject _) = shape_name s parent field @ ''Attributes Input Resolved''"

definition render_lean_type_argument :: "shapes \<Rightarrow> path_node \<Rightarrow> binding_field \<Rightarrow> binding_type \<Rightarrow> string" where
  "render_lean_type_argument s parent field t =
     (let text = render_lean_type s parent field t in if compound t then parenthesized text else text)"

fun render_hkd_type :: "shapes \<Rightarrow> path_node \<Rightarrow> binding_field \<Rightarrow> binding_type \<Rightarrow> string" where
  "render_hkd_type s parent field BindString = ''String''"
| "render_hkd_type s parent field BindBool = ''Bool''"
| "render_hkd_type s parent field BindNumber = ''Number''"
| "render_hkd_type s parent field (BindList item) =
     (let text = render_hkd_type s parent field item in ''List '' @ (if compound item then parenthesized text else text))"
| "render_hkd_type s parent field (BindSet item) =
     (let text = render_hkd_type s parent field item in ''List '' @ (if compound item then parenthesized text else text))"
| "render_hkd_type s parent field (BindMap item) =
     (let text = render_hkd_type s parent field item in ''Map '' @ (if compound item then parenthesized text else text))"
| "render_hkd_type s parent field (BindTuple _) = ''Value''"
| "render_hkd_type s parent field BindDynamic = ''Value''"
| "render_hkd_type s parent field (BindObject _) = shape_name s parent field @ ''Attributes f o''"

definition render_hkd_type_argument :: "shapes \<Rightarrow> path_node \<Rightarrow> binding_field \<Rightarrow> binding_type \<Rightarrow> string" where
  "render_hkd_type_argument s parent field t =
     (let text = render_hkd_type s parent field t in if compound t then parenthesized text else text)"

section \<open>Attributes\<close>

text \<open>Items of a list after the first start a new line with \<open>sep\<close>.\<close>

definition listed :: "string \<Rightarrow> (binding_field \<Rightarrow> string) \<Rightarrow> fields_list \<Rightarrow> string" where
  "listed sep f fs = (if fs = [] then [] else '' '' @ join (nl @ sep) (map f fs))"

definition always_present :: "binding_field \<Rightarrow> bool" where
  "always_present field \<longleftrightarrow> bf_required field"

definition record_of :: "fields_list \<Rightarrow> (binding_field \<Rightarrow> string) \<Rightarrow> string" where
  "record_of fs f = (if fs = [] then ''{}'' @ nl @ nl else ''{'' @ listed ''    '' f fs @ '' }'' @ nl @ nl)"

definition render_symbolic_fields :: "string \<Rightarrow> fields_list \<Rightarrow> string list \<Rightarrow> string" where
  "render_symbolic_fields name fs reserved =
     ''/-- The typed attributes of a symbolic `'' @ name @ ''` value, behind `Input.fields`: '' @
     ''`value.fields.<attribute>` for an element of a computed list, and the projection '' @
     ''`Input.splat` maps over every element. -/'' @ nl @
     ''def '' @ name @ ''.ofInput ('' @ (if fs = [] then ''_value'' else ''value'') @ '' : Input ('' @ name @
     '' Input Resolved)) : '' @ name @ '' Input Resolved :='' @ nl @ ''  '' @
     record_of fs (\<lambda>field. lean_field_name field reserved @ '' := value.schemaField \"'' @
       escaped (bf_provider_name field) @ ''\"'') @
     ''instance : Inframe.SymbolicFields ('' @ name @ '' Input Resolved) := '' @ angles (name @ ''.ofInput'') @ nl @ nl"

definition render_attribute_fields :: "path_node \<Rightarrow> fields_list \<Rightarrow> string list \<Rightarrow> shapes \<Rightarrow> string" where
  "render_attribute_fields parent fs reserved s =
     concat (map (\<lambda>field.
         let text = render_hkd_type_argument s parent field (bf_type field)
         in write_field_documentation field ''  '' @ ''  '' @ lean_field_name field reserved @ '' : f '' @
            (if always_present field then text else ''(o '' @ text @ '')'') @ nl)
       fs)"

definition render_attributes ::
  "string \<Rightarrow> string \<Rightarrow> path_node \<Rightarrow> fields_list \<Rightarrow> string list \<Rightarrow> string \<Rightarrow> shapes \<Rightarrow> string" where
  "render_attributes name names_name parent fs reserved doc s =
     write_doc_comment doc [] @
     ''structure '' @ name @ '' (f o : Type '' @ right_arrow @ '' Type) where'' @ nl @
     render_attribute_fields parent fs reserved s @
     nl @ ''def '' @ name @ ''.ofValue [Marshal f o] ('' @ (if fs = [] then ''_value'' else ''value'') @
     '' : Value) : Except String ('' @ name @ '' f o) := do'' @ nl @ ''  pure'' @
     (if fs = [] then '' {}'' @ nl @ nl
      else nl @ ''    {'' @
        listed ''      '' (\<lambda>field. lean_field_name field reserved @ '' := ('' @ left_arrow @ '' Marshal.'' @
          (if always_present field then ''required'' else ''optional'') @ '' (f := f) (o := o) value \"'' @
          escaped (bf_provider_name field) @ ''\")'') fs @
        '' }'' @ nl @ nl) @
     ''instance [Marshal f o] : FromValue ('' @ name @ '' f o) := '' @ angles (name @ ''.ofValue'') @ nl @ nl @
     ''instance : ToValue ('' @ name @ '' Resolved Option) :='' @ nl @ ''  '' @
     angles (''fun '' @ (if fs = [] then ''_'' else ''attributes'') @ '' => .object'' @ nl @ ''    ['' @
       listed ''    , '' (\<lambda>field. ''(\"'' @ escaped (bf_provider_name field) @ ''\", toValue attributes.'' @
         lean_field_name field reserved @ '')'') fs @ '' ]'') @ nl @ nl @
     ''/-- The provider-side name of every attribute, as a record shaped like the attributes '' @
     ''themselves, so policies and `ignoreChanges` never spell provider names as raw strings. '' @
     ''`@[simp]` so that proofs by `simp` see the strings behind the record. -/'' @ nl @
     ''@[simp] def '' @ names_name @ '' : '' @ name @ '' (fun _ => String) (fun _ => String) :='' @ nl @ ''  '' @
     record_of fs (\<lambda>field. lean_field_name field reserved @ '' := \"'' @ escaped (bf_provider_name field) @ ''\"'') @
     render_symbolic_fields name fs reserved"

section \<open>Arguments\<close>

definition show_u64 :: "u64 \<Rightarrow> string" where
  "show_u64 n = show_nat (unat n)"

text \<open>A description of what a field contributes to \<open>blocksInRange\<close>, with the check.\<close>

definition block_constraints ::
  "binding_field \<Rightarrow> path_node \<Rightarrow> shapes \<Rightarrow> string list \<Rightarrow> (string \<times> string) list" where
  "block_constraints field parent s ranged =
     (case lean_container_of (bf_type field) of
        None \<Rightarrow> []
      | Some container \<Rightarrow>
          let name = lean_field_name field ARGS_RESERVED;
              nested = shape_name s parent field @ ''Args'';
              shown = ''`'' @ bf_provider_name field @ ''`'';
              bounds =
                (case (container, multiplicity_of field) of
                   (LeanArray, Many low high) \<Rightarrow>
                     (case low of None \<Rightarrow> []
                      | Some n \<Rightarrow> [(shown @ '' at least '' @ show_u64 n,
                          show_u64 n @ '' '' @ at_most @ '' a.'' @ name @ ''.length'')]) @
                     (case high of None \<Rightarrow> []
                      | Some n \<Rightarrow> [(shown @ '' at most '' @ show_u64 n,
                          ''a.'' @ name @ ''.length '' @ at_most @ '' '' @ show_u64 n)])
                 | _ \<Rightarrow> []);
              check =
                (case (container, bf_required field, multiplicity_of field) of
                   (LeanSingle, True, _) \<Rightarrow> nested @ ''.blocksInRange a.'' @ name
                 | (LeanArray, _, One) \<Rightarrow> nested @ ''.blocksInRange a.'' @ name
                 | (LeanArray, False, Many _ _) \<Rightarrow>
                     if nullable_list field
                     then ''a.'' @ name @ ''.all fun items => items.all '' @ nested @ ''.blocksInRange''
                     else ''a.'' @ name @ ''.all '' @ nested @ ''.blocksInRange''
                 | (LeanSingle, False, _) \<Rightarrow> ''a.'' @ name @ ''.all '' @ nested @ ''.blocksInRange''
                 | (LeanArray, _, _) \<Rightarrow> ''a.'' @ name @ ''.all '' @ nested @ ''.blocksInRange''
                 | (LeanMap, False, _) \<Rightarrow>
                     if nullable_list field
                     then ''a.'' @ name @ ''.all fun entries => entries.all fun (_, block) => '' @ nested @
                       ''.blocksInRange block''
                     else ''a.'' @ name @ ''.all fun (_, block) => '' @ nested @ ''.blocksInRange block''
                 | (LeanMap, _, _) \<Rightarrow> ''a.'' @ name @ ''.all fun (_, block) => '' @ nested @ ''.blocksInRange block'')
          in bounds @ (if List.member ranged nested then [(shown @ '' entries in range'', check)] else []))"

definition render_args_field_type :: "binding_field \<Rightarrow> path_node \<Rightarrow> shapes \<Rightarrow> string" where
  "render_args_field_type field parent s =
     (case lean_container_of (bf_type field) of
        None \<Rightarrow>
          (let text = render_lean_type_argument s parent field (bf_type field)
           in if bf_required field then ''Input '' @ text else ''Option (Input '' @ text @ '') := none'')
      | Some container \<Rightarrow>
          let args = shape_name s parent field @ ''Args'';
              keyed = ''List (String '' @ times_mark @ '' '' @ args @ '')''
          in (case container of
                LeanSingle \<Rightarrow> if bf_required field then args else ''Option '' @ args @ '' := none''
              | LeanArray \<Rightarrow>
                  (case multiplicity_of field of
                     One \<Rightarrow> args
                   | AtMostOne \<Rightarrow> ''Option '' @ args @ '' := none''
                   | Many _ _ \<Rightarrow>
                       if bf_required field then ''List '' @ args
                       else if nullable_list field then ''Option (List '' @ args @ '') := none''
                       else ''List '' @ args @ '' := []'')
              | LeanMap \<Rightarrow>
                  if bf_required field then keyed
                  else if nullable_list field then ''Option ('' @ keyed @ '') := none''
                  else keyed @ '' := []''))"

text \<open>The entry a field contributes to the input object.\<close>

definition render_args_field_entry :: "binding_field \<Rightarrow> path_node \<Rightarrow> shapes \<Rightarrow> string" where
  "render_args_field_entry field parent s =
     (let key = ''(\"'' @ escaped (bf_provider_name field) @ ''\", '';
          name = ''a.'' @ lean_field_name field ARGS_RESERVED
      in case lean_container_of (bf_type field) of
           None \<Rightarrow>
             if bf_required field then ''some '' @ key @ ''inputNode '' @ name @ '')''
             else name @ ''.map fun value => '' @ key @ ''inputNode value)''
         | Some container \<Rightarrow>
             let args = shape_name s parent field @ ''Args'';
                 array = ''ExprNode.array ('' @ name @ ''.map '' @ args @ ''.toExprNode)'';
                 keyed = ''ExprNode.object ('' @ name @ ''.map fun (key, block) => (key, '' @ args @ ''.toExprNode block))''
             in (case container of
                   LeanSingle \<Rightarrow>
                     if bf_required field then ''some '' @ key @ name @ ''.toExprNode)''
                     else name @ ''.map fun block => '' @ key @ ''block.toExprNode)''
                 | LeanArray \<Rightarrow>
                     (case multiplicity_of field of
                        One \<Rightarrow> ''some '' @ key @ ''ExprNode.array ['' @ name @ ''.toExprNode])''
                      | AtMostOne \<Rightarrow> name @ ''.map fun block => '' @ key @ ''ExprNode.array [block.toExprNode])''
                      | Many _ _ \<Rightarrow>
                          if bf_required field then ''some '' @ key @ array @ '')''
                          else if nullable_list field
                          then name @ ''.map fun items => '' @ key @ ''ExprNode.array (items.map '' @ args @ ''.toExprNode))''
                          else ''if '' @ name @ ''.isEmpty then none else some '' @ key @ array @ '')'')
                 | LeanMap \<Rightarrow>
                     if bf_required field then ''some '' @ key @ keyed @ '')''
                     else if nullable_list field
                     then name @ ''.map fun entries => '' @ key @
                       ''ExprNode.object (entries.map fun (key, block) => (key, '' @ args @ ''.toExprNode block)))''
                     else ''if '' @ name @ ''.isEmpty then none else some '' @ key @ keyed @ '')''))"

text \<open>The text of an argument record, and the records with an obligation after it.\<close>

definition render_args_structure ::
  "string \<Rightarrow> path_node \<Rightarrow> fields_list \<Rightarrow> string \<Rightarrow> shapes \<Rightarrow> string list \<Rightarrow> string \<times> string list" where
  "render_args_structure name parent fs doc s ranged =
     (let inputs = filter lean_input fs;
          constraints = concat (map (\<lambda>field. block_constraints field parent s ranged) inputs);
          text =
            write_doc_comment doc [] @ ''structure '' @ name @ '' where'' @ nl @
            concat (map (\<lambda>field. write_field_documentation field ''  '' @ ''  '' @
              lean_field_name field ARGS_RESERVED @ '' : '' @ render_args_field_type field parent s @ nl) inputs) @
            nl @ ''def '' @ name @ ''.toInputObject ('' @ (if inputs \<noteq> [] then ''a'' else ''_a'') @ '' : '' @ name @
            '') : InputObject :='' @ nl @ ''  '' @
            angles (''List.filterMap (fun entry => entry) (['' @
              listed ''    , '' (\<lambda>field. render_args_field_entry field parent s) inputs @
              (if inputs \<noteq> [] then '' '' else []) @
              ''] : List (Option (String '' @ times_mark @ '' ExprNode)))'') @ nl @ nl @
            ''def '' @ name @ ''.toExprNode (a : '' @ name @ '') : ExprNode :='' @ nl @
            ''  a.toInputObject.toExprNode'' @ nl @ nl;
          obligation =
            ''/-- Whether the nested blocks hold as many entries as the provider schema allows: '' @
            join '', '' (map fst constraints) @ ''. Builders taking this record require it; a record whose '' @
            ''block lists have literal length discharges it automatically. -/'' @ nl @
            ''def '' @ name @ ''.blocksInRange (a : '' @ name @ '') : Bool :='' @ nl @ ''  '' @
            join '' && '' (map snd constraints) @ nl @ nl
      in if constraints = [] then (text, ranged) else (text @ obligation, List.insert name ranged))"

definition render_shape :: "shapes \<Rightarrow> lean_nested_type \<Rightarrow> string list \<Rightarrow> string \<times> string list" where
  "render_shape s nested ranged =
     (let path = ''the `'' @ join ''.'' (nt_path nested) @ ''` block'' @ shared_note (nt_occurrences nested);
          attributes =
            render_attributes (nt_name nested @ ''Attributes'') (nt_name nested @ ''Attributes.names'') (nt_node nested)
              (nt_fields nested) [] (''The attributes of '' @ path @ '', held in `f`.'') s
      in if nt_builder nested
         then
           let (args, ranged) =
             render_args_structure (nt_name nested @ ''Args'') (nt_node nested) (nt_fields nested)
               (''Arguments for '' @ path @ ''.'') s ranged
           in (attributes @ args, ranged)
         else (attributes, ranged))"

definition render_shapes :: "shapes \<Rightarrow> string list \<Rightarrow> string \<times> string list" where
  "render_shapes s ranged =
     fold (\<lambda>nested (out, ranged). let (text, ranged) = render_shape s nested ranged in (out @ text, ranged))
       (sh_entries s) ([], ranged)"

text \<open>The shapes of a module, then its argument record.\<close>

definition render_records :: "fields_list \<Rightarrow> string \<Rightarrow> shapes \<Rightarrow> string \<times> string list" where
  "render_records fs doc s =
     (let (shapes_text, ranged) = render_shapes s [];
          (args, ranged) = render_args_structure ''Args'' ROOT fs doc s ranged
      in (shapes_text @ args, ranged))"

section \<open>Modules\<close>

definition header_comment :: "binding_provider \<Rightarrow> string" where
  "header_comment provider =
     ''-- Generated by inframe from `'' @ bp_source provider @ ''` '' @ bp_version provider @
     ''. Do not edit by hand.'' @ nl"

definition lean_provider_marker :: "string \<Rightarrow> string" where
  "lean_provider_marker module_root = rsplit_last (CHR ''.'') module_root @ ''Provider''"

definition lean_local_name :: "string \<Rightarrow> string" where
  "lean_local_name source = rsplit_last (CHR ''/'') source"

record block_obligation =
  ob_forwarded :: string
  ob_consumed :: string
  ob_discharge :: string

definition block_obligation_of :: "string list \<Rightarrow> block_obligation" where
  "block_obligation_of ranged =
     (if List.member ranged ''Args''
      then \<lparr>ob_forwarded = nl @ ''    (blocks : a.blocksInRange = true := by blocks_in_range)'',
             ob_consumed = nl @ ''    (_blocks : a.blocksInRange = true := by blocks_in_range)'',
             ob_discharge = '' blocks''\<rparr>
      else \<lparr>ob_forwarded = [], ob_consumed = [], ob_discharge = []\<rparr>)"

text \<open>\<open>None\<close> is the panic of a module with $2^{32}$ paths.\<close>

definition lean_render_provider :: "binding_package \<Rightarrow> string \<Rightarrow> string option" where
  "lean_render_provider package module_root =
     (let provider = bk_provider package;
          fs = bp_fields provider;
          marker = lean_provider_marker module_root
      in map_option (\<lambda>s.
           let (records, ranged) = render_records fs (''Arguments for the `'' @ bp_source provider @ ''` provider.'') s;
               consumed = ob_consumed (block_obligation_of ranged);
               local_name = lean_local_name (bp_source provider);
               version = ''= '' @ bp_version provider
           in header_comment provider @
              ''import Inframe'' @ nl @ nl @ ''namespace '' @ module_root @ ''.Provider'' @ nl @ nl @
              ''open Inframe'' @ nl @ nl @
              ''/-- Phantom type tagging handles to configured `'' @ bp_source provider @ ''` providers. -/'' @ nl @
              ''inductive '' @ marker @ nl @ nl @ records @
              ''/-- Configure the default `'' @ local_name @ ''` provider. -/'' @ nl @
              ''def configure (a : Args)'' @ consumed @ '' : Infra (Inframe.Provider '' @ marker @ '') :='' @ nl @
              ''  addProvider (Identifier.mk \"'' @ local_name @ ''\") \"'' @ escaped (bp_source provider) @ ''\" \"'' @
              version @ ''\" none a.toInputObject'' @ nl @ nl @
              ''/-- Configure an aliased `'' @ local_name @
              ''` provider. The alias is validated at compile time. -/'' @ nl @
              ''def configureAs (alias : String) (a : Args) '' @
              ''(valid : validIdentifier alias = true := by valid_identifier)'' @ consumed @ '' :'' @ nl @
              ''    Infra (Inframe.Provider '' @ marker @ '') :='' @ nl @
              ''  addProvider (Identifier.mk \"'' @ local_name @ ''\") \"'' @ escaped (bp_source provider) @ ''\" \"'' @
              version @ ''\" (some '' @ angles ''alias, valid'' @ '') a.toInputObject'' @ nl @ nl @
              ''end '' @ module_root @ ''.Provider'' @ nl)
         (shapes_collect fs [marker]))"

definition lean_node_name :: "binding_item \<Rightarrow> bool \<Rightarrow> string" where
  "lean_node_name item data_source = bi_public_name item @ (if data_source then ''DataSource'' else ''Resource'')"

definition lean_handle_name :: "binding_item \<Rightarrow> bool \<Rightarrow> string" where
  "lean_handle_name item data_source = safe_handle_name (bi_public_name item) (lean_node_name item data_source)"

definition handle_reserved :: "bool \<Rightarrow> string list" where
  "handle_reserved data_source = (if data_source then [''dataSource''] else [''resource''])"

text \<open>The attributes of an item and the types that are instances of them.\<close>

definition render_item_types :: "binding_item \<Rightarrow> bool \<Rightarrow> shapes \<Rightarrow> string" where
  "render_item_types item data_source s =
     (let handle_name = lean_handle_name item data_source;
          node = lean_node_name item data_source;
          shown = ''`'' @ bi_provider_type item @ ''`'';
          dependable = \<lambda>key. ''instance : Inframe.Dependable '' @ handle_name @ '' := '' @
            angles (''fun handle => handle.'' @ key @ ''.address'') @ nl
      in render_attributes ''Attributes'' ''names'' ROOT (bi_fields item) (handle_reserved data_source)
           (''The attributes of '' @ shown @
            '', held in `f`, with non-required attributes wrapped in `o`: '' @
            ''`Attributes Input Resolved` is the symbolic handle, `Attributes Resolved Option` '' @
            ''the resolved state, `Attributes Option Resolved` a fully optional view.'') s @
         ''/-- A symbolic handle to '' @ shown @
         ''. Every attribute is a symbolic input resolved by OpenTofu. -/'' @ nl @
         ''structure '' @ handle_name @ '' extends Attributes Input Resolved where'' @ nl @
         (if data_source then ''  dataSource : DataSource '' else ''  resource : Resource '') @ node @ nl @ nl @
         ''/-- The resolved attributes of '' @ shown @ '', decoded from `tofu show -json` with'' @ nl @
         ''`ShowDocument.decode?`: required attributes are plain values, the rest `Option`. -/'' @ nl @
         ''abbrev State := Attributes Resolved Option'' @ nl @ nl @
         ''/-- Every attribute optional. -/'' @ nl @ ''abbrev Partial := Attributes Option Resolved'' @ nl @ nl @
         (if data_source then dependable ''dataSource'' @ nl
          else dependable ''resource'' @
            ''instance : Inframe.Managed '' @ handle_name @ '' := '' @
            angles ''fun handle => handle.resource.address'' @ nl @ nl))"

definition render_item_operations ::
  "binding_item \<Rightarrow> string \<Rightarrow> string \<Rightarrow> binding_provider \<Rightarrow> bool \<Rightarrow> string list \<Rightarrow> string" where
  "render_item_operations item module module_root provider data_source ranged =
     (let (operation, operation_with, options_type, default_options, add, attr, handle_key) =
            (if data_source
             then (''read'', ''readWith'', ''DataSourceOptions'', ''dataSourceOptions'', ''addDataSource'',
               ''dataSourceAttr'', ''dataSource'')
             else (''create'', ''createWith'', ''ResourceOptions'', ''resourceOptions'', ''addResource'',
               ''resourceAttr'', ''resource''));
          handle_name = lean_handle_name item data_source;
          obligation = block_obligation_of ranged
      in ''/-- Add `'' @ bi_provider_type item @
         ''.<name>` to the graph with explicit options. The logical name is validated at'' @ nl @
         ''compile time. -/'' @ nl @
         ''def '' @ operation_with @ '' (name : String) (a : Args) (options : '' @ options_type @ '' '' @ module_root @
         ''.Provider.'' @ lean_provider_marker module_root @ '')'' @ nl @
         ''    (valid : validIdentifier name = true := by valid_identifier)'' @ ob_consumed obligation @
         '' : Infra '' @ handle_name @ '' := do'' @ nl @
         ''  requireProvider (Identifier.mk \"'' @ lean_local_name (bp_source provider) @ ''\") \"'' @
         escaped (bp_source provider) @ ''\" \"= '' @ escaped (bp_version provider) @ ''\"'' @ nl @
         ''  let handle '' @ left_arrow @ '' '' @ add @ '' options (Identifier.mk \"'' @ bi_provider_type item @ ''\") '' @
         angles ''name, valid'' @ '' a.toInputObject'' @ nl @
         ''  pure'' @ nl @ ''    { '' @ handle_key @ '' := handle'' @
         concat (map (\<lambda>field. nl @ ''      '' @ lean_field_name field (handle_reserved data_source) @ '' := '' @ attr @
           '' handle [\"'' @ escaped (bf_provider_name field) @ ''\"]'') (bi_fields item)) @
         '' }'' @ nl @ nl @
         ''/-- Add `'' @ bi_provider_type item @ ''.<name>` to the graph with default options. -/'' @ nl @
         ''def '' @ operation @
         '' (name : String) (a : Args) (valid : validIdentifier name = true := by valid_identifier)'' @
         ob_forwarded obligation @ '' :'' @ nl @ ''    Infra '' @ handle_name @ '' :='' @ nl @
         ''  '' @ operation_with @ '' name a '' @ default_options @ '' valid'' @ ob_discharge obligation @ nl @ nl @
         ''end '' @ module @ nl)"

definition lean_render_item ::
  "binding_item \<Rightarrow> string \<Rightarrow> string \<Rightarrow> binding_provider \<Rightarrow> bool \<Rightarrow> string option" where
  "lean_render_item item module module_root provider data_source =
     (let node = lean_node_name item data_source
      in map_option (\<lambda>s.
           let (records, ranged) = render_records (bi_fields item) (''Arguments for `'' @ bi_provider_type item @ ''`.'') s
           in header_comment provider @
              ''import Inframe'' @ nl @ ''import '' @ module_root @ ''.Provider'' @ nl @ nl @
              ''namespace '' @ module @ nl @ nl @ ''open Inframe'' @ nl @ nl @
              ''/-- Phantom type tagging handles to `'' @ bi_provider_type item @ ''` '' @
              (if data_source then ''data source'' else ''resource'') @ ''s. -/'' @ nl @ ''inductive '' @ node @ nl @ nl @
              records @ render_item_types item data_source s @
              render_item_operations item module module_root provider data_source ranged)
         (shapes_collect (bi_fields item) [lean_handle_name item data_source, node]))"

section \<open>Packages\<close>

definition numeric_part :: "string \<Rightarrow> bool" where
  "numeric_part part \<longleftrightarrow> part \<noteq> [] \<and> list_all is_ascii_digit part"

definition lake_version :: "string \<Rightarrow> string" where
  "lake_version version =
     (case split_on (CHR ''.'') version of
        [a, b, c] \<Rightarrow>
          if numeric_part a \<and> numeric_part b \<and> numeric_part c then version else ''0.0.0''
      | _ \<Rightarrow> ''0.0.0'')"

definition lean_valid_module_root :: "string \<Rightarrow> bool" where
  "lean_valid_module_root value \<longleftrightarrow>
     value \<noteq> [] \<and>
     list_all (\<lambda>segment.
         (case segment of [] \<Rightarrow> False | first # _ \<Rightarrow> is_ascii_uppercase first) \<and>
         list_all is_ascii_alphanumeric segment)
       (split_on (CHR ''.'') value)"

definition lean_module_path :: "string \<Rightarrow> string" where
  "lean_module_path module = replace_char (CHR ''.'') (CHR ''/'') module @ ''.lean''"

definition generated_name :: "binding_provider \<Rightarrow> string" where
  "generated_name provider = ''generated-'' @ map to_ascii_lowercase (bp_public_name provider)"

definition render_manifest :: "(json \<Rightarrow> string) \<Rightarrow> binding_provider \<Rightarrow> string \<Rightarrow> string" where
  "render_manifest pretty provider path =
     pretty (JObject
       [(''version'', JString ''1.2.0''), (''packagesDir'', JString ''.lake/packages''),
        (''packages'', JArray [JObject
          [(''type'', JString ''path''), (''scope'', JString []), (''name'', JString ''inframe''),
           (''manifestFile'', JString ''lake-manifest.json''), (''inherited'', JBool False), (''dir'', JString path),
           (''configFile'', JString ''lakefile.toml'')]]),
        (''name'', JString (guillemets (generated_name provider))), (''lakeDir'', JString ''.lake''),
        (''fixedToolchain'', JBool False)]) @ nl"

definition render_lakefile :: "binding_package \<Rightarrow> string \<Rightarrow> core_dependency \<Rightarrow> string" where
  "render_lakefile package module_root core =
     (let key = \<lambda>name value. name @ '' = \"'' @ value @ ''\"'' @ nl
      in key ''name'' (generated_name (bk_provider package)) @
         key ''version'' (lake_version (bp_version (bk_provider package))) @
         ''defaultTargets = [\"'' @ module_root @ ''\"]'' @ nl @ nl @
         ''[[require]]'' @ nl @ key ''name'' ''inframe'' @
         (case core of
            CorePath path \<Rightarrow> key ''path'' (escape_toml path)
          | CoreGit url revision sub_dir \<Rightarrow>
              key ''git'' (escape_toml url) @ key ''rev'' (escape_toml revision) @
              (case sub_dir of None \<Rightarrow> [] | Some dir \<Rightarrow> key ''subDir'' (escape_toml dir))) @
         nl @ ''[[lean_lib]]'' @ nl @ key ''name'' module_root @ ''globs = [\"'' @ module_root @ ''.*\"]'' @ nl)"

definition lean_manifest :: "binding_provider \<Rightarrow> string \<Rightarrow> json" where
  "lean_manifest provider digest =
     JObject
       [(''provider_source'', JString (bp_source provider)), (''provider_version'', JString (bp_version provider)),
        (''schema_sha256'', JString digest), (''generator_version'', JString ''0.1.0''),
        (''binding_model_version'', JString ''1.0''), (''graph_ir_version'', JString ''1.0''),
        (''lean_toolchain'', JString LEAN_TOOLCHAIN)]"

text \<open>A job renders nothing when rendering panics.\<close>

definition lean_text_job :: "string \<Rightarrow> string \<Rightarrow> string option file_job" where
  "lean_text_job path contents = \<lparr>job_path = path, job_weight = 0, job_render = Some contents\<rparr>"

definition lean_item_module :: "string \<Rightarrow> bool \<Rightarrow> binding_item \<Rightarrow> string" where
  "lean_item_module module_root data_source item =
     module_root @ (if data_source then ''.Data.'' else ''.Resource.'') @ bi_public_name item"

definition lean_item_job :: "binding_package \<Rightarrow> string \<Rightarrow> bool \<Rightarrow> binding_item \<Rightarrow> string option file_job" where
  "lean_item_job package module_root data_source item =
     (let module = lean_item_module module_root data_source item
      in \<lparr>job_path = lean_module_path module, job_weight = path_count (bi_fields item),
          job_render = lean_render_item item module module_root (bk_provider package) data_source\<rparr>)"

datatype lean_emit_error = InvalidLeanModuleRoot string

definition lean_package_files ::
  "(json \<Rightarrow> string) \<Rightarrow> binding_package \<Rightarrow> string \<Rightarrow> string \<Rightarrow> core_dependency \<Rightarrow>
     (lean_emit_error, string option file_job list) result" where
  "lean_package_files pretty package module_root digest core =
     (if \<not> lean_valid_module_root module_root then Inl (InvalidLeanModuleRoot module_root)
      else
        let provider = bk_provider package;
            modules = (module_root @ ''.Provider'') #
              map (lean_item_module module_root False) (bk_resources package) @
              map (lean_item_module module_root True) (bk_data_sources package)
        in Inr (
          [\<lparr>job_path = lean_module_path (module_root @ ''.Provider''), job_weight = path_count (bp_fields provider),
            job_render = lean_render_provider package module_root\<rparr>] @
          map (lean_item_job package module_root False) (bk_resources package) @
          map (lean_item_job package module_root True) (bk_data_sources package) @
          [lean_text_job (lean_module_path module_root)
             (header_comment provider @ concat (map (\<lambda>module. ''import '' @ module @ nl) modules)),
           lean_text_job ''provider-manifest.json'' (pretty (lean_manifest provider digest) @ nl),
           lean_text_job ''README.md''
             (''# '' @ module_root @ nl @ nl @ ''Generated Lean 4 bindings for `'' @ bp_source provider @ ''` `'' @
              bp_version provider @ ''`. Do not edit by hand.'' @ nl),
           lean_text_job ''lean-toolchain'' (LEAN_TOOLCHAIN @ nl),
           lean_text_job ''lakefile.toml'' (render_lakefile package module_root core)] @
          (case core of
             CorePath path \<Rightarrow> [lean_text_job ''lake-manifest.json'' (render_manifest pretty provider path)]
           | CoreGit _ _ _ \<Rightarrow> [])))"

end
