(* ===== verification/Lean_Shapes_Correct.thy ===== *)
theory Lean_Shapes_Correct
  imports Lean_Shapes
begin

text \<open>
  What collecting the shapes of a module guarantees: every object type below the item has a
  shape, every shape is declared once, and after the shapes its own fields refer to.
\<close>

section \<open>Well-formed collections\<close>

text \<open>An entry without its count, which is all that changes once an entry is there.\<close>

definition nt_core :: "lean_nested_type \<Rightarrow> lean_nested_type" where
  "nt_core e = e\<lparr>nt_occurrences := 0\<rparr>"

lemma nt_core_eq [simp]:
  "nt_core e = nt_core e' \<longleftrightarrow>
     nt_path e = nt_path e' \<and> nt_node e = nt_node e' \<and> nt_name e = nt_name e' \<and> nt_fields e = nt_fields e' \<and>
     nt_builder e = nt_builder e'"
  by (cases e; cases e') (simp add: nt_core_def)

definition wf_shapes :: "shapes \<Rightarrow> bool" where
  "wf_shapes s \<longleftrightarrow>
     (\<forall>k n. map_of (sh_children s) k = Some n \<longrightarrow> fst k < length (sh_declared s) \<and> n < length (sh_declared s)) \<and>
     (\<forall>n i. n < length (sh_declared s) \<longrightarrow> sh_declared s ! n = Some i \<longrightarrow> i < length (sh_entries s)) \<and>
     (\<forall>b fs i. map_of (sh_by_fields s) (b, fs) = Some i \<longleftrightarrow>
        i < length (sh_entries s) \<and> nt_builder (sh_entries s ! i) = b \<and> nt_fields (sh_entries s ! i) = fs)"

definition grows :: "shapes \<Rightarrow> shapes \<Rightarrow> bool" where
  "grows s t \<longleftrightarrow>
     length (sh_declared s) \<le> length (sh_declared t) \<and> length (sh_entries s) \<le> length (sh_entries t) \<and>
     (\<forall>i < length (sh_entries s). nt_core (sh_entries t ! i) = nt_core (sh_entries s ! i)) \<and>
     (\<forall>k n. map_of (sh_children s) k = Some n \<longrightarrow> map_of (sh_children t) k = Some n) \<and>
     (\<forall>n < length (sh_declared s). sh_declared s ! n \<noteq> None \<longrightarrow> sh_declared t ! n \<noteq> None)"

lemma grows_refl [simp]: "grows s s"
  by (simp add: grows_def)

lemma grows_trans: "grows s t \<Longrightarrow> grows t u \<Longrightarrow> grows s u"
  unfolding grows_def by (auto dest: order_trans)

lemma wf_no_shapes: "wf_shapes no_shapes"
  by (auto simp: wf_shapes_def no_shapes_def less_Suc_eq_0_disj)

lemma child_step:
  assumes "shape_child parent segment s = Some (node, t)" and "wf_shapes s" and "parent < length (sh_declared s)"
  shows "wf_shapes t" "grows s t" "node < length (sh_declared t)" "sh_entries t = sh_entries s"
    and "map_of (sh_children t) (parent, segment) = Some node"
    and "length (sh_declared t) \<le> length (sh_declared s) + 1" "length (sh_declared t) \<le> 2 ^ 32"
proof -
  consider (known) "map_of (sh_children s) (parent, segment) = Some node" "t = s"
    | (fresh) "map_of (sh_children s) (parent, segment) = None" "node = length (sh_declared s)"
      "t = s\<lparr>sh_children := ((parent, segment), node) # sh_children s, sh_declared := sh_declared s @ [None]\<rparr>"
    using assms(1) by (auto simp: shape_child_def fits_u32_iff Let_def split: if_splits option.splits)
  then have "wf_shapes t \<and> grows s t \<and> node < length (sh_declared t) \<and> sh_entries t = sh_entries s \<and>
    map_of (sh_children t) (parent, segment) = Some node"
  proof cases
    case known
    with assms(2) show ?thesis by (auto simp: wf_shapes_def)
  next
    case fresh
    with assms(2,3) show ?thesis
      by (auto simp: wf_shapes_def grows_def nth_append less_Suc_eq_le le_eq_less_or_eq split: if_splits)
  qed
  then show "wf_shapes t" "grows s t" "node < length (sh_declared t)" "sh_entries t = sh_entries s"
    "map_of (sh_children t) (parent, segment) = Some node" by blast+
  show "length (sh_declared t) \<le> length (sh_declared s) + 1" "length (sh_declared t) \<le> 2 ^ 32"
    using assms(1) by (auto simp: shape_child_def fits_u32_iff Let_def split: if_splits option.splits)
qed

lemma declare_step:
  assumes "wf_shapes s" and "node < length (sh_declared s)"
    and decl: "t = shape_declare reserved builder fs path node s"
  shows "wf_shapes t" "grows s t" "sh_children t = sh_children s" "length (sh_declared t) = length (sh_declared s)"
    and "\<exists>i. sh_declared t = (sh_declared s)[node := Some i] \<and> i < length (sh_entries t) \<and>
      nt_fields (sh_entries t ! i) = fs \<and> nt_builder (sh_entries t ! i) = builder"
    and "\<forall>i < length (sh_entries t). i < length (sh_entries s) \<or>
      i = length (sh_entries s) \<and> nt_node (sh_entries t ! i) = node \<and> nt_fields (sh_entries t ! i) = fs \<and>
      nt_builder (sh_entries t ! i) = builder"
proof -
  have "wf_shapes t \<and> grows s t \<and> sh_children t = sh_children s \<and>
    (\<exists>i. sh_declared t = (sh_declared s)[node := Some i] \<and> i < length (sh_entries t) \<and>
      nt_fields (sh_entries t ! i) = fs \<and> nt_builder (sh_entries t ! i) = builder) \<and>
    (\<forall>i < length (sh_entries t). i < length (sh_entries s) \<or>
      i = length (sh_entries s) \<and> nt_node (sh_entries t ! i) = node \<and> nt_fields (sh_entries t ! i) = fs \<and>
      nt_builder (sh_entries t ! i) = builder)"
  proof (cases "map_of (sh_by_fields s) (builder, fs)")
    case (Some i)
    then have i: "i < length (sh_entries s)" "nt_builder (sh_entries s ! i) = builder" "nt_fields (sh_entries s ! i) = fs"
      using assms(1) by (auto simp: wf_shapes_def)
    have t: "t = s\<lparr>sh_entries := (sh_entries s)[i := (sh_entries s ! i)\<lparr>nt_occurrences := nt_occurrences (sh_entries s ! i) + 1\<rparr>],
        sh_declared := (sh_declared s)[node := Some i]\<rparr>"
      using Some by (simp add: decl shape_declare_def Let_def)
    have entries: "nt_core (sh_entries t ! j) = nt_core (sh_entries s ! j)" if "j < length (sh_entries s)" for j
      using i(1) by (cases "j = i") (simp_all add: t)
    have len: "length (sh_entries t) = length (sh_entries s)" by (simp add: t)
    have "wf_shapes t"
      using assms(1,2) i unfolding wf_shapes_def len by (auto simp: t nth_list_update split: if_splits)
    moreover have "grows s t"
      unfolding grows_def using entries assms(2) by (auto simp: t nth_list_update simp del: nt_core_eq)
    ultimately show ?thesis using i entries[of i] by (auto simp: t)
  next
    case None
    let ?e = "\<lparr>nt_path = path, nt_node = node, nt_name = nested_type_name path reserved,
      nt_fields = fs, nt_builder = builder, nt_occurrences = 1\<rparr>"
    have t: "t = s\<lparr>sh_entries := sh_entries s @ [?e], sh_by_fields := ((builder, fs), length (sh_entries s)) # sh_by_fields s,
        sh_declared := (sh_declared s)[node := Some (length (sh_entries s))]\<rparr>"
      using None by (simp add: decl shape_declare_def Let_def)
    have absent: "\<not> (nt_builder (sh_entries s ! i) = builder \<and> nt_fields (sh_entries s ! i) = fs)"
      if "i < length (sh_entries s)" for i
      using that None assms(1) unfolding wf_shapes_def by (metis option.distinct(1))
    have "wf_shapes t" unfolding wf_shapes_def
    proof (intro conjI allI impI)
      fix b gs i
      show "map_of (sh_by_fields t) (b, gs) = Some i \<longleftrightarrow>
        i < length (sh_entries t) \<and> nt_builder (sh_entries t ! i) = b \<and> nt_fields (sh_entries t ! i) = gs"
        using assms(1) absent[of i] unfolding wf_shapes_def
        by (auto simp: t nth_append less_Suc_eq)
    next
      fix n i assume "n < length (sh_declared t)" "sh_declared t ! n = Some i"
      then show "i < length (sh_entries t)"
        using assms(1,2) by (auto simp: t wf_shapes_def nth_list_update less_Suc_eq split: if_splits)
    qed (use assms(1) in \<open>auto simp: t wf_shapes_def\<close>)
    moreover have "grows s t"
      unfolding grows_def using assms(2) by (simp add: t nth_append nth_list_update)
    moreover have "nt_node (sh_entries t ! length (sh_entries s)) = node \<and> nt_fields (sh_entries t ! length (sh_entries s)) = fs \<and>
        nt_builder (sh_entries t ! length (sh_entries s)) = builder" by (simp add: t)
    moreover have "sh_children t = sh_children s" "length (sh_entries t) = Suc (length (sh_entries s))"
      "sh_declared t = (sh_declared s)[node := Some (length (sh_entries s))]" by (simp_all add: t)
    ultimately show ?thesis using less_Suc_eq by (metis lessI)
  qed
  then show "wf_shapes t" "grows s t" "sh_children t = sh_children s"
    "\<exists>i. sh_declared t = (sh_declared s)[node := Some i] \<and> i < length (sh_entries t) \<and>
      nt_fields (sh_entries t ! i) = fs \<and> nt_builder (sh_entries t ! i) = builder"
    "\<forall>i < length (sh_entries t). i < length (sh_entries s) \<or>
      i = length (sh_entries s) \<and> nt_node (sh_entries t ! i) = node \<and> nt_fields (sh_entries t ! i) = fs \<and>
      nt_builder (sh_entries t ! i) = builder" by blast+
  then show "length (sh_declared t) = length (sh_declared s)" by auto
qed

section \<open>Every shape is found\<close>

text \<open>The object types of a record at a node have a shape.\<close>

definition found_at :: "shapes \<Rightarrow> path_node \<Rightarrow> fields_list \<Rightarrow> bool" where
  "found_at s node fs \<longleftrightarrow>
     list_all (\<lambda>f. object_fields (bf_type f) \<noteq> None \<longrightarrow> shape_index s node f \<noteq> None) fs"

definition all_found :: "shapes \<Rightarrow> bool" where
  "all_found s \<longleftrightarrow> (\<forall>i < length (sh_entries s). found_at s (nt_node (sh_entries s ! i)) (nt_fields (sh_entries s ! i)))"

lemma index_grows: "shape_index s n f \<noteq> None \<Longrightarrow> wf_shapes s \<Longrightarrow> grows s t \<Longrightarrow> shape_index t n f \<noteq> None"
  unfolding shape_index_def grows_def wf_shapes_def
  by (cases "map_of (sh_children s) (n, bf_public_name f)") auto

lemma found_at_grows: "found_at s n fs \<Longrightarrow> wf_shapes s \<Longrightarrow> grows s t \<Longrightarrow> found_at t n fs"
  unfolding found_at_def list_all_iff by (meson index_grows)

definition visited :: "binding_field \<Rightarrow> path_node \<Rightarrow> shapes \<Rightarrow> shapes \<Rightarrow> bool" where
  "visited field parent s t \<longleftrightarrow>
     (wf_shapes s \<longrightarrow> all_found s \<longrightarrow> parent < length (sh_declared s) \<longrightarrow>
        wf_shapes t \<and> all_found t \<and> grows s t \<and> found_at t parent [field])"

lemma fold_visited:
  assumes "\<And>child s t. child \<in> set fs \<Longrightarrow> visit child s = Some t \<Longrightarrow> visited child node s t"
    and "fold_option visit fs s = Some t" and "wf_shapes s" and "all_found s" and "node < length (sh_declared s)"
  shows "wf_shapes t \<and> all_found t \<and> grows s t \<and> found_at t node fs"
  using assms
proof (induction fs arbitrary: s)
  case Nil
  then show ?case by (simp add: found_at_def)
next
  case (Cons c cs)
  from Cons.prems(2) obtain u where u: "visit c s = Some u" "fold_option visit cs u = Some t"
    by (auto simp: bind_eq_Some_conv)
  from Cons.prems(1)[OF _ u(1)] Cons.prems(3-5)
  have one: "wf_shapes u" "all_found u" "grows s u" "found_at u node [c]" by (auto simp: visited_def)
  with Cons.prems(5) have "node < length (sh_declared u)" by (auto simp: grows_def)
  with Cons.IH[OF Cons.prems(1) u(2) one(1,2)]
  have rest: "wf_shapes t" "all_found t" "grows u t" "found_at t node cs" by auto
  with one found_at_grows[OF one(4) one(1) rest(3)] show ?case
    by (auto simp: found_at_def intro: grows_trans)
qed

lemma visit_found: "shape_visit reserved parent path parent_builder field s = Some t \<Longrightarrow> visited field parent s t"
proof (induction reserved parent path parent_builder field s arbitrary: t rule: shape_visit.induct)
  case (1 reserved parent path parent_builder field s)
  show ?case
  proof (cases "object_fields (bf_type field)")
    case None
    with "1.prems" show ?thesis
      by (auto simp: shape_visit.simps[of _ _ _ _ field] visited_def found_at_def)
  next
    case (Some fs)
    define builder where "builder = child_builder parent_builder field"
    define path' where "path' = path @ [bf_public_name field]"
    from "1.prems" Some obtain node u v where
      u: "shape_child parent (bf_public_name field) s = Some (node, u)"
      and v: "fold_option (\<lambda>child. shape_visit reserved node path' builder child) fs u = Some v"
      and t: "t = shape_declare reserved builder fs path' node v"
      by (auto simp: shape_visit.simps[of _ _ _ _ field] Let_def bind_eq_Some_conv builder_def path'_def)
    show ?thesis unfolding visited_def
    proof (intro impI)
      assume s: "wf_shapes s" "all_found s" "parent < length (sh_declared s)"
      note child = child_step[OF u s(1,3)]
      have "all_found u"
        using s(2) found_at_grows[OF _ s(1) child(2)] by (simp add: all_found_def child(4))
      with fold_visited[OF _ v child(1) _ child(3)] "1.IH"[OF Some builder_def path'_def u[symmetric, THEN sym] refl]
      have rest: "wf_shapes v" "all_found v" "grows u v" "found_at v node fs" by blast+
      then have node: "node < length (sh_declared v)" using child(3) by (auto simp: grows_def)
      note decl = declare_step[OF rest(1) node t]
      have "all_found t" unfolding all_found_def
      proof (intro allI impI)
        fix i assume i: "i < length (sh_entries t)"
        with decl(6) consider "i < length (sh_entries v)" | "nt_node (sh_entries t ! i) = node" "nt_fields (sh_entries t ! i) = fs"
          by blast
        then show "found_at t (nt_node (sh_entries t ! i)) (nt_fields (sh_entries t ! i))"
        proof cases
          case 1
          with decl(2) have "nt_core (sh_entries t ! i) = nt_core (sh_entries v ! i)" unfolding grows_def by blast
          with rest(2) 1 found_at_grows[OF _ rest(1) decl(2)] show ?thesis by (simp add: all_found_def)
        next
          case 2
          with found_at_grows[OF rest(4,1) decl(2)] show ?thesis by simp
        qed
      qed
      moreover have "shape_index t parent field \<noteq> None"
      proof -
        have "map_of (sh_children v) (parent, bf_public_name field) = Some node"
          using child(5) rest(3) unfolding grows_def by blast
        with decl(3,5) node show ?thesis by (auto simp: shape_index_def)
      qed
      ultimately show "wf_shapes t \<and> all_found t \<and> grows s t \<and> found_at t parent [field]"
        using decl(1,2) grows_trans[OF child(2) grows_trans[OF rest(3) decl(2)]] by (simp add: found_at_def)
    qed
  qed
qed

lemma collect_found:
  assumes "shapes_collect fs reserved = Some s"
  shows "wf_shapes s \<and> all_found s \<and> found_at s ROOT fs"
  using fold_visited[OF visit_found assms[unfolded shapes_collect_def] wf_no_shapes]
  by (simp add: all_found_def no_shapes_def ROOT_def)

section \<open>Shapes come in order\<close>

text \<open>Fields of one record have different public names, at every depth.\<close>

fun well_named :: "fields_list \<Rightarrow> bool" where
  "well_named fs \<longleftrightarrow>
     distinct (map bf_public_name fs) \<and>
     list_all (\<lambda>f. case object_fields (bf_type f) of None \<Rightarrow> True | Some gs \<Rightarrow> well_named gs) fs"

declare well_named.simps [simp del]

lemma well_named_field: "well_named fs \<Longrightarrow> f \<in> set fs \<Longrightarrow> object_fields (bf_type f) = Some gs \<Longrightarrow> well_named gs"
  by (subst (asm) well_named.simps) (auto simp: list_all_iff split: option.splits)

text \<open>
  A field of a record at a node, whose own builder flag is \<open>builder\<close>, has the shape of its own
  fields, among the first \<open>n\<close> entries.
\<close>

definition has_shape :: "shapes \<Rightarrow> nat \<Rightarrow> path_node \<Rightarrow> bool \<Rightarrow> binding_field \<Rightarrow> bool" where
  "has_shape s n node builder f \<longleftrightarrow>
     (case object_fields (bf_type f) of
        None \<Rightarrow> True
      | Some gs \<Rightarrow>
          (case shape_index s node f of
             None \<Rightarrow> False
           | Some j \<Rightarrow>
               j < n \<and> nt_fields (sh_entries s ! j) = gs \<and> nt_builder (sh_entries s ! j) = child_builder builder f))"

definition in_order :: "shapes \<Rightarrow> bool" where
  "in_order s \<longleftrightarrow>
     (\<forall>i < length (sh_entries s).
        list_all (has_shape s i (nt_node (sh_entries s ! i)) (nt_builder (sh_entries s ! i))) (nt_fields (sh_entries s ! i)))"

text \<open>Outside of some edges, whose names are new, nothing that was there changes.\<close>

definition frame :: "shapes \<Rightarrow> shapes \<Rightarrow> path_node \<Rightarrow> string set \<Rightarrow> bool" where
  "frame s t node names \<longleftrightarrow>
     (\<forall>n segment. n < length (sh_declared s) \<longrightarrow> n \<noteq> node \<or> segment \<notin> names \<longrightarrow>
        map_of (sh_children t) (n, segment) = map_of (sh_children s) (n, segment)) \<and>
     (\<forall>n < length (sh_declared s). sh_declared t ! n = sh_declared s ! n)"

lemma has_shape_frame:
  assumes "has_shape s k n builder f" and "wf_shapes s" and "grows s t" and "frame s t node names"
    and "n \<noteq> node \<or> bf_public_name f \<notin> names" and "k \<le> length (sh_entries s)"
  shows "has_shape t k n builder f"
proof (cases "object_fields (bf_type f)")
  case (Some gs)
  with assms(1) obtain m j where m: "map_of (sh_children s) (n, bf_public_name f) = Some m" "sh_declared s ! m = Some j"
    and j: "j < k" "nt_fields (sh_entries s ! j) = gs" "nt_builder (sh_entries s ! j) = child_builder builder f"
    by (auto simp: has_shape_def shape_index_def bind_eq_Some_conv split: option.splits)
  from m(1) assms(2) have lt: "n < length (sh_declared s)" "m < length (sh_declared s)"
    unfolding wf_shapes_def by fastforce+
  with m assms(4,5) have "shape_index t n f = Some j" by (auto simp: shape_index_def frame_def)
  moreover have "nt_core (sh_entries t ! j) = nt_core (sh_entries s ! j)"
    using assms(3,6) j(1) unfolding grows_def by auto
  ultimately show ?thesis using Some j by (simp add: has_shape_def)
qed (simp add: has_shape_def)

lemma in_order_frame:
  assumes "in_order s" and "wf_shapes s" and "grows s t" and "frame s t node names"
    and "\<forall>segment \<in> names. map_of (sh_children s) (node, segment) = None"
    and "i < length (sh_entries s)"
  shows "list_all (has_shape t i (nt_node (sh_entries t ! i)) (nt_builder (sh_entries t ! i))) (nt_fields (sh_entries t ! i))"
proof -
  have core: "nt_core (sh_entries t ! i) = nt_core (sh_entries s ! i)" using assms(3,6) unfolding grows_def by blast
  have "has_shape t i (nt_node (sh_entries s ! i)) (nt_builder (sh_entries s ! i)) f"
    if f: "f \<in> set (nt_fields (sh_entries s ! i))" for f
  proof (cases "object_fields (bf_type f)")
    case (Some gs)
    from assms(1,6) f have shape: "has_shape s i (nt_node (sh_entries s ! i)) (nt_builder (sh_entries s ! i)) f"
      by (auto simp: in_order_def list_all_iff)
    with Some have "map_of (sh_children s) (nt_node (sh_entries s ! i), bf_public_name f) \<noteq> None"
      by (auto simp: has_shape_def shape_index_def bind_eq_Some_conv split: option.splits)
    with assms(5) have "nt_node (sh_entries s ! i) \<noteq> node \<or> bf_public_name f \<notin> names" by metis
    from has_shape_frame[OF shape assms(2-4) this] assms(6) show ?thesis by simp
  qed (simp add: has_shape_def)
  with core show ?thesis by (simp add: list_all_iff)
qed

lemma frame_trans:
  assumes "frame s t node names" and "frame t u node names'" and "grows s t"
  shows "frame s u node (names \<union> names')"
  using assms unfolding frame_def grows_def by (auto dest: less_le_trans)

definition ordered_visit :: "binding_field \<Rightarrow> path_node \<Rightarrow> bool \<Rightarrow> shapes \<Rightarrow> shapes \<Rightarrow> bool" where
  "ordered_visit field parent builder s t \<longleftrightarrow>
     (wf_shapes s \<longrightarrow> all_found s \<longrightarrow> in_order s \<longrightarrow> parent < length (sh_declared s) \<longrightarrow>
      map_of (sh_children s) (parent, bf_public_name field) = None \<longrightarrow>
      (case object_fields (bf_type field) of None \<Rightarrow> True | Some fs \<Rightarrow> well_named fs) \<longrightarrow>
        in_order t \<and> frame s t parent {bf_public_name field} \<and> has_shape t (length (sh_entries t)) parent builder field)"

lemma fold_ordered:
  assumes "\<And>child s t. child \<in> set fs \<Longrightarrow> visit child s = Some t \<Longrightarrow> visited child node s t \<and> ordered_visit child node builder s t"
    and "fold_option visit fs s = Some t" and "wf_shapes s" and "all_found s" and "in_order s"
    and "node < length (sh_declared s)" and "\<forall>f \<in> set fs. map_of (sh_children s) (node, bf_public_name f) = None"
    and "well_named fs"
  shows "in_order t \<and> frame s t node (bf_public_name ` set fs) \<and> list_all (has_shape t (length (sh_entries t)) node builder) fs"
  using assms
proof (induction fs arbitrary: s)
  case Nil
  then show ?case by (simp add: frame_def)
next
  case (Cons c cs)
  from Cons.prems(2) obtain u where u: "visit c s = Some u" "fold_option visit cs u = Some t"
    by (auto simp: bind_eq_Some_conv)
  from Cons.prems(8) have names: "bf_public_name c \<notin> bf_public_name ` set cs" "well_named cs"
    and own: "case object_fields (bf_type c) of None \<Rightarrow> True | Some fs \<Rightarrow> well_named fs"
    by (subst (asm) well_named.simps, simp add: well_named.simps[of cs])+
  from Cons.prems(1)[OF _ u(1)] Cons.prems(3-7) own
  have one: "wf_shapes u" "all_found u" "grows s u" "in_order u" "frame s u node {bf_public_name c}"
    "has_shape u (length (sh_entries u)) node builder c"
    by (auto simp: visited_def ordered_visit_def)
  have node: "node < length (sh_declared u)" using one(3) Cons.prems(6) by (auto simp: grows_def)
  have fresh: "\<forall>f \<in> set cs. map_of (sh_children u) (node, bf_public_name f) = None"
  proof
    fix f assume f: "f \<in> set cs"
    with names(1) have "bf_public_name f \<notin> {bf_public_name c}" by (auto simp: image_iff)
    with one(5) Cons.prems(6) have "map_of (sh_children u) (node, bf_public_name f) = map_of (sh_children s) (node, bf_public_name f)"
      unfolding frame_def by blast
    with Cons.prems(7) f show "map_of (sh_children u) (node, bf_public_name f) = None" by simp
  qed
  have step: "\<And>child s t. child \<in> set cs \<Longrightarrow> visit child s = Some t \<Longrightarrow> visited child node s t \<and> ordered_visit child node builder s t"
    using Cons.prems(1) by simp
  from Cons.IH[OF step u(2) one(1,2,4) node fresh names(2)]
  have rest: "in_order t" "frame u t node (bf_public_name ` set cs)" "list_all (has_shape t (length (sh_entries t)) node builder) cs"
    by blast+
  from fold_visited[OF conjunct1[OF step] u(2) one(1,2) node] have grows: "grows u t" by blast
  have "has_shape t (length (sh_entries u)) node builder c"
    by (rule has_shape_frame[OF one(6,1) grows rest(2)]) (use names(1) in auto)
  then have "has_shape t (length (sh_entries t)) node builder c"
    using grows by (auto simp: has_shape_def grows_def split: option.splits)
  with rest frame_trans[OF one(5) rest(2) one(3)] show ?case by simp
qed

text \<open>Declaring a shape leaves the earlier ones where they are found, and comes after its fields.\<close>

lemma declare_keeps_shape:
  assumes "wf_shapes v" and node: "node < length (sh_declared v)" and t: "t = shape_declare reserved builder fs path node v"
    and undeclared: "sh_declared v ! node = None" and "has_shape v k n b f" and "k \<le> length (sh_entries v)"
  shows "has_shape t k n b f"
proof (cases "object_fields (bf_type f)")
  case (Some gs)
  note decl = declare_step[OF assms(1) node t]
  from Some assms(5) obtain m j where m: "map_of (sh_children v) (n, bf_public_name f) = Some m" "sh_declared v ! m = Some j"
    and j: "j < k" "nt_fields (sh_entries v ! j) = gs" "nt_builder (sh_entries v ! j) = child_builder b f"
    by (auto simp: has_shape_def shape_index_def bind_eq_Some_conv split: option.splits)
  from m undeclared have "m \<noteq> node" by auto
  with m decl(3,5) have "shape_index t n f = Some j" by (auto simp: shape_index_def)
  moreover have "nt_core (sh_entries t ! j) = nt_core (sh_entries v ! j)"
    using decl(2) assms(6) j(1) unfolding grows_def by auto
  ultimately show ?thesis using Some j by (simp add: has_shape_def)
qed (simp add: has_shape_def)

lemma declare_in_order:
  assumes v: "wf_shapes v" and node: "node < length (sh_declared v)" and t: "t = shape_declare reserved builder fs path node v"
    and undeclared: "sh_declared v ! node = None" and ordered: "in_order v"
    and members: "list_all (has_shape v (length (sh_entries v)) node builder) fs"
  shows "in_order t"
  unfolding in_order_def
proof (intro allI impI)
  note decl = declare_step[OF v node t] and shape = declare_keeps_shape[OF v node t undeclared]
  fix i assume "i < length (sh_entries t)"
  with decl(6) consider (old) "i < length (sh_entries v)"
    | (new) "i = length (sh_entries v)" "nt_node (sh_entries t ! i) = node" "nt_fields (sh_entries t ! i) = fs"
      "nt_builder (sh_entries t ! i) = builder" by blast
  then show "list_all (has_shape t i (nt_node (sh_entries t ! i)) (nt_builder (sh_entries t ! i)))
      (nt_fields (sh_entries t ! i))"
  proof cases
    case old
    with decl(2) have "nt_core (sh_entries t ! i) = nt_core (sh_entries v ! i)" unfolding grows_def by blast
    with old ordered shape[of i] show ?thesis by (auto simp: in_order_def list_all_iff)
  next
    case new
    with members shape[of i] show ?thesis by (auto simp: list_all_iff)
  qed
qed

lemma visit_ordered:
  "shape_visit reserved parent path parent_builder field s = Some t \<Longrightarrow> ordered_visit field parent parent_builder s t"
proof (induction reserved parent path parent_builder field s arbitrary: t rule: shape_visit.induct)
  case (1 reserved parent path parent_builder field s)
  show ?case
  proof (cases "object_fields (bf_type field)")
    case None
    with "1.prems" show ?thesis
      by (auto simp: shape_visit.simps[of _ _ _ _ field] ordered_visit_def has_shape_def frame_def)
  next
    case (Some fs)
    define builder where "builder = child_builder parent_builder field"
    define path' where "path' = path @ [bf_public_name field]"
    from "1.prems" Some obtain node u v where
      u: "shape_child parent (bf_public_name field) s = Some (node, u)"
      and v: "fold_option (\<lambda>child. shape_visit reserved node path' builder child) fs u = Some v"
      and t: "t = shape_declare reserved builder fs path' node v"
      by (auto simp: shape_visit.simps[of _ _ _ _ field] Let_def bind_eq_Some_conv builder_def path'_def)
    show ?thesis unfolding ordered_visit_def
    proof (intro impI)
      assume s: "wf_shapes s" "all_found s" "in_order s" "parent < length (sh_declared s)"
        and fresh: "map_of (sh_children s) (parent, bf_public_name field) = None"
        and named: "case object_fields (bf_type field) of None \<Rightarrow> True | Some fs \<Rightarrow> well_named fs"
      note child = child_step[OF u s(1,4)]
      from u fresh have u': "node = length (sh_declared s)"
        "sh_children u = ((parent, bf_public_name field), node) # sh_children s" "sh_declared u = sh_declared s @ [None]"
        by (auto simp: shape_child_def fits_u32_iff Let_def split: if_splits)
      have first: "frame s u parent {bf_public_name field}" by (auto simp: frame_def u' nth_append)
      have ordered: "in_order u"
        using in_order_frame[OF s(3,1) child(2) first] fresh by (simp add: in_order_def child(4))
      have found: "all_found u"
        using s(2) found_at_grows[OF _ s(1) child(2)] by (simp add: all_found_def child(4))
      have names: "\<forall>f \<in> set fs. map_of (sh_children u) (node, bf_public_name f) = None"
      proof -
        have "map_of (sh_children s) (node, segment) = None" for segment
          using s(1) unfolding wf_shapes_def u'(1) by (metis fst_conv less_irrefl option.exhaust)
        with s(4) show ?thesis by (auto simp: u'(1,2))
      qed
      have step: "visited child node s t \<and> ordered_visit child node builder s t"
        if "child \<in> set fs" "shape_visit reserved node path' builder child s = Some t" for child s t
        using "1.IH"[OF Some builder_def path'_def u[symmetric, THEN sym] refl that] visit_found[OF that(2)] by blast
      have "well_named fs" using named Some by simp
      from fold_ordered[OF step v child(1) found ordered child(3) names this]
        fold_visited[OF conjunct1[OF step] v child(1) found child(3)]
      have rest: "in_order v" "frame u v node (bf_public_name ` set fs)"
          "list_all (has_shape v (length (sh_entries v)) node builder) fs"
        and wf: "wf_shapes v" "grows u v" by blast+
      have node: "node < length (sh_declared v)" using wf(2) child(3) by (auto simp: grows_def)
      note decl = declare_step[OF wf(1) node t]
      show "in_order t \<and> frame s t parent {bf_public_name field} \<and>
          has_shape t (length (sh_entries t)) parent parent_builder field"
      proof -
        have undeclared: "sh_declared v ! node = None"
          using rest(2) by (simp add: frame_def u'(1,3) nth_append)
        have low: "length (sh_declared s) < length (sh_declared u)" by (simp add: u'(3))
        have "in_order t" by (rule declare_in_order[OF wf(1) node t undeclared rest(1,3)])
        moreover have "frame s t parent {bf_public_name field}"
        proof -
          have "map_of (sh_children t) (n, segment) = map_of (sh_children s) (n, segment)"
            if "n < length (sh_declared s)" "n \<noteq> parent \<or> segment \<notin> {bf_public_name field}" for n segment
            using that rest(2) low first by (simp add: decl(3) frame_def u'(1))
          moreover have "sh_declared t ! n = sh_declared s ! n" if "n < length (sh_declared s)" for n
            using that rest(2) low first decl(5) by (auto simp: frame_def u'(1))
          ultimately show ?thesis by (auto simp: frame_def)
        qed
        moreover have "has_shape t (length (sh_entries t)) parent parent_builder field"
        proof -
          have "map_of (sh_children v) (parent, bf_public_name field) = Some node"
            using child(5) wf(2) unfolding grows_def by blast
          with decl(3,5) node show ?thesis by (auto simp: has_shape_def shape_index_def Some builder_def)
        qed
        ultimately show ?thesis by blast
      qed
    qed
  qed
qed

lemma collect_ordered:
  assumes "shapes_collect fs reserved = Some s" and "well_named fs"
  shows "in_order s \<and> list_all (has_shape s (length (sh_entries s)) ROOT True) fs"
proof -
  have "in_order no_shapes" "all_found no_shapes" "ROOT < length (sh_declared no_shapes)"
    "\<forall>f \<in> set fs. map_of (sh_children no_shapes) (ROOT, bf_public_name f) = None"
    by (simp_all add: in_order_def all_found_def no_shapes_def ROOT_def)
  with fold_ordered[where visit = "shape_visit reserved ROOT [] True" and node = ROOT and builder = True,
      OF _ assms(1)[unfolded shapes_collect_def] wf_no_shapes this(2,1,3,4) assms(2)] visit_found visit_ordered
  show ?thesis by blast
qed

section \<open>How many nodes there are\<close>

definition counted_visit :: "binding_field \<Rightarrow> path_node \<Rightarrow> shapes \<Rightarrow> shapes option \<Rightarrow> bool" where
  "counted_visit field parent s r \<longleftrightarrow>
     (wf_shapes s \<longrightarrow> all_found s \<longrightarrow> parent < length (sh_declared s) \<longrightarrow>
      (let n = length (sh_declared s) + path_count [field]
       in (n \<le> 2 ^ 32 \<longrightarrow> r \<noteq> None) \<and> (case r of None \<Rightarrow> True | Some t \<Rightarrow> length (sh_declared t) \<le> n)))"

lemma path_count_Cons: "path_count (f # fs) = path_count [f] + path_count fs"
  by (simp add: path_count.simps[of "f # fs"] path_count.simps[of "[f]"] path_count.simps[of fs] del: path_count.simps)

lemma fold_counted:
  assumes "\<And>child s. child \<in> set fs \<Longrightarrow> counted_visit child node s (visit child s)"
    and "\<And>child s t. child \<in> set fs \<Longrightarrow> visit child s = Some t \<Longrightarrow> visited child node s t"
    and "wf_shapes s" and "all_found s" and "node < length (sh_declared s)"
  shows "(length (sh_declared s) + path_count fs \<le> 2 ^ 32 \<longrightarrow> fold_option visit fs s \<noteq> None) \<and>
    (case fold_option visit fs s of None \<Rightarrow> True | Some t \<Rightarrow> length (sh_declared t) \<le> length (sh_declared s) + path_count fs)"
  using assms
proof (induction fs arbitrary: s)
  case Nil
  then show ?case by simp
next
  case (Cons c cs)
  note count = path_count_Cons[of c cs]
  from Cons.prems(1)[of c s] Cons.prems(3-5)
  have one: "length (sh_declared s) + path_count [c] \<le> 2 ^ 32 \<longrightarrow> visit c s \<noteq> None"
    "case visit c s of None \<Rightarrow> True | Some t \<Rightarrow> length (sh_declared t) \<le> length (sh_declared s) + path_count [c]"
    by (simp_all add: counted_visit_def Let_def del: path_count.simps)
  show ?case
  proof (cases "visit c s")
    case None
    with one(1) count show ?thesis by (simp del: path_count.simps)
  next
    case (Some u)
    with Cons.prems(2)[of c s u] Cons.prems(3-5)
    have u: "wf_shapes u" "all_found u" "node < length (sh_declared u)" by (auto simp: visited_def grows_def)
    have "(length (sh_declared u) + path_count cs \<le> 2 ^ 32 \<longrightarrow> fold_option visit cs u \<noteq> None) \<and>
      (case fold_option visit cs u of None \<Rightarrow> True | Some t \<Rightarrow> length (sh_declared t) \<le> length (sh_declared u) + path_count cs)"
      by (rule Cons.IH) (use Cons.prems(1,2) u in auto)
    with Some one count show ?thesis by (auto simp del: path_count.simps split: option.splits)
  qed
qed

lemma visit_counted: "counted_visit field parent s (shape_visit reserved parent path parent_builder field s)"
proof (induction reserved parent path parent_builder field s rule: shape_visit.induct)
  case (1 reserved parent path parent_builder field s)
  show ?case
  proof (cases "object_fields (bf_type field)")
    case None
    then show ?thesis by (simp add: shape_visit.simps[of _ _ _ _ field] counted_visit_def)
  next
    case (Some fs)
    define builder where "builder = child_builder parent_builder field"
    define path' where "path' = path @ [bf_public_name field]"
    have visit: "shape_visit reserved parent path parent_builder field s =
        Option.bind (shape_child parent (bf_public_name field) s) (\<lambda>(node, s).
        Option.bind (fold_option (\<lambda>child. shape_visit reserved node path' builder child) fs s) (\<lambda>s.
        Some (shape_declare reserved builder fs path' node s)))"
      using Some by (simp add: shape_visit.simps[of _ _ _ _ field] builder_def path'_def Let_def)
    have count: "path_count [field] = 1 + path_count fs" by (simp add: path_count.simps[of "[field]"] Some del: path_count.simps)
    show ?thesis
    proof (cases "shape_child parent (bf_public_name field) s")
      case None
      then have "2 ^ 32 \<le> length (sh_declared s)"
        by (auto simp: shape_child_def fits_u32_iff Let_def split: if_splits option.splits)
      with None show ?thesis by (simp add: visit counted_visit_def Let_def count del: path_count.simps)
    next
      case (Some nu)
      obtain node u where u: "shape_child parent (bf_public_name field) s = Some (node, u)" using Some by (cases nu) auto
      show ?thesis unfolding counted_visit_def
      proof (intro impI)
        assume s: "wf_shapes s" "all_found s" "parent < length (sh_declared s)"
        note child = child_step[OF u s(1,3)]
        have found: "all_found u"
          using s(2) found_at_grows[OF _ s(1) child(2)] by (simp add: all_found_def child(4))
        let ?fold = "fold_option (\<lambda>child. shape_visit reserved node path' builder child) fs u"
        have rest: "(length (sh_declared u) + path_count fs \<le> 2 ^ 32 \<longrightarrow> ?fold \<noteq> None) \<and>
          (case ?fold of None \<Rightarrow> True | Some t \<Rightarrow> length (sh_declared t) \<le> length (sh_declared u) + path_count fs)"
          by (rule fold_counted[OF "1.IH" _ child(1) found child(3)])
            (use \<open>object_fields (bf_type field) = Some fs\<close> u builder_def path'_def visit_found in auto)
        have "length (sh_declared (shape_declare reserved builder fs path' node v)) = length (sh_declared v)" for v
          by (simp add: shape_declare_def Let_def split: option.splits)
        with rest child(6) show "let n = length (sh_declared s) + path_count [field]
          in (n \<le> 2 ^ 32 \<longrightarrow> shape_visit reserved parent path parent_builder field s \<noteq> None) \<and>
            (case shape_visit reserved parent path parent_builder field s of None \<Rightarrow> True
             | Some t \<Rightarrow> length (sh_declared t) \<le> n)"
          by (auto simp: visit u Let_def count simp del: path_count.simps split: option.splits)
      qed
    qed
  qed
qed

lemma collect_counted:
  "(1 + path_count fs \<le> 2 ^ 32 \<longrightarrow> shapes_collect fs reserved \<noteq> None) \<and>
   (case shapes_collect fs reserved of None \<Rightarrow> True | Some s \<Rightarrow> length (sh_declared s) \<le> 1 + path_count fs)"
proof -
  have "length (sh_declared no_shapes) = 1" "all_found no_shapes" "ROOT < length (sh_declared no_shapes)"
    by (simp_all add: all_found_def no_shapes_def ROOT_def)
  note start = this
  from fold_counted[where visit = "shape_visit reserved ROOT [] True" and node = ROOT and fs = fs,
      OF visit_counted _ wf_no_shapes this(2,3)] visit_found
  show ?thesis unfolding shapes_collect_def start(1) by blast
qed

end
