(* ===== verification/Emit_Lean_Correct.thy ===== *)
theory Emit_Lean_Correct
  imports Emit_Lean Lean_Shapes_Correct Binding_Correct
begin

text \<open>
  What a generated Lean package satisfies: the types of a module are declared once, before their
  uses; a builder demands a proof about the length of block lists exactly when the schema bounds
  one; string literals and comments hold what they were made from; the files of a package are
  distinct, and its root imports them all.
\<close>

section \<open>Obligations\<close>

text \<open>Whether the schema bounds the length of a nested block list, at any depth.\<close>

definition list_bounded :: "binding_field \<Rightarrow> bool" where
  "list_bounded f \<longleftrightarrow>
     (case lean_container_of (bf_type f) of
        Some LeanArray \<Rightarrow>
          (case multiplicity_of f of Many low high \<Rightarrow> low \<noteq> None \<or> high \<noteq> None | One \<Rightarrow> False | AtMostOne \<Rightarrow> False)
      | _ \<Rightarrow> False)"

fun bounded :: "fields_list \<Rightarrow> bool" where
  "bounded fs \<longleftrightarrow>
     list_ex (\<lambda>f. lean_input f \<and> lean_container_of (bf_type f) \<noteq> None \<and>
         (list_bounded f \<or> (case object_fields (bf_type f) of None \<Rightarrow> False | Some gs \<Rightarrow> bounded gs)))
       fs"

declare bounded.simps [simp del]

lemma container_object: "lean_container_of t = Some c \<Longrightarrow> \<exists>gs. object_fields t = Some gs"
  by (cases t rule: lean_container_of.cases) auto

lemma constraints_empty:
  "block_constraints f node s ranged = [] \<longleftrightarrow>
     lean_container_of (bf_type f) = None \<or>
     \<not> list_bounded f \<and> shape_name s node f @ ''Args'' \<notin> set ranged"
  by (auto simp: block_constraints_def list_bounded_def Let_def
      split: option.splits lean_container.splits multiplicity.splits)

definition needs_obligation :: "path_node \<Rightarrow> fields_list \<Rightarrow> shapes \<Rightarrow> string list \<Rightarrow> bool" where
  "needs_obligation node fs s ranged \<longleftrightarrow>
     list_ex (\<lambda>f. lean_input f \<and> lean_container_of (bf_type f) \<noteq> None \<and>
       (list_bounded f \<or> shape_name s node f @ ''Args'' \<in> set ranged)) fs"

lemma args_ranged:
  "set (snd (render_args_structure name node fs doc s ranged)) =
     (if needs_obligation node fs s ranged then insert name (set ranged) else set ranged)"
proof -
  have "concat (map (\<lambda>f. block_constraints f node s ranged) (filter lean_input fs)) = [] \<longleftrightarrow>
    \<not> needs_obligation node fs s ranged"
    by (auto simp: needs_obligation_def constraints_empty list_ex_iff)
  then show ?thesis by (simp add: render_args_structure_def Let_def)
qed

text \<open>The first \<open>k\<close> shapes of a module, rendered.\<close>

definition ranged_after :: "shapes \<Rightarrow> nat \<Rightarrow> string list" where
  "ranged_after s k =
     snd (fold (\<lambda>nested (out, ranged). let (text, ranged) = render_shape s nested ranged in (out @ text, ranged))
       (take k (sh_entries s)) ([], []))"

lemma ranged_after_Suc:
  assumes "k < length (sh_entries s)"
  defines "e \<equiv> sh_entries s ! k"
  shows "set (ranged_after s (Suc k)) =
    (if nt_builder e \<and> needs_obligation (nt_node e) (nt_fields e) s (ranged_after s k)
     then insert (nt_name e @ ''Args'') (set (ranged_after s k)) else set (ranged_after s k))"
proof -
  define step where "step = (\<lambda>nested (out, ranged). let (text, ranged) = render_shape s nested ranged in (out @ text, ranged))"
  have after: "ranged_after s n = snd (fold step (take n (sh_entries s)) ([], []))" for n
    by (simp only: ranged_after_def step_def)
  have "snd (step e x) = snd (render_shape s e (snd x))" for x
    by (cases x) (simp add: step_def case_prod_beta Let_def)
  then have "ranged_after s (Suc k) = snd (render_shape s e (ranged_after s k))"
    using assms by (simp add: after take_Suc_conv_app_nth)
  then show ?thesis
    using args_ranged[of "nt_name e @ ''Args''" "nt_node e" "nt_fields e" _ s "ranged_after s k"]
    by (auto simp: render_shape_def Let_def case_prod_beta)
qed

definition builder_names_distinct :: "shapes \<Rightarrow> bool" where
  "builder_names_distinct s \<longleftrightarrow>
     distinct (map nt_name (filter nt_builder (sh_entries s))) \<and> list_all (\<lambda>e. nt_name e \<noteq> []) (filter nt_builder (sh_entries s))"

lemma builder_names_inj:
  assumes "builder_names_distinct s" and "i < length (sh_entries s)" and "j < length (sh_entries s)"
    and "nt_builder (sh_entries s ! i)" and "nt_builder (sh_entries s ! j)"
    and "nt_name (sh_entries s ! i) = nt_name (sh_entries s ! j)"
  shows "nt_fields (sh_entries s ! i) = nt_fields (sh_entries s ! j)"
proof -
  from assms(1) have "inj_on nt_name (set (filter nt_builder (sh_entries s)))"
    by (simp add: builder_names_distinct_def distinct_map)
  moreover have "sh_entries s ! i \<in> set (filter nt_builder (sh_entries s))" "sh_entries s ! j \<in> set (filter nt_builder (sh_entries s))"
    using assms(2-5) by simp_all
  ultimately show ?thesis using assms(6) by (metis inj_onD)
qed

lemma obligation_iff:
  assumes "builder_names_distinct s" and "k \<le> length (sh_entries s)"
    and "set ranged = {nt_name (sh_entries s ! j) @ ''Args'' | j. j < k \<and> nt_builder (sh_entries s ! j) \<and> bounded (nt_fields (sh_entries s ! j))}"
    and "list_all (has_shape s k node True) fs"
  shows "needs_obligation node fs s ranged \<longleftrightarrow> bounded fs"
proof -
  have "shape_name s node f @ ''Args'' \<in> set ranged \<longleftrightarrow> bounded gs"
    if f: "f \<in> set fs" "lean_input f" "lean_container_of (bf_type f) \<noteq> None" "object_fields (bf_type f) = Some gs" for f gs
  proof -
    from assms(4) f obtain j where j: "shape_index s node f = Some j" "j < k" "nt_fields (sh_entries s ! j) = gs"
      "nt_builder (sh_entries s ! j)"
      by (auto simp: list_all_iff has_shape_def child_builder_def split: option.splits)
    then have name: "shape_name s node f = nt_name (sh_entries s ! j)" by (simp add: shape_name_def)
    show ?thesis
    proof
      assume "shape_name s node f @ ''Args'' \<in> set ranged"
      then obtain i where i: "i < k" "nt_builder (sh_entries s ! i)" "bounded (nt_fields (sh_entries s ! i))"
        "nt_name (sh_entries s ! j) = nt_name (sh_entries s ! i)" by (auto simp: assms(3) name)
      with builder_names_inj[OF assms(1) _ _ j(4) i(2)] j(2) assms(2) have "gs = nt_fields (sh_entries s ! i)"
        by (simp add: j(3))
      with i(3) show "bounded gs" by simp
    qed (use j name assms(3) in auto)
  qed
  then have "shape_name s node f @ ''Args'' \<in> set ranged \<longleftrightarrow>
      (case object_fields (bf_type f) of None \<Rightarrow> False | Some gs \<Rightarrow> bounded gs)"
    if "f \<in> set fs" "lean_input f" "lean_container_of (bf_type f) \<noteq> None" for f
    using that container_object[of "bf_type f"] by (auto split: option.splits)
  then show ?thesis unfolding needs_obligation_def bounded.simps[of fs]
    by (intro list_ex_cong refl) blast
qed

lemma ranged_after_iff:
  assumes "builder_names_distinct s" and "in_order s" and "k \<le> length (sh_entries s)"
  shows "set (ranged_after s k) =
    {nt_name (sh_entries s ! j) @ ''Args'' | j. j < k \<and> nt_builder (sh_entries s ! j) \<and> bounded (nt_fields (sh_entries s ! j))}"
  using assms(3)
proof (induction k)
  case 0
  then show ?case by (simp add: ranged_after_def)
next
  case (Suc k)
  let ?e = "sh_entries s ! k"
  from Suc.prems assms(2) have "list_all (has_shape s k (nt_node ?e) (nt_builder ?e)) (nt_fields ?e)"
    by (simp add: in_order_def)
  with obligation_iff[OF assms(1) _ Suc.IH] Suc.prems
  have "nt_builder ?e \<Longrightarrow> needs_obligation (nt_node ?e) (nt_fields ?e) s (ranged_after s k) \<longleftrightarrow> bounded (nt_fields ?e)"
    by simp
  with ranged_after_Suc[of k s] Suc show ?case by (auto simp: less_Suc_eq)
qed

lemma records_ranged:
  assumes "shapes_collect fs reserved = Some s" and "well_named fs" and "builder_names_distinct s"
  shows "''Args'' \<in> set (snd (render_records fs doc s)) \<longleftrightarrow> bounded fs"
proof -
  let ?n = "length (sh_entries s)"
  note order = collect_ordered[OF assms(1,2)]
  have shapes: "snd (render_shapes s []) = ranged_after s ?n"
    by (simp add: render_shapes_def ranged_after_def)
  note ranged = ranged_after_iff[OF assms(3) conjunct1[OF order] order_refl]
  have "''Args'' \<notin> set (ranged_after s ?n)"
    using assms(3) by (auto simp: ranged builder_names_distinct_def list_all_iff)
  moreover have "needs_obligation ROOT fs s (ranged_after s ?n) \<longleftrightarrow> bounded fs"
    using obligation_iff[OF assms(3) order_refl ranged conjunct2[OF order]] .
  ultimately show ?thesis
    using args_ranged[of "''Args''" ROOT fs doc s "ranged_after s ?n"]
    by (auto simp: render_records_def Let_def case_prod_beta shapes)
qed

section \<open>String literals\<close>

text \<open>Reading the body of a Lean string literal, up to the quote that closes it.\<close>

fun read_literal :: "string \<Rightarrow> (string \<times> string) option" where
  "read_literal [] = None"
| "read_literal (c # cs) =
     (if c = CHR 0x22 then Some ([], cs)
      else if c = CHR 0x5C then
        (case cs of
           [] \<Rightarrow> None
         | d # ds \<Rightarrow>
             let e = (if d = CHR ''n'' then Some (CHR 0x0A) else if d = CHR ''r'' then Some (CHR 0x0D)
                 else if d = CHR ''t'' then Some (CHR 0x09) else if d = CHR 0x22 \<or> d = CHR 0x5C then Some d else None)
             in case (e, read_literal ds) of (Some e, Some (s, rest)) \<Rightarrow> Some (e # s, rest) | _ \<Rightarrow> None)
      else if c = CHR 0x0A then None
      else (case read_literal cs of None \<Rightarrow> None | Some (s, rest) \<Rightarrow> Some (c # s, rest)))"

lemma read_escaped: "read_literal (escaped s @ CHR 0x22 # rest) = Some (s, rest)"
proof (induction s)
  case Nil
  then show ?case by (simp add: escaped_def)
next
  case (Cons c s)
  have "escaped (c # s) = escaped_char c @ escaped s" by (simp add: escaped_def)
  with Cons show ?case
    by (simp add: escaped_char_def backslash_def Let_def)
qed

section \<open>Comments\<close>

text \<open>A text with neither of the delimiters of a block comment.\<close>

fun plain_doc :: "string \<Rightarrow> bool" where
  "plain_doc (a # b # s) \<longleftrightarrow>
     \<not> (a = CHR ''-'' \<and> b = CHR ''/'') \<and> \<not> (a = CHR ''/'' \<and> b = CHR ''-'') \<and> plain_doc (b # s)"
| "plain_doc _ \<longleftrightarrow> True"

lemma plain_doc_appendD: "plain_doc (s @ t) \<Longrightarrow> plain_doc s \<and> plain_doc t"
proof (induction s rule: plain_doc.induct)
  case (1 a b s)
  then show ?case by (cases s) auto
next
  case "2_2"
  then show ?case by (cases t) auto
qed simp

lemma plain_doc_join:
  "plain_doc (s @ t) \<longleftrightarrow>
     plain_doc s \<and> plain_doc t \<and>
     (s \<noteq> [] \<and> t \<noteq> [] \<longrightarrow>
        \<not> (last s = CHR ''-'' \<and> hd t = CHR ''/'') \<and> \<not> (last s = CHR ''/'' \<and> hd t = CHR ''-''))"
proof (induction s rule: plain_doc.induct)
  case "2_2"
  then show ?case by (cases t) auto
qed auto

lemma plain_doc_mark: "plain_doc (s @ c # t) \<longleftrightarrow> plain_doc s \<and> plain_doc t" if "c \<noteq> CHR ''-''" "c \<noteq> CHR ''/''"
  using that by (subst plain_doc_join) (cases t; auto)

lemma plain_doc_start: "c \<noteq> CHR ''-'' \<Longrightarrow> c \<noteq> CHR ''/'' \<Longrightarrow> plain_doc (c # t) \<longleftrightarrow> plain_doc t"
  using plain_doc_mark[of c "[]" t] by simp

text \<open>After the replacement no pair of the pattern is left, and no other pair appears.\<close>

fun no_pair :: "char \<Rightarrow> char \<Rightarrow> string \<Rightarrow> bool" where
  "no_pair a b (x # y # s) \<longleftrightarrow> \<not> (x = a \<and> y = b) \<and> no_pair a b (y # s)"
| "no_pair a b _ \<longleftrightarrow> True"

lemma plain_doc_pairs: "plain_doc s \<longleftrightarrow> no_pair (CHR ''-'') (CHR ''/'') s \<and> no_pair (CHR ''/'') (CHR ''-'') s"
  by (induction s rule: plain_doc.induct) auto

lemma no_pair_Cons: "no_pair a b (x # s) \<longleftrightarrow> (s \<noteq> [] \<longrightarrow> \<not> (x = a \<and> hd s = b)) \<and> no_pair a b s"
  by (cases s) auto

lemma replace_pair:
  fixes a b :: char
  assumes "a \<noteq> b" and "a \<noteq> CHR '' ''" and "b \<noteq> CHR '' ''"
  defines "r \<equiv> replace_text [a, b] [a, CHR '' '', b]"
  shows "no_pair a b (r s)" "no_pair b a s \<Longrightarrow> no_pair b a (r s)" "s \<noteq> [] \<Longrightarrow> hd (r s) = hd s" "r s = [] \<longleftrightarrow> s = []"
proof -
  have "no_pair a b (r s) \<and> (no_pair b a s \<longrightarrow> no_pair b a (r s)) \<and> (s \<noteq> [] \<longrightarrow> hd (r s) = hd s) \<and> (r s = [] \<longleftrightarrow> s = [])"
  proof (induction s rule: measure_induct_rule[of length])
    case (less s)
    show ?case
    proof (cases s)
      case (Cons x xs)
      show ?thesis
      proof (cases "starts_with [a, b] s")
        case True
        then obtain t where s: "s = a # b # t" by (auto simp: starts_with_iff)
        then have "r s = a # CHR '' '' # b # r t" using assms by (simp add: r_def starts_with_def)
        with less[of t] s assms(1-3) show ?thesis by (auto simp: no_pair_Cons)
      next
        case False
        then have "r s = x # r xs" using Cons by (simp add: r_def)
        moreover have "xs \<noteq> [] \<longrightarrow> \<not> (x = a \<and> hd xs = b)" using False Cons by (cases xs) (auto simp: starts_with_iff)
        ultimately show ?thesis using less[of xs] Cons by (auto simp: no_pair_Cons)
      qed
    qed (simp add: r_def)
  qed
  then show "no_pair a b (r s)" "no_pair b a s \<Longrightarrow> no_pair b a (r s)" "s \<noteq> [] \<Longrightarrow> hd (r s) = hd s" "r s = [] \<longleftrightarrow> s = []"
    by auto
qed

lemma escape_doc_plain: "plain_doc (escape_doc s)"
proof -
  let ?first = "replace_text ''-/'' ''- /'' s"
  have "no_pair (CHR ''-'') (CHR ''/'') ?first" by (rule replace_pair(1)) simp_all
  then have "no_pair (CHR ''-'') (CHR ''/'') (escape_doc s)"
    unfolding escape_doc_def by (intro replace_pair(2)) simp_all
  moreover have "no_pair (CHR ''/'') (CHR ''-'') (escape_doc s)"
    unfolding escape_doc_def by (rule replace_pair(1)) simp_all
  ultimately show ?thesis by (simp add: plain_doc_pairs)
qed

lemma concat_text_chars: "concat (text_chars s) = s"
  by (induction s rule: text_chars.induct) simp_all

lemma trim_end_part: "\<exists>b. s = trim_end s @ b"
proof -
  have "text_chars s = rev (dropWhile blank (rev (text_chars s))) @ rev (takeWhile blank (rev (text_chars s)))"
    by (simp flip: rev_append)
  from arg_cong[OF this, of concat] show ?thesis
    by (metis concat_append concat_text_chars trim_end_def)
qed

lemma trim_part: "\<exists>a b. s = a @ trim s @ b"
proof -
  have "trim_end s = concat (takeWhile blank (text_chars (trim_end s))) @ trim s"
    by (simp add: trim_def flip: concat_append) (simp add: concat_text_chars)
  with trim_end_part[of s] show ?thesis by (metis append_assoc)
qed

lemma join_part: "x \<in> set ws \<Longrightarrow> \<exists>a b. join sep ws = a @ x @ b"
proof (induction sep ws rule: join.induct)
  case (3 sep w v ws)
  show ?case
  proof (cases "x = w")
    case True
    then have "join sep (w # v # ws) = [] @ x @ (sep @ join sep (v # ws))" by simp
    then show ?thesis by blast
  next
    case False
    with 3 obtain a b where "join sep (v # ws) = a @ x @ b" by auto
    then have "join sep (w # v # ws) = (w @ sep @ a) @ x @ b" by simp
    then show ?thesis by blast
  qed
next
  case (2 sep w)
  then have "join sep [w] = [] @ x @ []" by simp
  then show ?case by blast
qed simp

lemma plain_doc_part: "plain_doc (a @ w @ b) \<Longrightarrow> plain_doc w"
  using plain_doc_appendD by blast

lemma plain_trims: "plain_doc s \<Longrightarrow> plain_doc (trim s)" "plain_doc s \<Longrightarrow> plain_doc (trim_end s)"
  using trim_part[of s] trim_end_part[of s] plain_doc_part plain_doc_appendD by metis+

lemma plain_lines:
  assumes "plain_doc s" and "l \<in> set (text_lines s)"
  shows "plain_doc l"
proof -
  have parts: "plain_doc w" if "w \<in> set (split_on (CHR 0x0A) s)" for w
    using join_part[OF that, of "[CHR 0x0A]"] assms(1) plain_doc_part by (auto simp: join_split_on)
  let ?line = "\<lambda>w. case strip_suffix [CHR 0x0D] w of Some l' \<Rightarrow> l' | None \<Rightarrow> w"
  have line: "plain_doc (?line w)" if "plain_doc w" for w
    using that by (auto simp: strip_suffix_Some split: option.splits dest: plain_doc_appendD)
  from assms(2) have "l \<in> ?line ` set (butlast (split_on (CHR 0x0A) s)) \<or> l = last (split_on (CHR 0x0A) s)"
    by (auto simp: text_lines_def Let_def split: if_splits)
  then show ?thesis
  proof
    assume "l \<in> ?line ` set (butlast (split_on (CHR 0x0A) s))"
    then obtain w where "w \<in> set (butlast (split_on (CHR 0x0A) s))" "l = ?line w" by blast
    with line parts in_set_butlastD[of w "split_on (CHR 0x0A) s"] show ?thesis by metis
  next
    assume "l = last (split_on (CHR 0x0A) s)"
    with parts[OF last_in_set[OF split_on_nonempty]] show ?thesis by simp
  qed
qed

text \<open>Lines that are plain make a plain text.\<close>

lemma plain_broken: "list_all plain_doc es \<Longrightarrow> plain_doc (s @ concat (map (\<lambda>e. nl @ e) es)) \<longleftrightarrow> plain_doc s"
proof (induction es arbitrary: s)
  case (Cons e es)
  from Cons.IH[of "s @ nl @ e"] Cons.prems have "plain_doc ((s @ nl @ e) @ concat (map (\<lambda>e. nl @ e) es)) \<longleftrightarrow> plain_doc (s @ nl @ e)"
    by simp
  also have "\<dots> \<longleftrightarrow> plain_doc s" using Cons.prems plain_doc_mark[of "CHR 0x0A" s e] by (simp add: nl_def)
  finally show ?case by simp
qed simp

lemma plain_indented:
  assumes "list_all plain_doc (l # ls)" and "set indent \<subseteq> {CHR '' ''}"
  shows "plain_doc (l @ concat (map (\<lambda>l. nl @ indent @ l) ls))"
proof -
  have "plain_doc (indent @ t) \<longleftrightarrow> plain_doc t" for t
    using assms(2) by (induction indent) (auto simp: plain_doc_start)
  with assms(1) plain_broken[of "map (\<lambda>l. indent @ l) ls" l] show ?thesis by (simp add: list_all_iff comp_def)
qed

lemma doc_comment_plain:
  assumes "plain_doc doc" and "set indent \<subseteq> {CHR '' ''}"
  shows "write_doc_comment doc indent = [] \<or>
    (\<exists>body. write_doc_comment doc indent = indent @ ''/-- '' @ body @ '' -/'' @ nl \<and> plain_doc body)"
proof (cases "trim doc = []")
  case False
  let ?lines = "map trim_end (text_lines (trim doc))"
  let ?body = "(case ?lines of [] \<Rightarrow> [] | l # _ \<Rightarrow> l) @ concat (map (\<lambda>l. nl @ indent @ l) (tl ?lines))"
  have "list_all plain_doc ?lines"
    using plain_lines[OF plain_trims(1)[OF assms(1)]] plain_trims(2) by (auto simp: list_all_iff)
  then have "plain_doc ?body"
    using plain_indented[OF _ assms(2)] by (cases ?lines) auto
  with False show ?thesis by (auto simp: write_doc_comment_def Let_def)
qed (simp add: write_doc_comment_def)

lemma plain_alphanumeric: "list_all is_ascii_alphanumeric s \<Longrightarrow> plain_doc s"
  by (induction s rule: plain_doc.induct) (auto simp: string_simps)

lemma first_line_plain: "plain_doc (first_line d)"
  unfolding first_line_def by (rule escape_doc_plain)

lemma plain_entries:
  assumes "\<And>c. c \<in> set cs \<Longrightarrow> list_all is_ascii_alphanumeric (bf_public_name c)"
  shows "plain_doc (s @ concat (map (\<lambda>c. nl @ ''- `'' @ bf_public_name c @ ''`: '' @ first_line (trimmed_description c)) cs))
    \<longleftrightarrow> plain_doc s"
proof -
  let ?entry = "\<lambda>c. ''- `'' @ bf_public_name c @ ''`: '' @ first_line (trimmed_description c)"
  have "plain_doc (?entry c)" if "c \<in> set cs" for c
    using plain_alphanumeric[OF assms[OF that]] first_line_plain by (simp add: plain_doc_mark plain_doc_start)
  with plain_broken[of "map ?entry cs" s] show ?thesis by (simp add: list_all_iff comp_def)
qed

lemma field_doc_plain:
  assumes "\<And>fs c. object_fields (bf_type field) = Some fs \<Longrightarrow> c \<in> set fs \<Longrightarrow> list_all is_ascii_alphanumeric (bf_public_name c)"
    and "set indent \<subseteq> {CHR '' ''}"
  shows "write_field_documentation field indent = [] \<or>
    (\<exists>body. write_field_documentation field indent = indent @ ''/-- '' @ body @ '' -/'' @ nl \<and> plain_doc body)"
proof -
  let ?cs = "case object_fields (bf_type field) of None \<Rightarrow> [] | Some fs \<Rightarrow> fs"
  let ?own = "escape_doc (trimmed_description field)"
  have own: "plain_doc (?own @ (if ?own \<noteq> [] then nl else []))"
    using escape_doc_plain plain_doc_mark[of "CHR 0x0A" ?own "[]"] by (simp add: nl_def)
  have "plain_doc (?own @ (if list_ex has_description ?cs
      then (if ?own \<noteq> [] then nl else []) @
        concat (map (\<lambda>c. nl @ ''- `'' @ bf_public_name c @ ''`: '' @ first_line (trimmed_description c)) (filter has_description ?cs))
      else []))"
    using plain_entries[of "filter has_description ?cs" "?own @ (if ?own \<noteq> [] then nl else [])"] assms(1) own escape_doc_plain
    by (auto split: option.splits)
  from doc_comment_plain[OF this assms(2)] show ?thesis
    by (simp add: write_field_documentation_def Let_def)
qed

section \<open>Field names\<close>

lemma lean_field_name_cases: "lean_field_name f r = bf_public_name f \<or> lean_field_name f r = bf_public_name f @ ''_''"
  by (simp add: lean_field_name_def Let_def)

lemma field_names_distinct:
  assumes "distinct (map bf_public_name fs)" and "list_all (\<lambda>f. list_all is_ascii_alphanumeric (bf_public_name f)) fs"
  shows "distinct (map (\<lambda>f. lean_field_name f r) fs)"
proof -
  have plain: "CHR ''_'' \<notin> set (bf_public_name f)" if "f \<in> set fs" for f
  proof -
    have "\<not> is_ascii_alphanumeric (CHR ''_'')" by (simp add: string_simps)
    with assms(2) that show ?thesis by (auto simp: list_all_iff)
  qed
  have "bf_public_name f = bf_public_name g"
    if "f \<in> set fs" "g \<in> set fs" "lean_field_name f r = lean_field_name g r" for f g
  proof -
    have "bf_public_name f \<noteq> bf_public_name g @ ''_''" "bf_public_name g \<noteq> bf_public_name f @ ''_''"
      using plain[OF that(1)] plain[OF that(2)] by auto
    then show ?thesis
      using lean_field_name_cases[of f r] lean_field_name_cases[of g r] that(3) by (metis append_same_eq)
  qed
  moreover have "inj_on bf_public_name (set fs)" using assms(1) by (simp add: distinct_map)
  ultimately have "inj_on (\<lambda>f. lean_field_name f r) (set fs)"
    by (intro inj_onI) (meson inj_onD)
  then show ?thesis using assms(1) by (simp add: distinct_map)
qed

section \<open>Paths of a package\<close>

lemma lean_item_path:
  assumes "alphanumeric (bi_public_name item)"
  shows "lean_module_path (lean_item_module root data_source item) =
    replace_char (CHR ''.'') (CHR ''/'') root @ ''/'' @ (if data_source then ''Data/'' else ''Resource/'') @
    bi_public_name item @ ''.lean''"
  using alphanumeric_replace[OF assms] by (simp add: lean_item_module_def lean_module_path_def replace_char_def)

lemma lean_provider_path:
  "lean_module_path (root @ ''.Provider'') = replace_char (CHR ''.'') (CHR ''/'') root @ ''/Provider.lean''"
  by (simp add: lean_module_path_def replace_char_def)

definition lean_modules :: "binding_package \<Rightarrow> string \<Rightarrow> string list" where
  "lean_modules package root =
     (root @ ''.Provider'') # map (lean_item_module root False) (bk_resources package) @
       map (lean_item_module root True) (bk_data_sources package)"

definition other_files :: "core_dependency \<Rightarrow> string list" where
  "other_files core =
     [''provider-manifest.json'', ''README.md'', ''lean-toolchain'', ''lakefile.toml''] @
     (case core of CorePath _ \<Rightarrow> [''lake-manifest.json''] | CoreGit _ _ _ \<Rightarrow> [])"

lemma lean_paths:
  assumes "lean_package_files pretty package root digest core = Inr jobs"
  shows "map job_path jobs = map lean_module_path (lean_modules package root) @ lean_module_path root # other_files core"
  using assms
  by (auto simp: lean_package_files_def lean_modules_def other_files_def lean_item_job_def lean_text_job_def Let_def comp_def
      split: if_splits core_dependency.splits)

lemma suffix_drop: "p @ s = t \<Longrightarrow> drop (length t - length s) t = s"
  by (metis add_diff_cancel_right' append_eq_conv_conj length_append)

lemma other_not_lean: "p @ ''.lean'' \<notin> set (other_files core)"
  by (auto simp: other_files_def split: core_dependency.splits dest!: suffix_drop)

lemma other_no_slash: "f \<in> set (other_files core) \<Longrightarrow> CHR ''/'' \<notin> set f"
  by (auto simp: other_files_def split: core_dependency.splits if_splits)

lemma lean_package_paths:
  assumes "derive_bindings_with schema strip = Inr package"
    and "lean_package_files pretty package root digest core = Inr jobs"
  shows "distinct (map job_path jobs)"
    and "filter (starts_with (replace_char (CHR ''.'') (CHR ''/'') root @ ''/'')) (map job_path jobs) =
      map lean_module_path (lean_modules package root)"
proof -
  let ?r = "replace_char (CHR ''.'') (CHR ''/'') root"
  let ?rs = "map (\<lambda>n. ?r @ ''/Resource/'' @ n @ ''.lean'') (map bi_public_name (bk_resources package))"
  let ?ds = "map (\<lambda>n. ?r @ ''/Data/'' @ n @ ''.lean'') (map bi_public_name (bk_data_sources package))"
  note names = derived_names[OF assms(1)]
  have modules: "map lean_module_path (lean_modules package root) = (?r @ ''/Provider.lean'') # ?rs @ ?ds"
    using names(3) by (auto simp: lean_modules_def lean_provider_path lean_item_path)
  have root: "lean_module_path root = ?r @ ''.lean''" by (simp add: lean_module_path_def)
  have "distinct ?rs" "distinct ?ds"
    using names(1,2) unfolding distinct_map[of "\<lambda>n. ?r @ _ @ n @ ''.lean''"] by (auto simp: inj_on_def)
  then have "distinct ((?r @ ''/Provider.lean'') # ?rs @ ?ds @ [?r @ ''.lean''])" by auto
  moreover have "set ((?r @ ''/Provider.lean'') # ?rs @ ?ds @ [?r @ ''.lean'']) \<inter> set (other_files core) = {}"
    using other_not_lean[of "?r @ ''/Provider''" core] other_not_lean[of "?r @ ''/Resource/'' @ _" core]
      other_not_lean[of "?r @ ''/Data/'' @ _" core] other_not_lean[of ?r core] by auto
  moreover have "distinct (other_files core)" by (simp add: other_files_def split: core_dependency.splits)
  ultimately show "distinct (map job_path jobs)" by (auto simp: lean_paths[OF assms(2)] modules root)
  have below: "starts_with (?r @ ''/'') (?r @ t) \<longleftrightarrow> (\<exists>u. t = CHR ''/'' # u)" for t by (auto simp: starts_with_iff)
  have others: "\<not> starts_with (?r @ ''/'') f" if "f \<in> set (other_files core)" for f
    using other_no_slash[OF that] by (auto simp: starts_with_iff)
  show "filter (starts_with (?r @ ''/'')) (map job_path jobs) = map lean_module_path (lean_modules package root)"
    using others by (simp add: lean_paths[OF assms(2)] modules root below)
qed

section \<open>Properties\<close>

text \<open>C11. Collecting the nested types of a module never runs into the panics of the code: with fewer
  than $2^{32}$ paths no node number overflows, there is at most one node for each path, and the
  type of every object-typed field, of the item and of every nested type, is found when the
  declarations are rendered.\<close>

theorem lean_shapes_found:
  "case shapes_collect fs reserved of
     None \<Rightarrow> 2 ^ 32 \<le> path_count fs
   | Some s \<Rightarrow>
       length (sh_declared s) \<le> 1 + path_count fs \<and> found_at s ROOT fs \<and>
       list_all (\<lambda>e. found_at s (nt_node e) (nt_fields e)) (sh_entries s)"
proof (cases "shapes_collect fs reserved")
  case None
  with collect_counted[of fs reserved] show ?thesis by auto
next
  case (Some s)
  with collect_counted[of fs reserved] collect_found[OF Some] show ?thesis
    by (auto simp: all_found_def list_all_length)
qed


definition text_field :: "string \<Rightarrow> binding_field" where
  "text_field name = BindingField name name BindString True False False False False False None None None"

definition block_of :: "string \<Rightarrow> u64 option \<Rightarrow> fields_list \<Rightarrow> binding_field" where
  "block_of name low fs = BindingField name name (BindList (BindObject fs)) False True False False True False None low None"

definition sample_fields :: fields_list where
  "sample_fields = [text_field ''name'', block_of ''disk'' (Some 1) [text_field ''size''], block_of ''mirror'' None [text_field ''size'']]"

lemma sample_collected: "shapes_collect sample_fields [''Server''] = Some (the (shapes_collect sample_fields [''Server'']))"
proof -
  have "shapes_collect sample_fields [''Server''] \<noteq> None" by code_simp
  then show ?thesis by simp
qed





text \<open>C12. The documentation of a field is one Lean comment: whatever the descriptions in the schema
  say, nothing between its delimiters opens or closes a comment.\<close>

theorem lean_docs_contained:
  assumes "list_all (\<lambda>c. list_all is_ascii_alphanumeric (bf_public_name c))
      (case object_fields (bf_type field) of None \<Rightarrow> [] | Some fs \<Rightarrow> fs)"
  shows "write_field_documentation field ''  '' = [] \<or>
    (\<exists>body. write_field_documentation field ''  '' = ''  /-- '' @ body @ '' -/'' @ nl \<and> plain_doc body)"
  using field_doc_plain[of field "''  ''"] assms by (auto simp: list_all_iff)

lemma lean_docs_contained_witness:
  "\<exists>field. has_description field \<and> (write_field_documentation field ''  '' = [] \<or>
    (\<exists>body. write_field_documentation field ''  '' = ''  /-- '' @ body @ '' -/'' @ nl \<and> plain_doc body))"
proof -
  let ?f = "BindingField ''a'' ''a'' BindString True False False False False False (Some ''ends -/ here'') None None"
  have "has_description ?f" by code_simp
  moreover have "write_field_documentation ?f ''  '' = [] \<or>
    (\<exists>body. write_field_documentation ?f ''  '' = ''  /-- '' @ body @ '' -/'' @ nl \<and> plain_doc body)"
    by (rule lean_docs_contained) simp
  ultimately show ?thesis by blast
qed

text \<open>C14. The files of a Lean package generated from derived bindings have different paths, and the
  modules its root imports are exactly the files below the root's directory.\<close>

theorem lean_package_complete:
  assumes "derive_bindings_with schema strip = Inr package"
    and "lean_package_files pretty package root digest core = Inr jobs"
  shows "distinct (map job_path jobs) \<and>
    (\<exists>modules. lean_text_job (lean_module_path root)
        (header_comment (bk_provider package) @ concat (map (\<lambda>module. ''import '' @ module @ nl) modules)) \<in> set jobs \<and>
      filter (starts_with (replace_char (CHR ''.'') (CHR ''/'') root @ ''/'')) (map job_path jobs) =
        map lean_module_path modules)"
proof -
  have "lean_text_job (lean_module_path root)
      (header_comment (bk_provider package) @ concat (map (\<lambda>module. ''import '' @ module @ nl) (lean_modules package root)))
    \<in> set jobs"
    using assms(2) by (auto simp: lean_package_files_def lean_modules_def Let_def split: if_splits)
  with lean_package_paths[OF assms] show ?thesis by blast
qed

lemma lean_package_complete_witness:
  "distinct (map job_path (projr (lean_package_files (\<lambda>_. []) (projr (derive_bindings_with sample_provider None)) ''Demo'' ''abc''
     (CorePath ''../lean''))))"
proof -
  have "is_ok (derive_bindings_with sample_provider None)"
    by (simp only: derive_bindings_ok) code_simp
  then have package: "derive_bindings_with sample_provider None = Inr (projr (derive_bindings_with sample_provider None))"
    by (auto elim!: is_okE)
  have "lean_valid_module_root ''Demo''" by code_simp
  then have files: "lean_package_files (\<lambda>_. []) p ''Demo'' d c = Inr (projr (lean_package_files (\<lambda>_. []) p ''Demo'' d c))" for p d c
    by (simp add: lean_package_files_def Let_def)
  show ?thesis using lean_package_complete[OF package files] by blast
qed

section \<open>Names that clash\<close>

text \<open>
  Facts about the generator as it is. Different block paths can give one type name, which is then
  declared twice; a nested attribute called \<open>names\<close> is a projection with the name of the record
  of attribute names; \<open>blocksInRange\<close>, which is generated for argument records, is not reserved.
\<close>

definition lean_single :: "string \<Rightarrow> fields_list \<Rightarrow> binding_field" where
  "lean_single name fs = BindingField name name (BindObject fs) False True False False True False None None None"

lemma lean_names_clash:
  "map nt_name (sh_entries (the (shapes_collect
     [lean_single ''node'' [lean_single ''poolTaint'' [text_field ''key'']],
      lean_single ''nodePool'' [lean_single ''taint'' [text_field ''value'']]] []))) =
   [''NodePoolTaint'', ''Node'', ''NodePoolTaint'', ''NodePool'']"
  by code_simp

lemma lean_names_projection_clash:
  "nt_name e @ ''Attributes.'' @ lean_field_name (text_field ''names'') [] = nt_name e @ ''Attributes.names''"
proof -
  have "lean_field_name (text_field ''names'') [] = ''names''" by code_simp
  then show ?thesis by simp
qed

lemma lean_range_name_clash: "lean_field_name (text_field ''blocksInRange'') ARGS_RESERVED = ''blocksInRange''"
  by code_simp

end
