(* ===== verification/Generate.thy ===== *)
theory Generate
  imports Project_Correct Compact_Json Provider_Schema
begin

text \<open>
  What \<open>inframe provider generate\<close> generates and from which schema: the first half of
  \<open>generate_providers\<close> and \<open>load_provider_schema\<close> of \<open>crates/cli/src/main.rs\<close>. The
  working directory, the JSON parser and the acquisition of a schema through OpenTofu are
  parameters.
\<close>

section \<open>What to generate\<close>

record generate_args =
  ga_provider :: "string option"
  ga_source :: "string option"
  ga_version :: "string option"
  ga_module_root :: "string option"
  ga_output :: "string option"
  ga_strip_prefix :: "string option"
  ga_schema_json :: "string option"
  ga_frontend :: "frontend option"

datatype generate_error =
    ProjectRejected project_error
  | PassFrontend
  | SelectOneProvider
  | OutputNeedsFrontend

definition from_project :: "'a checked \<Rightarrow> (generate_error, 'a) result" where
  "from_project r = (case r of Inl e \<Rightarrow> Inl (ProjectRejected e) | Inr x \<Rightarrow> Inr x)"

lemma from_project_simps [simp]: "from_project (Inl e) = Inl (ProjectRejected e)" "from_project (Inr x) = Inr x"
  by (simp_all add: from_project_def)

lemma from_project_ok [simp]: "from_project r = Inr x \<longleftrightarrow> r = Inr x"
  by (cases r) simp_all

definition provider_name :: "string \<Rightarrow> string" where
  "provider_name source = rsplit_last (CHR ''/'') source"

text \<open>\<open>pascal_case\<close> of \<open>main.rs\<close>, written as that of \<open>project.rs\<close>.\<close>

definition main_pascal_case :: "string \<Rightarrow> string" where
  "main_pascal_case value =
     concat (map capitalized
       (filter (\<lambda>part. part \<noteq> []) (split_where (\<lambda>c. \<not> is_ascii_alphanumeric c) value)))"

lemma main_pascal_case_agrees: "main_pascal_case value = cli_pascal_case value"
  by (simp add: main_pascal_case_def cli_pascal_case_def)

definition default_core :: core_dependency where
  "default_core = CoreGit INFRAME_REPOSITORY ''main'' (Some ''lean'')"

text \<open>The frontend and the target of a provider named by \<open>--source\<close> and \<open>--version\<close>.\<close>

definition explicit_frontend :: "project option \<Rightarrow> generate_args \<Rightarrow> (generate_error, frontend) result" where
  "explicit_frontend configured args =
     (case ga_frontend args of
        Some frontend \<Rightarrow> Inr frontend
      | None \<Rightarrow>
          (case configured of
             None \<Rightarrow> Inr PureScript
           | Some project \<Rightarrow>
               (case frontends project of [frontend] \<Rightarrow> Inr frontend | _ \<Rightarrow> Inl PassFrontend)))"

definition explicit_output :: "project option \<Rightarrow> generate_args \<Rightarrow> frontend \<Rightarrow> string \<Rightarrow> string" where
  "explicit_output configured args frontend name =
     (case ga_output args of
        Some out \<Rightarrow> out
      | None \<Rightarrow>
          (case configured of
             Some project \<Rightarrow> default_provider_output project frontend name
           | None \<Rightarrow>
               path_join (case frontend of PureScript \<Rightarrow> ''purescript/.generated'' | Lean \<Rightarrow> ''lean/.generated'') name))"

definition explicit_core ::
  "string \<Rightarrow> project option \<Rightarrow> frontend \<Rightarrow> string \<Rightarrow> (generate_error, core_dependency option) result" where
  "explicit_core cwd configured frontend out =
     (case frontend of
        PureScript \<Rightarrow> Inr None
      | Lean \<Rightarrow>
          (case configured of
             None \<Rightarrow> Inr (Some default_core)
           | Some project \<Rightarrow>
               if List.member (frontends project) Lean
               then and_then (from_project (lean_core_dependency cwd project out)) (\<lambda>core. Inr (Some core))
               else Inr (Some default_core)))"

definition explicit_generation ::
  "string \<Rightarrow> project option \<Rightarrow> generate_args \<Rightarrow> string \<Rightarrow> string \<Rightarrow> (generate_error, provider_generation) result" where
  "explicit_generation cwd configured args source version =
     (let name = (case ga_provider args of None \<Rightarrow> provider_name source | Some name \<Rightarrow> name) in
      and_then (explicit_frontend configured args) (\<lambda>frontend.
      let out = explicit_output configured args frontend name in
      and_then (explicit_core cwd configured frontend out) (\<lambda>core.
      Inr \<lparr>pg_name = name, pg_source = source, pg_version = version, pg_strip_prefix = None,
        pg_targets = [\<lparr>ft_frontend = frontend,
          ft_module_root = (case ga_module_root args of None \<Rightarrow> main_pascal_case name | Some root \<Rightarrow> root),
          ft_output = out, ft_lean_core = core\<rparr>]\<rparr>)))"

text \<open>The generations before the overrides; \<open>reload\<close> is what loading a missing project file returns.\<close>

definition chosen_generations ::
  "string \<Rightarrow> project option \<Rightarrow> project checked \<Rightarrow> generate_args \<Rightarrow> (generate_error, provider_generation list) result" where
  "chosen_generations cwd configured reload args =
     (case (ga_source args, ga_version args) of
        (Some source, Some version) \<Rightarrow>
          and_then (explicit_generation cwd configured args source version) (\<lambda>generation. Inr [generation])
      | _ \<Rightarrow>
          and_then (case configured of Some project \<Rightarrow> Inr project | None \<Rightarrow> from_project reload) (\<lambda>project.
          from_project (provider_generations cwd project (ga_provider args) (ga_frontend args))))"

definition override_output ::
  "string \<Rightarrow> project option \<Rightarrow> string \<Rightarrow> frontend_target list \<Rightarrow> (generate_error, frontend_target list) result" where
  "override_output cwd configured out targets =
     (case targets of
        [target] \<Rightarrow>
          and_then
            (case (ft_frontend target, configured) of
               (Lean, Some project) \<Rightarrow>
                 and_then (from_project (lean_core_dependency cwd project out)) (\<lambda>core. Inr (Some core))
             | _ \<Rightarrow> Inr (ft_lean_core target))
            (\<lambda>core. Inr [target\<lparr>ft_lean_core := core, ft_output := out\<rparr>])
      | _ \<Rightarrow> Inl OutputNeedsFrontend)"

text \<open>The options of the command line replace those of the first generation, which is then the only one.\<close>

definition override_first ::
  "string \<Rightarrow> project option \<Rightarrow> generate_args \<Rightarrow> provider_generation \<Rightarrow> (generate_error, provider_generation) result" where
  "override_first cwd configured args generation =
     (let generation = (case ga_strip_prefix args of
            None \<Rightarrow> generation | Some prefix \<Rightarrow> generation\<lparr>pg_strip_prefix := Some prefix\<rparr>);
          generation = (case ga_module_root args of
            None \<Rightarrow> generation
          | Some root \<Rightarrow> generation\<lparr>pg_targets := map (\<lambda>target. target\<lparr>ft_module_root := root\<rparr>) (pg_targets generation)\<rparr>)
      in case ga_output args of
           None \<Rightarrow> Inr generation
         | Some out \<Rightarrow>
             and_then (override_output cwd configured out (pg_targets generation)) (\<lambda>targets.
             Inr (generation\<lparr>pg_targets := targets\<rparr>)))"

definition select_generations ::
  "string \<Rightarrow> project option \<Rightarrow> project checked \<Rightarrow> generate_args \<Rightarrow> (generate_error, provider_generation list) result" where
  "select_generations cwd configured reload args =
     and_then (chosen_generations cwd configured reload args) (\<lambda>generations.
     and_then
       (fail_if (1 < length generations \<and>
           (ga_module_root args \<noteq> None \<or> ga_output args \<noteq> None \<or> ga_schema_json args \<noteq> None \<or>
            ga_strip_prefix args \<noteq> None))
         SelectOneProvider)
       (\<lambda>_.
     case generations of
       [] \<Rightarrow> Inr []
     | first # rest \<Rightarrow>
         and_then (override_first cwd configured args first) (\<lambda>first. Inr (first # rest))))"

section \<open>The schema\<close>

datatype schema_error =
    FixtureUnreadable
  | FixtureRejected normalize_error
  | FixtureIdentifies string string

text \<open>
  \<open>calls\<close> is what the reader of the fixture delivers, \<open>original\<close> what reading the file again
  returns. \<open>None\<close> is a panic of the reader of schemas, which does not occur.
\<close>

definition schema_of_file :: "provider_request \<Rightarrow> schema_file \<Rightarrow> (schema_error, provider_schema) result" where
  "schema_of_file request schema_file =
     (case schema_file of
        NormalizedFile schema \<Rightarrow>
          if ps_source schema \<noteq> req_source request \<or> ps_version schema \<noteq> req_version request
          then Inl (FixtureIdentifies (ps_source schema) (ps_version schema)) else Inr schema
      | RawFile schema \<Rightarrow> Inr schema)"

definition reported :: "schema_file normalized option \<Rightarrow> (schema_error, schema_file) result option" where
  "reported r = map_option (\<lambda>r. case r of Inl e \<Rightarrow> Inl (FixtureRejected e) | Inr schema \<Rightarrow> Inr schema) r"

definition load_fixture ::
  "(string \<Rightarrow> doc option) \<Rightarrow> (string \<Rightarrow> provider_schema option) \<Rightarrow> provider_request \<Rightarrow> 'e read_call list \<Rightarrow>
     ('e, string) result \<Rightarrow> (schema_error, provider_schema) result option" where
  "load_fixture parse derived request calls original =
     (case read_compact_json calls of
        Inl _ \<Rightarrow> Some (Inl FixtureUnreadable)
      | Inr bytes \<Rightarrow>
          (case read_schema_file parse derived bytes request of
             Some (Inr schema) \<Rightarrow> Some (schema_of_file request schema)
           | None \<Rightarrow> None
           | Some (Inl _) \<Rightarrow>
               (case original of
                  Inl _ \<Rightarrow> Some (Inl FixtureUnreadable)
                | Inr written \<Rightarrow>
                    map_option (\<lambda>r. and_then r (schema_of_file request))
                      (reported (read_schema_file parse derived written request)))))"

section \<open>Targets\<close>

text \<open>A Lean target has the core library its package requires, a PureScript target has none.\<close>

definition core_matches :: "frontend_target \<Rightarrow> bool" where
  "core_matches target \<longleftrightarrow> (ft_frontend target = Lean \<longleftrightarrow> ft_lean_core target \<noteq> None)"

definition generation_matches :: "provider_generation \<Rightarrow> bool" where
  "generation_matches generation \<longleftrightarrow> list_all core_matches (pg_targets generation)"

lemma frontend_target_matches: "frontend_target_of cwd project name provider root f = Inr target \<Longrightarrow> core_matches target"
  by (cases f) (auto simp: frontend_target_of_def core_matches_def Let_def result_simps)

lemma provider_generations_match:
  assumes "provider_generations cwd project selected f = Inr generations"
  shows "list_all generation_matches generations"
proof -
  have one: "generation_matches generation"
    if "generation_of cwd project chosen entry = Inr generation" for chosen entry generation
  proof -
    from that obtain targets root where
      targets: "try_map (frontend_target_of cwd project (fst entry) (snd entry) root) chosen = Inr targets"
      and "pg_targets generation = targets"
      by (auto simp: generation_of_def case_prod_beta Let_def and_then_ok)
    moreover from targets have "list_all core_matches targets" by (rule try_map_all) (rule frontend_target_matches)
    ultimately show ?thesis by (simp add: generation_matches_def)
  qed
  from assms obtain chosen providers where "try_map (generation_of cwd project chosen) providers = Inr generations"
    by (auto simp: provider_generations_def and_then_ok Let_def)
  then show ?thesis by (rule try_map_all) (rule one)
qed

lemma chosen_generations_match:
  assumes "chosen_generations cwd configured reload args = Inr generations"
  shows "list_all generation_matches generations"
proof (cases "ga_source args = None \<or> ga_version args = None")
  case True
  with assms obtain project where "provider_generations cwd project (ga_provider args) (ga_frontend args) = Inr generations"
    by (auto simp: chosen_generations_def and_then_ok split: option.splits)
  then show ?thesis by (rule provider_generations_match)
next
  case False
  with assms obtain source version generation where
    g: "explicit_generation cwd configured args source version = Inr generation" and gs: "generations = [generation]"
    by (auto simp: chosen_generations_def and_then_ok)
  have core: "f = Lean \<longleftrightarrow> core \<noteq> None" if "explicit_core cwd configured f out = Inr core" for f out core
    using that by (auto simp: explicit_core_def and_then_ok split: frontend.splits option.splits if_splits)
  from g obtain f core where "explicit_core cwd configured f
      (explicit_output configured args f (case ga_provider args of None \<Rightarrow> provider_name source | Some name \<Rightarrow> name)) = Inr core"
    and "\<exists>root out. pg_targets generation =
      [\<lparr>ft_frontend = f, ft_module_root = root, ft_output = out, ft_lean_core = core\<rparr>]"
    by (auto simp: explicit_generation_def and_then_ok Let_def)
  with core show ?thesis by (auto simp: gs generation_matches_def core_matches_def)
qed

lemma override_first_matches:
  assumes "override_first cwd configured args generation = Inr generation'" and "generation_matches generation"
  shows "generation_matches generation'"
proof -
  define renamed where "renamed = (case ga_module_root args of
      None \<Rightarrow> pg_targets generation
    | Some root \<Rightarrow> map (\<lambda>target. target\<lparr>ft_module_root := root\<rparr>) (pg_targets generation))"
  have ok: "list_all core_matches renamed"
    using assms(2) by (auto simp: renamed_def generation_matches_def core_matches_def list_all_iff split: option.splits)
  show ?thesis
  proof (cases "ga_output args")
    case None
    with assms(1) have "pg_targets generation' = renamed"
      by (auto simp: override_first_def renamed_def Let_def split: option.splits)
    with ok show ?thesis by (simp add: generation_matches_def)
  next
    case (Some out)
    with assms(1) have "override_output cwd configured out renamed = Inr (pg_targets generation')"
      by (auto simp: override_first_def renamed_def Let_def and_then_ok split: option.splits)
    with ok show ?thesis
      by (auto simp: override_output_def generation_matches_def core_matches_def and_then_ok
          split: list.splits frontend.splits option.splits dest!: sym[of "[_]"])
  qed
qed

lemma select_generations_match:
  assumes "select_generations cwd configured reload args = Inr generations"
  shows "list_all generation_matches generations"
proof -
  from assms obtain chosen where chosen: "chosen_generations cwd configured reload args = Inr chosen"
    and rest: "chosen = [] \<and> generations = [] \<or> (\<exists>first first' more. chosen = first # more \<and>
      override_first cwd configured args first = Inr first' \<and> generations = first' # more)"
    by (cases "projr (chosen_generations cwd configured reload args)")
      (auto simp: select_generations_def and_then_ok)
  from chosen_generations_match[OF chosen] rest show ?thesis using override_first_matches by auto
qed

section \<open>Properties\<close>

text \<open>C26. Whatever is configured and overridden on the command line, each target that is generated
  for Lean has the dependency on the core library its lakefile needs and no PureScript target
  has one, so writing a target never stops for a missing one.\<close>

theorem lean_targets_have_core:
  assumes "select_generations cwd configured reload args = Inr generations"
  shows "list_all (\<lambda>generation. list_all (\<lambda>target. ft_frontend target = Lean \<longleftrightarrow> ft_lean_core target \<noteq> None)
    (pg_targets generation)) generations"
  using select_generations_match[OF assms] unfolding generation_matches_def core_matches_def .

definition sample_generate :: generate_args where
  "sample_generate =
     \<lparr>ga_provider = None, ga_source = Some ''acme/demo'', ga_version = Some ''1.2.0'', ga_module_root = None,
      ga_output = None, ga_strip_prefix = None, ga_schema_json = None, ga_frontend = Some Lean\<rparr>"

definition sample_generation :: provider_generation where
  "sample_generation =
     \<lparr>pg_name = ''demo'', pg_source = ''acme/demo'', pg_version = ''1.2.0'', pg_strip_prefix = None,
      pg_targets = [\<lparr>ft_frontend = Lean, ft_module_root = ''Demo'', ft_output = ''lean/.generated/demo'',
        ft_lean_core = Some default_core\<rparr>]\<rparr>"

lemma sample_selected: "select_generations ''/work'' None (Inl NoFrontend) sample_generate = Inr [sample_generation]"
  by code_simp

lemma lean_targets_have_core_witness:
  "list_all (\<lambda>target. ft_frontend target = Lean \<longleftrightarrow> ft_lean_core target \<noteq> None) (pg_targets sample_generation)"
  using lean_targets_have_core[OF sample_selected] by simp

text \<open>
  The output directory given on the command line makes a target fail that is generated without
  it: the first choice of the core library allows for a project without a Lean frontend, the one
  made again for the new directory does not.
\<close>

lemma output_needs_lean_config:
  assumes "cf_lean (pj_config project) = None" and "ga_frontend args = Some Lean"
    and "ga_source args = Some source" and "ga_version args = Some version"
  shows "is_ok (select_generations cwd (Some project) reload (args\<lparr>ga_output := None\<rparr>))"
    and "select_generations cwd (Some project) reload (args\<lparr>ga_output := Some out\<rparr>) =
      Inl (ProjectRejected (MissingFrontend Lean))"
proof -
  have "\<not> List.member (frontends project) Lean" using assms(1) by (simp add: frontends_def)
  then have core: "explicit_core cwd (Some project) Lean directory = Inr (Some default_core)" for directory
    by (simp add: explicit_core_def)
  have missing: "lean_core_dependency cwd project directory = Inl (MissingFrontend Lean)" for directory
    using assms(1) by (simp add: lean_core_dependency_def)
  note defs = select_generations_def chosen_generations_def explicit_generation_def explicit_frontend_def
    override_first_def override_output_def Let_def
  show "is_ok (select_generations cwd (Some project) reload (args\<lparr>ga_output := None\<rparr>))"
    using assms(2-4) by (simp add: defs core)
  show "select_generations cwd (Some project) reload (args\<lparr>ga_output := Some out\<rparr>) =
      Inl (ProjectRejected (MissingFrontend Lean))"
    using assms(2-4) by (auto simp: defs core missing fail_if_def split: option.splits)
qed

text \<open>A schema fixture is read without its spaces first, and again as written only when that
  fails: the schema or the error is the one the file as written gives, for every parser that
  sees the tokens of a document and not the spaces between them.\<close>

lemma fixture_read_as_written:
  assumes "\<And>a b. json_tokens a = json_tokens b \<Longrightarrow> parse a = parse b"
    and "\<And>a b. json_tokens a = json_tokens b \<Longrightarrow> derived a = derived b"
    and "read_all calls = Inr written"
  shows "load_fixture parse derived request calls (Inr written) =
    map_option (\<lambda>r. and_then r (schema_of_file request)) (reported (read_schema_file parse derived written request))"
proof -
  from read_compact_tokens[of calls] assms(3) obtain out where out: "read_compact_json calls = Inr out"
    "json_tokens out = json_tokens written" by (auto split: sum.splits)
  have same: "read_schema_file parse derived out request = read_schema_file parse derived written request"
    unfolding read_schema_file_def decode_def normalize_schema_def assms(1)[OF out(2)] assms(2)[OF out(2)] ..
  then show ?thesis
    by (auto simp: load_fixture_def out(1) reported_def split: option.splits sum.splits)
qed

definition sample_fixture_request :: provider_request where
  "sample_fixture_request = \<lparr>req_source = ''acme/demo'', req_version = ''1.2.0''\<rparr>"

definition token_parser :: "string \<Rightarrow> doc option" where
  "token_parser s = (if json_tokens s = [''{'', ''}''] then Some (DObject []) else None)"

lemma fixture_read_as_written_witness:
  "load_fixture token_parser (\<lambda>_. None) sample_fixture_request [Chunk ''{ '', Chunk '' }''] (Inr ''{  }'' :: (unit, string) result) =
     map_option (\<lambda>r. and_then r (schema_of_file sample_fixture_request))
       (reported (read_schema_file token_parser (\<lambda>_. None) ''{  }'' sample_fixture_request))"
  by (rule fixture_read_as_written) (simp_all add: token_parser_def read_all_def)

end
