(* ===== verification/Graph_Commands.thy ===== *)
theory Graph_Commands
  imports Cli_Run Inspect
begin

text \<open>
  The commands of \<open>crates/cli/src/main.rs\<close> that read a graph without deploying it, and the
  creation of a project file.
\<close>

section \<open>Choosing a graph\<close>

record graph_path_args =
  gp_graph :: "string option"
  gp_stack :: "string option"
  gp_no_build :: bool

definition warn_if_stale :: "host \<Rightarrow> project \<Rightarrow> string \<Rightarrow> string \<Rightarrow> (failure, unit) action" where
  "warn_if_stale H project name artifact =
     (case stack_source_directory project name of
        Inl _ \<Rightarrow> give ()
      | Inr sources \<Rightarrow>
          bind_action (modified_time H artifact) (\<lambda>built.
          bind_action (walk_directory H sources) (\<lambda>tree.
          case (built, newest_source_mtime tree) of
            (Some built, Some newest) \<Rightarrow>
              say_if (built < newest)
                (Warned (''warning: sources under '' @ sources @ '' changed after '' @ artifact @
                  '' was built; drop --no-build to rebuild stack '' @ ticked name))
          | _ \<Rightarrow> give ())))"

text \<open>An error of an action, read as another one.\<close>

definition with_context :: "('e \<Rightarrow> 'f) \<Rightarrow> ('e, 'a) action \<Rightarrow> ('f, 'a) action" where
  "with_context f m h = (case m h of (Inl e, h) \<Rightarrow> (Inl (f e), h) | (Inr x, h) \<Rightarrow> (Inr x, h))"

definition read_built ::
  "host \<Rightarrow> library \<Rightarrow> project \<Rightarrow> string \<Rightarrow> (failure, graph_document) action" where
  "read_built H L project name =
     bind_action (checked (stack project name)) (\<lambda>_.
     let path = graph_path project name in
     bind_action (with_context (NoBuiltGraph name) (read_graph H L path)) (\<lambda>g.
     bind_action (warn_if_stale H project name path) (\<lambda>_.
     give g)))"

definition read_selected_graph ::
  "host \<Rightarrow> library \<Rightarrow> graph_path_args \<Rightarrow> string \<Rightarrow> (failure, graph_document) action" where
  "read_selected_graph H L args project_path =
     (case gp_graph args of
        Some path \<Rightarrow> read_graph H L path
      | None \<Rightarrow>
          (case gp_stack args of
             None \<Rightarrow> raise_error NothingSelected
           | Some name \<Rightarrow>
               bind_action (load_project H L project_path) (\<lambda>project.
               if gp_no_build args then read_built H L project name
               else
                 bind_action (build H L project name None) (\<lambda>(g, path).
                 bind_action (say (Warned (''built stack '' @ ticked name @ '' to '' @ path))) (\<lambda>_.
                 give g)))))"

section \<open>Commands\<close>

datatype graph_command =
    GraphValidate graph_path_args
  | GraphInspect graph_path_args
  | GraphSchema string

text \<open>\<open>schema\<close> is the JSON Schema that schemars derives.\<close>

definition run_graph_command ::
  "host \<Rightarrow> library \<Rightarrow> json \<Rightarrow> graph_command \<Rightarrow> string \<Rightarrow> (failure, unit) action" where
  "run_graph_command H L schema command project_path =
     (case command of
        GraphValidate args \<Rightarrow>
          bind_action (read_selected_graph H L args project_path) (\<lambda>g.
          bind_action (lift_result GraphInvalid (validate g)) (\<lambda>_.
          say (Printed (''valid Graph IR '' @ format_version g @ nl))))
      | GraphInspect args \<Rightarrow>
          bind_action (read_selected_graph H L args project_path) (\<lambda>g.
          bind_action (lift_result GraphInvalid (inspect (lib_string L) g)) (\<lambda>text.
          say (Printed text)))
      | GraphSchema out \<Rightarrow> write_text H out (lib_pretty L schema @ nl))"

section \<open>A project file\<close>

definition PROJECT_TEMPLATE :: string where
  "PROJECT_TEMPLATE = text_of_lines
     [''[purescript]'',
      ''directory = \"purescript\"'',
      ''package = \"my-infrastructure\"'',
      ''main = \"Main\"'',
      [],
      ''# Or write stacks in Lean 4. `main` and `test` name Lake executables (`lake exe <name>`).'',
      ''# [lean]'',
      ''# directory = \"lean\"'',
      ''# main = \"infra\"'',
      ''# test = \"infra-test\"'',
      ''# core = { git = \"https://github.com/by77er/inframe\", rev = \"main\", subdir = \"lean\" }'',
      [],
      ''[providers.digitalocean]'',
      ''source = \"digitalocean/digitalocean\"'',
      ''version = \"2.100.0\"'',
      ''module_root = \"DigitalOcean\"'',
      [],
      ''[workspace]'',
      ''directory = \".inframe\"'',
      ''graph_directory = \".inframe/graphs\"'',
      [],
      ''[stacks.dev.backend]'',
      ''type = \"local\"'',
      [],
      ''# A Lean stack names the statement that gates `plan` and `apply`: Inframe proves (or, without'',
      ''# `proof`, evaluates) `Inframe.Gated policy program` and refuses `sorry`, `native_decide`, and'',
      ''# `implemented_by`.'',
      ''# [stacks.dev.gate]'',
      ''# module = \"Infra.Test\"'',
      ''# program = \"infrastructure\"'',
      ''# policy = \"policies\"'',
      ''# proof = \"infrastructure_gated\"'']"

definition initialize :: "host \<Rightarrow> string \<Rightarrow> (failure, unit) action" where
  "initialize H path =
     bind_action (path_exists H path) (\<lambda>exists.
     if exists then raise_error (AlreadyExists path)
     else
       bind_action (create_parent H path) (\<lambda>_.
       demand (FileFailed path) (write_file H path PROJECT_TEMPLATE)))"

definition project_init :: "host \<Rightarrow> string \<Rightarrow> (failure, unit) action" where
  "project_init H path =
     bind_action (initialize H path) (\<lambda>_.
     say (Printed (''created '' @ path @ nl)))"

end
