(* ===== verification/Acquire.thy ===== *)
theory Acquire
  imports Provider_Schema Project_Run
begin

text \<open>
  \<open>SchemaAcquirer\<close> of \<open>crates/provider-schema/src/lib.rs\<close>: the schema of a provider as OpenTofu
  prints it in a temporary directory whose configuration requires that provider, and the texts
  of a schema.
\<close>

text \<open>The code that is not in the repository: JSON texts, the derived decoder, and the hash.\<close>

record generator =
  gl_parse :: "string \<Rightarrow> doc option"
  gl_derived :: "string \<Rightarrow> provider_schema option"
  gl_compact :: "doc \<Rightarrow> (string, string) result"
  gl_pretty :: "doc \<Rightarrow> string"
  gl_hash :: "string \<Rightarrow> string"

text \<open>\<open>ProviderSchema\<close>: its canonical text, and the hexadecimal hash of its compact text.\<close>

definition canonical_json :: "generator \<Rightarrow> provider_schema \<Rightarrow> string" where
  "canonical_json G schema = gl_pretty G (encode_schema schema) @ nl"

definition schema_sha256 :: "generator \<Rightarrow> provider_schema \<Rightarrow> (string, string) result" where
  "schema_sha256 G schema = and_then (gl_compact G (encode_schema schema)) (\<lambda>text. Inr (gl_hash G text))"

section \<open>Errors\<close>

datatype acquire_error =
    AcquireIo io_error
  | AcquireSpawn string io_error
  | AcquireExit string string
  | AcquireNormalize normalize_error

section \<open>Acquiring a schema\<close>

definition bootstrap :: "provider_request \<Rightarrow> json" where
  "bootstrap request =
     JObject [(''terraform'', JObject [(''required_providers'', JObject [(local_name request, JObject
       [(''source'', JString (req_source request)), (''version'', JString (''= '' @ req_version request))])])])]"

definition write_bootstrap :: "host \<Rightarrow> library \<Rightarrow> string \<Rightarrow> provider_request \<Rightarrow> (acquire_error, unit) action" where
  "write_bootstrap H L directory request =
     demand AcquireIo (write_file H (path_join directory ''main.tofu.json'') (lib_pretty L (bootstrap request)))"

definition acquire_output :: "host \<Rightarrow> string \<Rightarrow> string \<Rightarrow> string list \<Rightarrow> (acquire_error, string) action" where
  "acquire_output H binary directory args =
     bind_action
       (demand (AcquireSpawn binary)
         (run_tofu H \<lparr>cm_program = binary, cm_args = args, cm_directory = directory, cm_environment = []\<rparr>))
       (\<lambda>out. if success (po_status out) then give (po_stdout out)
         else raise_error (AcquireExit (join '' '' args) (po_stderr out)))"

text \<open>\<open>None\<close> is a panic of the reader of schemas.\<close>

definition acquire ::
  "host \<Rightarrow> library \<Rightarrow> generator \<Rightarrow> string \<Rightarrow> provider_request \<Rightarrow> (acquire_error, provider_schema option) action" where
  "acquire H L G binary request =
     bind_action (demand AcquireIo (create_workspace H)) (\<lambda>directory.
     bind_action (write_bootstrap H L directory request) (\<lambda>_.
     bind_action (acquire_output H binary directory [''init'', ''-backend=false'', ''-input=false'']) (\<lambda>_.
     bind_action (acquire_output H binary directory [''providers'', ''schema'', ''-json'']) (\<lambda>stdout.
     case normalize_schema (gl_parse G) stdout request of
       None \<Rightarrow> give None
     | Some r \<Rightarrow> lift_result AcquireNormalize (case r of Inl e \<Rightarrow> Inl e | Inr schema \<Rightarrow> Inr (Some schema))))))"

end
