(* ===== verification/Generate_Run.thy ===== *)
theory Generate_Run
  imports Generate Graph_Commands Acquire Emit_PureScript Emit_Lean
begin

text \<open>
  Obtaining a provider's schema and writing the packages generated from it: the second half of
  \<open>generate_providers\<close>, \<open>write_target\<close> and \<open>PendingDigest\<close> of \<open>crates/cli/src/main.rs\<close>. The
  files of a package are written by one request here; how its workers write them is the subject
  of \<open>Write_Files\<close>, and \<open>Written_Target\<close> relates the two.
\<close>

section \<open>Errors\<close>

text \<open>\<open>Panicked\<close> stands for a panic of the schema reader, the digest or the Lean emitter.\<close>

datatype generate_failure =
    CommandFailed failure
  | SelectionFailed generate_error
  | SchemaFailed schema_error
  | AcquireFailed acquire_error
  | DeriveFailed derive_error
  | RenderFailed frontend string
  | CoreMissing
  | PackageNotWritten string io_error
  | DigestFailed string
  | Panicked

section \<open>Loading a schema\<close>

text \<open>The calls of a reader that delivers a file at once.\<close>

definition calls_of :: "string \<Rightarrow> io_error read_call list" where
  "calls_of bytes = [Chunk bytes, Chunk []]"

definition or_panic :: "'a option \<Rightarrow> (generate_failure, 'a) action" where
  "or_panic x = (case x of None \<Rightarrow> raise_error Panicked | Some x \<Rightarrow> give x)"

definition load_schema_file ::
  "host \<Rightarrow> generator \<Rightarrow> provider_request \<Rightarrow> string \<Rightarrow> (generate_failure, provider_schema) action" where
  "load_schema_file H G request path =
     bind_action (demand (\<lambda>_. SchemaFailed FixtureUnreadable) (read_file H path)) (\<lambda>bytes.
     bind_action (lift_result (\<lambda>_. SchemaFailed FixtureUnreadable) (read_compact_json (calls_of bytes))) (\<lambda>compact.
     bind_action (or_panic (read_schema_file (gl_parse G) (gl_derived G) compact request)) (\<lambda>r.
     bind_action
       (case r of
          Inr schema_file \<Rightarrow> give schema_file
        | Inl _ \<Rightarrow>
            bind_action (demand (\<lambda>_. SchemaFailed FixtureUnreadable) (read_file H path)) (\<lambda>original.
            bind_action (or_panic (read_schema_file (gl_parse G) (gl_derived G) original request)) (\<lambda>r.
            lift_result (\<lambda>e. SchemaFailed (FixtureRejected e)) r)))
       (\<lambda>schema_file. lift_result SchemaFailed (schema_of_file request schema_file)))))"

definition load_provider_schema ::
  "host \<Rightarrow> library \<Rightarrow> generator \<Rightarrow> provider_request \<Rightarrow> string option \<Rightarrow> string \<Rightarrow>
     (generate_failure, provider_schema) action" where
  "load_provider_schema H L G request fixture binary =
     (case fixture of
        Some path \<Rightarrow> load_schema_file H G request path
      | None \<Rightarrow> bind_action (with_context AcquireFailed (acquire H L G binary request)) or_panic)"

section \<open>The digest\<close>

text \<open>
  The thread that hashes, as the result it will deliver until it is joined, and the digest once
  it is known.
\<close>

record pending_digest =
  pd_hashing :: "(string, string) result option"
  pd_digest :: "(string, string) result option"

definition pending_new :: "(string, string) result \<Rightarrow> pending_digest" where
  "pending_new hashing = \<lparr>pd_hashing = Some hashing, pd_digest = None\<rparr>"

text \<open>\<open>None\<close> is the panic of a second join.\<close>

definition digest_of :: "pending_digest \<Rightarrow> ((string, string) result \<times> pending_digest) option" where
  "digest_of waiting =
     (case pd_digest waiting of
        Some digest \<Rightarrow> Some (digest, waiting)
      | None \<Rightarrow>
          (case pd_hashing waiting of
             None \<Rightarrow> None
           | Some digest \<Rightarrow> Some (digest, \<lparr>pd_hashing = None, pd_digest = Some digest\<rparr>)))"

definition digest_check :: "pending_digest \<Rightarrow> ((string, unit) result \<times> pending_digest) option" where
  "digest_check waiting =
     map_option (\<lambda>(digest, waiting). (case digest of Inr _ \<Rightarrow> Inr () | Inl e \<Rightarrow> Inl e, waiting)) (digest_of waiting)"

definition digest_sha256 :: "pending_digest \<Rightarrow> (string \<times> pending_digest) option" where
  "digest_sha256 waiting =
     map_option (\<lambda>(digest, waiting). (case digest of Inr text \<Rightarrow> text | Inl _ \<Rightarrow> [], waiting)) (digest_of waiting)"

section \<open>Writing packages\<close>

text \<open>The files of a target, as the emitters render them.\<close>

definition target_files ::
  "library \<Rightarrow> binding_package \<Rightarrow> frontend_target \<Rightarrow> string \<Rightarrow> (generate_failure, (string \<times> string) list) result" where
  "target_files L bindings target digest =
     (case ft_frontend target of
        PureScript \<Rightarrow>
          (case package_files (lib_pretty L) bindings (ft_module_root target) digest of
             Inl (InvalidModuleRoot root) \<Rightarrow> Inl (RenderFailed PureScript root)
           | Inr jobs \<Rightarrow> Inr (map (\<lambda>job. (job_path job, job_render job)) jobs))
      | Lean \<Rightarrow>
          (case ft_lean_core target of
             None \<Rightarrow> Inl CoreMissing
           | Some core \<Rightarrow>
               (case lean_package_files (lib_pretty L) bindings (ft_module_root target) digest core of
                  Inl (InvalidLeanModuleRoot root) \<Rightarrow> Inl (RenderFailed Lean root)
                | Inr jobs \<Rightarrow>
                    (case those (map job_render jobs) of
                       None \<Rightarrow> Inl Panicked
                     | Some texts \<Rightarrow> Inr (zip (map job_path jobs) texts)))))"

definition write_target ::
  "host \<Rightarrow> library \<Rightarrow> binding_package \<Rightarrow> frontend_target \<Rightarrow> pending_digest \<Rightarrow> (generate_failure, pending_digest) action" where
  "write_target H L bindings target waiting =
     bind_action (or_panic (digest_sha256 waiting)) (\<lambda>(digest, waiting).
     bind_action (lift_result (\<lambda>e. e) (target_files L bindings target digest)) (\<lambda>files.
     bind_action (demand (PackageNotWritten (ft_output target)) (write_files_below H (ft_output target) files)) (\<lambda>_.
     give waiting)))"

fun write_targets ::
  "host \<Rightarrow> library \<Rightarrow> string \<Rightarrow> binding_package \<Rightarrow> frontend_target list \<Rightarrow> pending_digest \<Rightarrow>
     (generate_failure, pending_digest) action" where
  "write_targets H L name bindings [] waiting = give waiting"
| "write_targets H L name bindings (target # targets) waiting =
     bind_action (write_target H L bindings target waiting) (\<lambda>waiting.
     bind_action (say (Printed (''generated '' @ show_nat (length (bk_resources bindings)) @ '' resources and '' @
       show_nat (length (bk_data_sources bindings)) @ '' data sources for '' @ ticked name @ '' ('' @
       frontend_name (ft_frontend target) @ '') in '' @ ft_output target @ nl))) (\<lambda>_.
     write_targets H L name bindings targets waiting))"

definition generate_one ::
  "host \<Rightarrow> library \<Rightarrow> generator \<Rightarrow> string option \<Rightarrow> string \<Rightarrow> provider_generation \<Rightarrow> (generate_failure, unit) action" where
  "generate_one H L G fixture binary generation =
     bind_action
       (load_provider_schema H L G \<lparr>req_source = pg_source generation, req_version = pg_version generation\<rparr> fixture binary)
       (\<lambda>schema.
     bind_action (lift_result DeriveFailed (derive_bindings_with schema (pg_strip_prefix generation))) (\<lambda>bindings.
     bind_action (write_targets H L (pg_name generation) bindings (pg_targets generation) (pending_new (schema_sha256 G schema)))
       (\<lambda>waiting.
     bind_action (or_panic (digest_check waiting)) (\<lambda>(checked_digest, _).
     lift_result DigestFailed checked_digest))))"

text \<open>Loading the project once more, for the error of a missing project file.\<close>

definition reload_project :: "host \<Rightarrow> library \<Rightarrow> string \<Rightarrow> (generate_failure, project checked) action" where
  "reload_project H L path =
     bind_action (read_file H path) (\<lambda>r.
       give (load (lib_unicode L) (\<lambda>_. case r of Inl _ \<Rightarrow> None | Inr source \<Rightarrow> Some source) (lib_config L) path))"

definition generate_providers ::
  "host \<Rightarrow> library \<Rightarrow> generator \<Rightarrow> string \<Rightarrow> generate_args \<Rightarrow> string \<Rightarrow> string \<Rightarrow> (generate_failure, unit) action" where
  "generate_providers H L G cwd args project_path binary =
     bind_action (is_file H project_path) (\<lambda>exists.
     bind_action
       (if exists then
          bind_action (with_context CommandFailed (load_project H L project_path)) (\<lambda>project. give (Some project))
        else give None)
       (\<lambda>configured.
     bind_action
       (if configured = None \<and> (ga_source args = None \<or> ga_version args = None)
        then reload_project H L project_path else give (Inl NoFrontend)) (\<lambda>reload.
     bind_action (lift_result SelectionFailed (select_generations cwd configured reload args)) (\<lambda>generations.
     bind_action (each_action (generate_one H L G (ga_schema_json args) binary) generations) (\<lambda>_.
     give ())))))"

section \<open>Inspecting a provider\<close>

record provider_inspect_args =
  pi_source :: string
  pi_version :: string
  pi_schema_json :: "string option"
  pi_output :: "string option"

definition inspect_provider ::
  "host \<Rightarrow> library \<Rightarrow> generator \<Rightarrow> provider_inspect_args \<Rightarrow> string \<Rightarrow> (generate_failure, unit) action" where
  "inspect_provider H L G args binary =
     bind_action
       (load_provider_schema H L G \<lparr>req_source = pi_source args, req_version = pi_version args\<rparr> (pi_schema_json args) binary)
       (\<lambda>schema.
     bind_action (say (Printed (''provider: '' @ ps_source schema @ ''@'' @ ps_version schema @ nl))) (\<lambda>_.
     bind_action (say (Printed (''resources: '' @ show_nat (length (ps_resources schema)) @ nl))) (\<lambda>_.
     bind_action (say (Printed (''data sources: '' @ show_nat (length (ps_data_sources schema)) @ nl))) (\<lambda>_.
     bind_action (lift_result DigestFailed (schema_sha256 G schema)) (\<lambda>digest.
     bind_action (say (Printed (''sha256: '' @ digest @ nl))) (\<lambda>_.
     case pi_output args of
       None \<Rightarrow> give ()
     | Some path \<Rightarrow> with_context CommandFailed (write_text H path (canonical_json G schema))))))))"

end
