(* ===== verification/Cli_Main.thy ===== *)
theory Cli_Main
  imports Generate_Run
begin

text \<open>
  The command line of \<open>crates/cli/src/main.rs\<close>: the commands clap parses the arguments into, and
  their dispatch in \<open>main\<close>.
\<close>

section \<open>Commands\<close>

record build_args =
  ba_stack :: "string option"
  ba_all :: bool
  ba_output :: "string option"

record test_args =
  ta_stack :: "string option"
  ta_all :: bool

record render_command_args =
  re_graph :: string
  re_output :: string

record existing_stack_args =
  es_stack :: string
  es_workspace :: "string option"
  es_tofu_args :: "string list"

datatype project_command = ProjectInit

datatype provider_command = ProviderInspect provider_inspect_args | ProviderGenerate generate_args

datatype cli_command =
    ProjectCommand project_command
  | BuildCommand build_args
  | TestCommand test_args
  | ProviderCommand provider_command
  | GraphCommand graph_command
  | RenderCommand render_command_args
  | InitCommand run_args
  | ValidateCommand run_args
  | PlanCommand run_args
  | ApplyCommand run_args
  | DestroyCommand run_args
  | TofuCommand run_args
  | ShowCommand existing_stack_args
  | OutputCommand existing_stack_args

record cli =
  cli_tofu_binary :: string
  cli_project :: string
  cli_command :: cli_command

section \<open>Dispatch\<close>

definition run_provider_command ::
  "host \<Rightarrow> library \<Rightarrow> generator \<Rightarrow> string \<Rightarrow> provider_command \<Rightarrow> string \<Rightarrow> string \<Rightarrow> (generate_failure, unit) action" where
  "run_provider_command H L G cwd c project_path binary =
     (case c of
        ProviderInspect args \<Rightarrow> inspect_provider H L G args binary
      | ProviderGenerate args \<Rightarrow> generate_providers H L G cwd args project_path binary)"

text \<open>The commands that do not generate bindings.\<close>

definition run_command :: "host \<Rightarrow> library \<Rightarrow> json \<Rightarrow> cli_command \<Rightarrow> string \<Rightarrow> string \<Rightarrow> (failure, unit) action" where
  "run_command H L schema c project_path binary =
     (case c of
        ProjectCommand ProjectInit \<Rightarrow> project_init H project_path
      | BuildCommand args \<Rightarrow> build_project H L (ba_stack args) (ba_output args) project_path
      | TestCommand args \<Rightarrow> test_project H L (ta_stack args) project_path
      | ProviderCommand _ \<Rightarrow> give ()
      | GraphCommand c \<Rightarrow> run_graph_command H L schema c project_path
      | RenderCommand args \<Rightarrow> render H L (re_graph args) (re_output args)
      | InitCommand args \<Rightarrow> run_lifecycle H L ''init'' args project_path binary
      | ValidateCommand args \<Rightarrow> run_lifecycle H L ''validate'' args project_path binary
      | PlanCommand args \<Rightarrow> run_lifecycle H L ''plan'' args project_path binary
      | ApplyCommand args \<Rightarrow> run_lifecycle H L ''apply'' args project_path binary
      | DestroyCommand args \<Rightarrow> run_lifecycle H L ''destroy'' args project_path binary
      | TofuCommand args \<Rightarrow> run_any H L args project_path binary
      | ShowCommand args \<Rightarrow>
          run_existing_json H L ''show'' (es_stack args) (es_workspace args) (es_tofu_args args) project_path binary
      | OutputCommand args \<Rightarrow>
          run_existing_json H L ''output'' (es_stack args) (es_workspace args) (es_tofu_args args) project_path binary)"

definition cli_main :: "host \<Rightarrow> library \<Rightarrow> generator \<Rightarrow> json \<Rightarrow> string \<Rightarrow> cli \<Rightarrow> (generate_failure, unit) action" where
  "cli_main H L G schema cwd c =
     (case cli_command c of
        ProviderCommand p \<Rightarrow> run_provider_command H L G cwd p (cli_project c) (cli_tofu_binary c)
      | other \<Rightarrow> with_context CommandFailed (run_command H L schema other (cli_project c) (cli_tofu_binary c)))"

end
