(* ===== verification/Commands_Correct.thy ===== *)
theory Commands_Correct
  imports Cli_Correct Cli_Main
begin

text \<open>
  What every command of the command line may do outside: which calls of OpenTofu it makes, and
  that reading a graph that is already built neither writes anything nor starts a process.
\<close>

section \<open>Weaker and stronger promises\<close>

lemma emits_mono: "emits P m \<Longrightarrow> (\<And>e. P e \<Longrightarrow> Q e) \<Longrightarrow> emits Q m"
  unfolding emits_def list_all_iff by metis

lemma emits_with_context [emits_intros]: "emits P m \<Longrightarrow> emits P (with_context f m)"
  unfolding emits_def with_context_def by (auto split: prod.splits sum.splits) (metis snd_conv)+

lemma emits_caught:
  assumes "emits P m" and "P e"
  shows "emits P (\<lambda>h. case m h of (Inl _, h) \<Rightarrow> (Inr x, h @ [e]) | (Inr _, h) \<Rightarrow> (Inr y, h))"
  unfolding emits_def
proof
  fix h
  obtain r h1 where m: "m h = (r, h1)" by fastforce
  from emits_extends[OF assms(1) m] obtain es where es: "h1 = h @ es" "list_all P es" by blast
  from es assms(2) m show "\<exists>es. snd (case m h of (Inl _, h) \<Rightarrow> (Inr x, h @ [e]) | (Inr _, h) \<Rightarrow> (Inr y, h)) = h @ es \<and>
      list_all P es"
    by (cases r) (auto intro: exI[of _ "es @ [e]"])
qed

lemma emits_or_panic [emits_intros]: "emits P (or_panic x)"
  by (auto simp: or_panic_def intro!: emits_intros split: option.splits)

section \<open>The calls of OpenTofu\<close>

text \<open>The arguments a command may call OpenTofu with.\<close>

fun tofu_arguments :: "cli_command \<Rightarrow> string list \<Rightarrow> bool" where
  "tofu_arguments (InitCommand args) call \<longleftrightarrow> call = ''init'' # ra_tofu_args args"
| "tofu_arguments (ValidateCommand args) call \<longleftrightarrow> call = ''validate'' # ra_tofu_args args"
| "tofu_arguments (PlanCommand args) call \<longleftrightarrow> call = ''plan'' # ra_tofu_args args"
| "tofu_arguments (ApplyCommand args) call \<longleftrightarrow> call = ''apply'' # ra_tofu_args args"
| "tofu_arguments (DestroyCommand args) call \<longleftrightarrow> call = ''destroy'' # ra_tofu_args args"
| "tofu_arguments (TofuCommand args) call \<longleftrightarrow> call = ra_tofu_args args"
| "tofu_arguments (ShowCommand args) call \<longleftrightarrow> call = ''show'' # ''-json'' # es_tofu_args args"
| "tofu_arguments (OutputCommand args) call \<longleftrightarrow> call = ''output'' # ''-json'' # es_tofu_args args"
| "tofu_arguments (ProviderCommand c) call \<longleftrightarrow>
     (case c of ProviderInspect args \<Rightarrow> pi_schema_json args | ProviderGenerate args \<Rightarrow> ga_schema_json args) = None \<and>
     call \<in> {[''init'', ''-backend=false'', ''-input=false''], [''providers'', ''schema'', ''-json'']}"
| "tofu_arguments _ call \<longleftrightarrow> False"

definition tofu_call :: "string \<Rightarrow> (string list \<Rightarrow> bool) \<Rightarrow> event \<Rightarrow> bool" where
  "tofu_call binary ok e = (case e of RanTofu c _ \<Rightarrow> cm_program c = binary \<and> ok (cm_args c) | _ \<Rightarrow> True)"

abbreviation calls_tofu :: "string \<Rightarrow> (string list \<Rightarrow> bool) \<Rightarrow> ('e, 'a) action \<Rightarrow> bool" where
  "calls_tofu binary ok \<equiv> emits (tofu_call binary ok)"

lemma calls_none: "quiet_action m \<Longrightarrow> calls_tofu binary ok m"
  by (erule emits_mono) (auto simp: tofu_call_def split: event.splits)

lemma calls_run: "ok (cm_args c) \<Longrightarrow> cm_program c = binary \<Longrightarrow> calls_tofu binary ok (run_tofu H c)"
  by (simp add: run_tofu_def emits_ask tofu_call_def)

lemma no_tofu_new_asks [no_tofu]:
  "quiet_action (path_exists H p)" "quiet_action (modified_time H p)" "quiet_action (walk_directory H p)"
  "quiet_action (create_workspace H)" "quiet_action (write_files_below H p files)"
  by (simp_all add: action_defs emits_ask)

lemma no_tofu_parent [no_tofu]: "quiet_action (create_parent H path)"
  unfolding create_parent_def by (auto intro!: emits_intros no_tofu split: option.splits)

lemma no_tofu_read_graph [no_tofu]: "quiet_action (read_graph H L path)"
  unfolding read_graph_def by (auto intro!: emits_intros no_tofu split: sum.splits option.splits)

lemma no_tofu_text [no_tofu]: "quiet_action (write_text H path contents)"
  unfolding write_text_def by (intro emits_intros no_tofu) simp

lemma no_tofu_render_command [no_tofu]: "quiet_action (render H L path out)"
  unfolding render_def by (intro emits_intros no_tofu)

lemma no_tofu_built_graph [no_tofu]: "quiet_action (read_built H L project name)"
proof -
  have "quiet_action (warn_if_stale H project name path)" for path
    unfolding warn_if_stale_def by (auto intro!: emits_intros no_tofu split: sum.splits option.splits)
  then show ?thesis unfolding read_built_def Let_def by (intro emits_intros no_tofu)
qed

lemma no_tofu_selected [no_tofu]: "quiet_action (read_selected_graph H L args path)"
  unfolding read_selected_graph_def by (auto intro!: emits_intros no_tofu split: option.splits)

lemma no_tofu_graph_command [no_tofu]: "quiet_action (run_graph_command H L schema c path)"
  unfolding run_graph_command_def
  by (cases c) (auto intro!: emits_intros no_tofu)

lemma no_tofu_project_init [no_tofu]: "quiet_action (project_init H path)"
  unfolding project_init_def initialize_def by (intro emits_intros no_tofu) simp

lemma no_tofu_build_all: "quiet_action (build_all H L project names graphs)"
  by (induction names arbitrary: graphs) (auto intro!: emits_intros no_tofu)

lemma no_tofu_build_project [no_tofu]: "quiet_action (build_project H L name out path)"
  unfolding build_project_def
  by (auto intro!: emits_intros no_tofu no_tofu_build_all split: option.splits)

lemma no_tofu_gate_stack [no_tofu]: "quiet_action (gate_stack H L project name)"
  unfolding gate_stack_def by (intro emits_intros no_tofu) simp

lemma no_tofu_test_project [no_tofu]: "quiet_action (test_project H L name path)"
proof -
  have "quiet_action (test_one H L project name)" for project name
    unfolding test_one_def by (intro emits_intros no_tofu emits_caught) simp
  moreover have "quiet_action (test_single H L project name)" for project name
    unfolding test_single_def by (intro emits_intros no_tofu) (auto intro!: emits_intros split: exit_status.splits)
  ultimately show ?thesis
    unfolding test_project_def Let_def by (auto intro!: emits_intros no_tofu split: option.splits)
qed

lemmas calls_quiet = no_tofu [THEN calls_none]

lemma calls_with_env: "ok (subcommand # args) \<Longrightarrow> calls_tofu binary ok (run_with_env H binary root subcommand args environment)"
  unfolding run_with_env_def by (auto intro!: emits_intros calls_run split: sum.splits)

lemma calls_run_graph:
  assumes "ok (subcommand # tofu_args)"
  shows "calls_tofu binary ok (run_graph H L subcommand tofu_args args path binary)"
proof -
  have "quiet_action (case ra_graph args of Some graph \<Rightarrow> prepare_given H L args graph | None \<Rightarrow> prepare_built H L args path)"
    by (cases "ra_graph args") (simp_all add: no_tofu)
  with assms show ?thesis
    unfolding run_graph_def
    by (auto intro!: emits_intros calls_with_env calls_quiet split: option.splits)
qed

lemma calls_existing:
  assumes "ok (subcommand # ''-json'' # tofu_args)"
  shows "calls_tofu binary ok (run_existing_json H L subcommand name workspace tofu_args path binary)"
proof -
  have "quiet_action (case workspace of Some base \<Rightarrow> give base
      | None \<Rightarrow> bind_action (is_file H path) (\<lambda>configured.
          if configured then bind_action (load_project H L path) (\<lambda>project. give (workspace_directory project))
          else give ''.inframe''))"
    by (auto intro!: emits_intros no_tofu split: option.splits)
  moreover have "calls_tofu binary ok (output_json H L binary root subcommand tofu_args)" for root
    unfolding output_json_def using assms by (auto intro!: emits_intros calls_run split: sum.splits option.splits)
  ultimately show ?thesis
    unfolding run_existing_json_def by (intro emits_intros) (auto intro!: calls_none no_tofu)
qed

lemma calls_acquire:
  assumes "ok [''init'', ''-backend=false'', ''-input=false'']" and "ok [''providers'', ''schema'', ''-json'']"
  shows "calls_tofu binary ok (acquire H L G binary request)"
proof -
  have "calls_tofu binary ok (acquire_output H binary directory args)" if "ok args" for directory args
    unfolding acquire_output_def using that by (auto intro!: emits_intros calls_run)
  moreover have "quiet_action (write_bootstrap H L directory request)" for directory
    unfolding write_bootstrap_def by (intro emits_intros no_tofu)
  ultimately show ?thesis
    unfolding acquire_def using assms
    by (auto intro!: emits_intros intro: calls_none no_tofu split: option.splits)
qed

lemma calls_load_schema:
  assumes "fixture = None \<Longrightarrow> ok [''init'', ''-backend=false'', ''-input=false'']"
    and "fixture = None \<Longrightarrow> ok [''providers'', ''schema'', ''-json'']"
  shows "calls_tofu binary ok (load_provider_schema H L G request fixture binary)"
proof (cases fixture)
  case None
  with assms show ?thesis unfolding load_provider_schema_def by (auto intro!: emits_intros calls_acquire)
next
  case (Some path)
  have "quiet_action (load_schema_file H G request path)"
    unfolding load_schema_file_def by (auto intro!: emits_intros no_tofu split: sum.splits)
  with Some show ?thesis by (simp add: load_provider_schema_def calls_none)
qed

lemma no_tofu_targets [no_tofu]: "quiet_action (write_targets H L name bindings targets st)"
proof (induction targets arbitrary: st)
  case (Cons target targets)
  have "quiet_action (write_target H L bindings target st)" for st
    unfolding write_target_def by (auto intro!: emits_intros no_tofu)
  with Cons show ?case by (auto intro!: emits_intros no_tofu)
qed (simp add: emits_intros)

lemma calls_generate:
  assumes "ga_schema_json args = None \<Longrightarrow> ok [''init'', ''-backend=false'', ''-input=false'']"
    and "ga_schema_json args = None \<Longrightarrow> ok [''providers'', ''schema'', ''-json'']"
  shows "calls_tofu binary ok (generate_providers H L G cwd args path binary)"
proof -
  have one: "calls_tofu binary ok (generate_one H L G (ga_schema_json args) binary generation)" for generation
    unfolding generate_one_def
    by (auto intro!: emits_intros intro: calls_load_schema[of _ ok] assms calls_none no_tofu)
  have "quiet_action (reload_project H L path)"
    unfolding reload_project_def by (intro emits_intros no_tofu)
  with one show ?thesis
    unfolding generate_providers_def by (auto intro!: emits_intros intro: calls_none no_tofu)
qed

lemma calls_inspect:
  assumes "pi_schema_json args = None \<Longrightarrow> ok [''init'', ''-backend=false'', ''-input=false'']"
    and "pi_schema_json args = None \<Longrightarrow> ok [''providers'', ''schema'', ''-json'']"
  shows "calls_tofu binary ok (inspect_provider H L G args binary)"
  unfolding inspect_provider_def
  by (auto intro!: emits_intros calls_quiet intro: calls_load_schema[of _ ok] assms split: option.splits)

lemma calls_command:
  assumes "\<And>p. c \<noteq> ProviderCommand p"
  shows "calls_tofu binary (tofu_arguments c) (run_command H L schema c path binary)"
proof (cases c)
  case (ProjectCommand p)
  then show ?thesis by (cases p) (simp add: run_command_def calls_none no_tofu)
next
  case (TofuCommand args)
  then show ?thesis
    by (auto simp: run_command_def run_any_def intro!: calls_run_graph emits_intros split: list.splits)
qed (use assms in \<open>simp_all add: run_command_def run_lifecycle_def calls_run_graph calls_existing calls_none no_tofu\<close>)

section \<open>Reading a graph\<close>

text \<open>Requests that change nothing outside and start no process.\<close>

fun reads_only :: "event \<Rightarrow> bool" where
  "reads_only (ReadFile _ _) \<longleftrightarrow> True"
| "reads_only (ReadModified _ _) \<longleftrightarrow> True"
| "reads_only (WalkedDirectory _ _) \<longleftrightarrow> True"
| "reads_only (Printed _) \<longleftrightarrow> True"
| "reads_only (Warned _) \<longleftrightarrow> True"
| "reads_only _ \<longleftrightarrow> False"

lemma read_asks_only:
  "emits reads_only (read_file H p)" "emits reads_only (modified_time H p)" "emits reads_only (walk_directory H p)"
  "emits reads_only (say (Printed s))"
  by (simp_all add: action_defs emits_ask)

lemma selected_reads_only:
  assumes "gp_graph args \<noteq> None \<or> gp_no_build args"
  shows "emits reads_only (read_selected_graph H L args path)"
proof -
  have graph: "emits reads_only (read_graph H L graph_file)" for graph_file
    unfolding read_graph_def by (auto intro!: emits_intros read_asks_only split: sum.splits option.splits)
  have stale: "emits reads_only (warn_if_stale H project name artifact)" for project name artifact
    unfolding warn_if_stale_def by (auto intro!: emits_intros read_asks_only split: sum.splits option.splits)
  have load: "emits reads_only (load_project H L path)"
    unfolding load_project_def by (intro emits_intros read_asks_only)
  have built: "emits reads_only (read_built H L project name)" for project name
    unfolding read_built_def Let_def by (intro emits_intros graph stale)
  show ?thesis
    using assms unfolding read_selected_graph_def
    by (auto intro!: emits_intros graph load built split: option.splits)
qed

section \<open>A project file\<close>

text \<open>What creating a project file may write: the template, where nothing was found.\<close>

lemma initialize_history:
  "\<exists>es. snd (project_init H path h) = h @ es \<and>
     (es = [TestedPath path True] \<or>
      list_all (\<lambda>e. case e of WroteFile q contents _ \<Rightarrow> q = path \<and> contents = PROJECT_TEMPLATE
        | CreatedDirectory _ _ \<Rightarrow> True | TestedPath _ exists \<Rightarrow> \<not> exists | Printed _ \<Rightarrow> True | _ \<Rightarrow> False) es)"
  (is "\<exists>es. _ \<and> (_ \<or> list_all ?ok es)")
proof (cases "h_exists H h path")
  case True
  then show ?thesis
    by (intro exI[of _ "[TestedPath path True]"])
      (simp add: project_init_def initialize_def bind_action_def path_exists_def ask_def raise_error_def)
next
  case False
  let ?rest = "bind_action (bind_action (create_parent H path) (\<lambda>_. demand (FileFailed path) (write_file H path PROJECT_TEMPLATE)))
      (\<lambda>_. say (Printed (''created '' @ path @ nl)))"
  have "emits ?ok (create_parent H path)"
    unfolding create_parent_def create_directory_def by (auto intro!: emits_intros emits_ask split: option.splits)
  then have "emits ?ok ?rest"
    by (intro emits_intros) (auto simp: action_defs intro!: emits_ask)
  then obtain es where es: "snd (?rest (h @ [TestedPath path False])) = (h @ [TestedPath path False]) @ es" "list_all ?ok es"
    unfolding emits_def by blast
  have "project_init H path h = ?rest (h @ [TestedPath path False])"
    using False by (simp add: project_init_def initialize_def bind_action_def path_exists_def ask_def)
  with es show ?thesis by (intro exI[of _ "TestedPath path False # es"]) simp
qed

section \<open>Properties\<close>

text \<open>C23. Whatever the outside answers, each command calls OpenTofu only under the name given for its
  binary and with its own subcommand and arguments: building, testing, rendering, the commands on
  graphs and generating from a schema file never call it.\<close>

theorem main_calls_tofu:
  "\<exists>es. snd (cli_main H L G schema cwd c h) = h @ es \<and>
     list_all (tofu_call (cli_tofu_binary c) (tofu_arguments (cli_command c))) es"
proof -
  have "calls_tofu (cli_tofu_binary c) (tofu_arguments (cli_command c)) (cli_main H L G schema cwd c)"
  proof (cases "cli_command c")
    case (ProviderCommand p)
    then show ?thesis
      by (cases p) (simp_all add: cli_main_def run_provider_command_def calls_inspect calls_generate)
  qed (simp_all add: cli_main_def emits_with_context calls_command del: tofu_arguments.simps)
  then show ?thesis by (simp add: emits_def)
qed

text \<open>Validating or inspecting a graph given by its path, or the last built graph of a stack, only
  reads files: nothing is built, written or run.\<close>

lemma built_graph_only_read:
  assumes "gp_graph args \<noteq> None \<or> gp_no_build args"
    and "c = GraphValidate args \<or> c = GraphInspect args"
  shows "\<exists>es. snd (run_graph_command H L schema c path h) = h @ es \<and> list_all reads_only es"
proof -
  have "emits reads_only (run_graph_command H L schema c path)"
    unfolding run_graph_command_def using assms
    by (auto intro!: emits_intros read_asks_only selected_reads_only)
  then show ?thesis by (simp add: emits_def)
qed

definition sample_graph_args :: graph_path_args where
  "sample_graph_args = \<lparr>gp_graph = None, gp_stack = Some ''app'', gp_no_build = True\<rparr>"

lemma built_graph_only_read_witness:
  "\<exists>es. snd (run_graph_command sample_host sample_library JNull (GraphInspect sample_graph_args) ''infra/inframe.toml'' []) = [] @ es \<and>
     list_all reads_only es"
  by (rule built_graph_only_read[of sample_graph_args]) (simp_all add: sample_graph_args_def)

end
