(* ===== verification/Generate_Run_Correct.thy ===== *)
theory Generate_Run_Correct
  imports Commands_Correct Emit_PureScript_Correct Emit_Lean_Correct Provider_Schema_Correct
begin

text \<open>
  What generating bindings leaves behind, whatever the outside answers: how a schema is acquired,
  that it is the schema of the selected provider, and which packages are written from it.
\<close>

section \<open>Acquiring a schema\<close>

lemma acquire_output_ok:
  "acquire_output H binary directory args h = (Inr text, h') \<longleftrightarrow>
     (\<exists>out. h_run H h \<lparr>cm_program = binary, cm_args = args, cm_directory = directory, cm_environment = []\<rparr> = Inr out \<and>
        success (po_status out) \<and> text = po_stdout out \<and>
        h' = h @ [RanTofu \<lparr>cm_program = binary, cm_args = args, cm_directory = directory, cm_environment = []\<rparr> (Inr out)])"
  by (auto simp: acquire_output_def run_tofu_def action_ok dest: sym)

lemma with_context_ok [action_ok]: "with_context f m h = (Inr x, h') \<longleftrightarrow> m h = (Inr x, h')"
  by (auto simp: with_context_def split: prod.splits sum.splits)

lemma or_panic_ok [action_ok]: "or_panic x h = (Inr y, h') \<longleftrightarrow> x = Some y \<and> h' = h"
  by (auto simp: or_panic_def action_ok split: option.splits)

text \<open>The history of an acquisition.\<close>

definition acquisition :: "library \<Rightarrow> string \<Rightarrow> provider_request \<Rightarrow> string \<Rightarrow> process_output \<Rightarrow> process_output \<Rightarrow> history" where
  "acquisition L binary request directory prepared out =
     [CreatedWorkspace (Inr directory),
      WroteFile (path_join directory ''main.tofu.json'') (lib_pretty L (bootstrap request)) (Inr ()),
      RanTofu \<lparr>cm_program = binary, cm_args = [''init'', ''-backend=false'', ''-input=false''], cm_directory = directory,
        cm_environment = []\<rparr> (Inr prepared),
      RanTofu \<lparr>cm_program = binary, cm_args = [''providers'', ''schema'', ''-json''], cm_directory = directory,
        cm_environment = []\<rparr> (Inr out)]"

lemma acquire_ok:
  assumes "acquire H L G binary request h = (Inr r, h')"
  shows "\<exists>directory prepared out schema. h' = h @ acquisition L binary request directory prepared out \<and>
    success (po_status prepared) \<and> success (po_status out) \<and> r = Some schema \<and>
    normalize_schema (gl_parse G) (po_stdout out) request = Some (Inr schema)"
proof -
  from assms obtain directory prepared out where h': "h' = h @ acquisition L binary request directory prepared out"
    and ok: "success (po_status prepared)" "success (po_status out)"
    and r: "(case normalize_schema (gl_parse G) (po_stdout out) request of
        None \<Rightarrow> give None
      | Some q \<Rightarrow> lift_result AcquireNormalize (case q of Inl e \<Rightarrow> Inl e | Inr schema \<Rightarrow> Inr (Some schema))) h' = (Inr r, h')"
    by (auto simp: acquire_def write_bootstrap_def action_ok action_defs acquire_output_ok acquisition_def
        split: option.splits)
  from normalize_schema_total obtain q where q: "normalize_schema (gl_parse G) (po_stdout out) request = Some q" by blast
  with r obtain schema where "q = Inr schema" "r = Some schema" by (cases q) (auto simp: action_ok)
  with h' ok q show ?thesis by blast
qed

section \<open>Loading a schema\<close>

lemma schema_of_file_source:
  assumes "read_schema_file parse derived bytes request = Some (Inr schema_file)"
    and "schema_of_file request schema_file = Inr schema"
  shows "ps_source schema = req_source request \<and> ps_version schema = req_version request"
proof (cases schema_file)
  case (NormalizedFile s)
  with assms(2) show ?thesis by (auto simp: schema_of_file_def split: if_splits)
next
  case (RawFile s)
  with assms(2) have s: "schema = s" by (simp add: schema_of_file_def)
  have "\<exists>raw. normalized request raw = Inr s"
    using assms(1) RawFile
    by (auto simp: read_schema_file_def normalize_schema_def Let_def and_then_ok
        split: option.splits sum.splits)
  then obtain raw where "normalized request raw = Inr s" ..
  then show ?thesis by (auto simp: s normalized_def and_then_ok split: if_splits list.splits)
qed

lemma load_schema_file_ok:
  assumes "load_schema_file H G request path h = (Inr schema, h')"
  shows "ps_source schema = req_source request \<and> ps_version schema = req_version request"
proof -
  let ?read = "\<lambda>bytes. read_schema_file (gl_parse G) (gl_derived G) bytes request"
  from assms obtain compact r schema_file h1 h2 where r: "?read compact = Some r"
    and rest: "(case r of
        Inr schema_file \<Rightarrow> give schema_file
      | Inl _ \<Rightarrow>
          bind_action (demand (\<lambda>_. SchemaFailed FixtureUnreadable) (read_file H path)) (\<lambda>original.
          bind_action (or_panic (?read original)) (\<lambda>r.
          lift_result (\<lambda>e. SchemaFailed (FixtureRejected e)) r))) h1 = (Inr schema_file, h2)"
    and schema: "schema_of_file request schema_file = Inr schema"
    unfolding load_schema_file_def by (auto simp: action_ok simp del: sum.case)
  have "\<exists>bytes. ?read bytes = Some (Inr schema_file)"
  proof (cases r)
    case (Inl e)
    with rest show ?thesis by (auto simp: action_ok)
  next
    case (Inr s)
    with rest r show ?thesis by (auto simp: action_ok)
  qed
  with schema obtain bytes where "?read bytes = Some (Inr schema_file)" "schema_of_file request schema_file = Inr schema"
    by blast
  then show ?thesis by (rule schema_of_file_source)
qed

lemma load_provider_schema_ok:
  assumes "load_provider_schema H L G request fixture binary h = (Inr schema, h')"
  shows "ps_source schema = req_source request \<and> ps_version schema = req_version request"
proof (cases fixture)
  case None
  with assms obtain out where "normalize_schema (gl_parse G) out request = Some (Inr schema)"
    by (auto simp: load_provider_schema_def action_ok dest!: acquire_ok)
  then show ?thesis using normalize_schema_wf by blast
next
  case (Some path)
  with assms show ?thesis by (auto simp: load_provider_schema_def dest: load_schema_file_ok)
qed

section \<open>The digest\<close>

text \<open>A digest that is, or will be, \<open>r\<close>: asking for it never panics and always answers the same.\<close>

definition awaits :: "(string, string) result \<Rightarrow> pending_digest \<Rightarrow> bool" where
  "awaits r st \<longleftrightarrow> pd_digest st = Some r \<or> pd_digest st = None \<and> pd_hashing st = Some r"

lemma awaits_new: "awaits r (pending_new r)"
  by (simp add: awaits_def pending_new_def)

lemma digest_of_awaits: "awaits r st \<Longrightarrow> \<exists>st'. digest_of st = Some (r, st') \<and> awaits r st'"
  by (auto simp: awaits_def digest_of_def)

text \<open>The digest written into a manifest.\<close>

definition digest_text :: "(string, string) result \<Rightarrow> string" where
  "digest_text r = (case r of Inr text \<Rightarrow> text | Inl _ \<Rightarrow> [])"

lemma digest_sha256_awaits: "awaits r st \<Longrightarrow> \<exists>st'. digest_sha256 st = Some (digest_text r, st') \<and> awaits r st'"
  using digest_of_awaits[of r st] by (auto simp: digest_sha256_def digest_text_def)

lemma digest_check_awaits:
  "awaits r st \<Longrightarrow> \<exists>st'. digest_check st = Some (case r of Inr _ \<Rightarrow> Inr () | Inl e \<Rightarrow> Inl e, st') \<and> awaits r st'"
  using digest_of_awaits[of r st] by (auto simp: digest_check_def)

section \<open>Written packages\<close>

text \<open>The packages that were written completely.\<close>

definition package_of :: "event \<Rightarrow> (string \<times> (string \<times> string) list) list" where
  "package_of e =
     (case e of
        WrotePackage directory files r \<Rightarrow> (case r of Inr _ \<Rightarrow> [(directory, files)] | Inl _ \<Rightarrow> [])
      | _ \<Rightarrow> [])"

definition packages :: "history \<Rightarrow> (string \<times> (string \<times> string) list) list" where
  "packages es = concat (map package_of es)"

definition is_package :: "event \<Rightarrow> bool" where
  "is_package e \<longleftrightarrow> (case e of WrotePackage _ _ _ \<Rightarrow> True | _ \<Rightarrow> False)"

lemma packages_append: "packages (es @ fs) = packages es @ packages fs"
  by (simp add: packages_def)

lemma packages_none: "list_all (\<lambda>e. \<not> is_package e) es \<Longrightarrow> packages es = []"
  by (auto simp: packages_def package_of_def is_package_def list_all_iff split: event.splits)

lemma write_target_ok:
  assumes "write_target H L bindings target st h = (Inr st', h')" and "awaits r st"
  shows "\<exists>files. h' = h @ [WrotePackage (ft_output target) files (Inr ())] \<and>
    target_files L bindings target (digest_text r) = Inr files \<and> awaits r st'"
  using assms(1) digest_sha256_awaits[OF assms(2)]
  by (auto simp: write_target_def action_ok action_defs)

lemma write_targets_ok:
  assumes "write_targets H L name bindings targets st h = (Inr st', h')" and "awaits r st"
  shows "\<exists>es. h' = h @ es \<and> awaits r st' \<and>
    map (\<lambda>target. (ft_output target, target_files L bindings target (digest_text r))) targets =
      map (\<lambda>(directory, files). (directory, Inr files)) (packages es)"
  using assms
proof (induction targets arbitrary: st h)
  case Nil
  then show ?case by (auto simp: action_ok packages_def)
next
  case (Cons target targets)
  from Cons.prems(1) obtain st1 h1 line where one: "write_target H L bindings target st h = (Inr st1, h1)"
    and rest: "write_targets H L name bindings targets st1 (h1 @ [Printed line]) = (Inr st', h')"
    by (auto simp: action_ok say_def)
  from write_target_ok[OF one Cons.prems(2)] obtain files where
    h1: "h1 = h @ [WrotePackage (ft_output target) files (Inr ())]"
    and files: "target_files L bindings target (digest_text r) = Inr files" and st1: "awaits r st1" by blast
  from Cons.IH[OF rest st1] obtain es where h': "h' = (h1 @ [Printed line]) @ es" and "awaits r st'"
    and "map (\<lambda>target. (ft_output target, target_files L bindings target (digest_text r))) targets =
      map (\<lambda>(directory, files). (directory, Inr files)) (packages es)" by blast
  with files show ?case
    by (intro exI[of _ "WrotePackage (ft_output target) files (Inr ()) # Printed line # es"]) (simp add: h1 packages_def package_of_def)
qed

lemma target_files_distinct:
  assumes "derive_bindings_with schema strip = Inr bindings" and "target_files L bindings target digest = Inr files"
  shows "distinct (map fst files)"
proof (cases "ft_frontend target")
  case PureScript
  with assms(2) obtain jobs where jobs: "package_files (lib_pretty L) bindings (ft_module_root target) digest = Inr jobs"
    and files: "files = map (\<lambda>job. (job_path job, job_render job)) jobs"
    by (auto simp: target_files_def split: sum.splits purescript_error.splits)
  from package_paths[OF assms(1) jobs] show ?thesis by (simp add: files comp_def)
next
  case Lean
  with assms(2) obtain core jobs texts where
    jobs: "lean_package_files (lib_pretty L) bindings (ft_module_root target) digest core = Inr jobs"
    and texts: "those (map job_render jobs) = Some texts" and files: "files = zip (map job_path jobs) texts"
    by (auto simp: target_files_def split: sum.splits lean_emit_error.splits option.splits)
  have "length xs = length ys" if "those xs = Some ys" for xs :: "string option list" and ys
    using that by (induction xs arbitrary: ys) (auto split: option.splits)
  from this[OF texts] lean_package_paths(1)[OF assms(1) jobs] show ?thesis by (simp add: files)
qed

section \<open>Properties\<close>

lemma load_schema_no_package: "emits (\<lambda>e. \<not> is_package e) (load_provider_schema H L G request fixture binary)"
proof -
  have asks: "emits (\<lambda>e. \<not> is_package e) (read_file H p)" "emits (\<lambda>e. \<not> is_package e) (write_file H p s)"
    "emits (\<lambda>e. \<not> is_package e) (run_tofu H c)" "emits (\<lambda>e. \<not> is_package e) (create_workspace H)" for p s c
    by (simp_all add: action_defs emits_ask is_package_def)
  have fixture: "emits (\<lambda>e. \<not> is_package e) (load_schema_file H G request path)" for path
    unfolding load_schema_file_def by (auto intro!: emits_intros asks split: sum.splits)
  have "emits (\<lambda>e. \<not> is_package e) (acquire H L G binary request)"
    unfolding acquire_def acquire_output_def write_bootstrap_def
    by (auto intro!: emits_intros asks split: option.splits)
  with fixture show ?thesis
    unfolding load_provider_schema_def by (auto intro!: emits_intros split: option.splits)
qed

text \<open>C24. A schema is only acquired in a new directory whose configuration pins the requested version of
  the requested provider, by OpenTofu's \<open>init\<close> and then its \<open>providers schema\<close>, both of which
  succeeded; it is normalized from what the second one printed.\<close>

theorem acquired_as_pinned:
  assumes "acquire H L G binary request h = (Inr r, h')"
  shows "\<exists>directory prepared out schema. h' = h @ acquisition L binary request directory prepared out \<and>
    json_at (bootstrap request) [''terraform'', ''required_providers'', local_name request] =
      Some (JObject [(''source'', JString (req_source request)), (''version'', JString (''= '' @ req_version request))]) \<and>
    success (po_status prepared) \<and> success (po_status out) \<and> r = Some schema \<and>
    normalize_schema (gl_parse G) (po_stdout out) request = Some (Inr schema)"
  using acquire_ok[OF assms] by (auto simp: bootstrap_def)

definition bare_document :: doc where
  "bare_document =
     DObject
       [(''format_version'', DString ''1.0''),
        (''provider_schemas'', DObject
          [(''registry.opentofu.org/acme/demo'', DObject [(''provider'', DObject [(''block'', DObject [])])])])]"

definition sample_generator :: generator where
  "sample_generator =
     \<lparr>gl_parse = (\<lambda>_. Some bare_document), gl_derived = (\<lambda>_. None), gl_compact = (\<lambda>_. Inr ''{}''), gl_pretty = (\<lambda>_. ''{}''),
      gl_hash = (\<lambda>_. ''abc'')\<rparr>"

lemma acquired_as_pinned_witness:
  "\<exists>directory prepared out schema.
     snd (acquire sample_host sample_library sample_generator ''tofu'' sample_request []) =
       [] @ acquisition sample_library ''tofu'' sample_request directory prepared out \<and>
     normalize_schema (\<lambda>_. Some bare_document) (po_stdout out) sample_request = Some (Inr schema)"
proof -
  have "is_ok (fst (acquire sample_host sample_library sample_generator ''tofu'' sample_request []))"
    by code_simp
  then obtain r where "acquire sample_host sample_library sample_generator ''tofu'' sample_request [] =
      (Inr r, snd (acquire sample_host sample_library sample_generator ''tofu'' sample_request []))"
    by (metis is_okE prod.collapse)
  from acquired_as_pinned[OF this] show ?thesis by (auto simp: sample_generator_def)
qed

text \<open>C22. When generating for a provider succeeds, exactly its targets were written, in order and each
  to its own directory: the files are those rendered from the bindings of a schema of the selected
  provider and version, with that schema's hash in their manifests, and no two files of a package
  have the same path.\<close>

theorem generated_packages:
  assumes "generate_one H L G fixture binary generation h = (Inr u, h')"
  shows "\<exists>es schema bindings digest. h' = h @ es \<and>
    ps_source schema = pg_source generation \<and> ps_version schema = pg_version generation \<and>
    derive_bindings_with schema (pg_strip_prefix generation) = Inr bindings \<and>
    schema_sha256 G schema = Inr digest \<and>
    map (\<lambda>target. (ft_output target, target_files L bindings target digest)) (pg_targets generation) =
      map (\<lambda>(directory, files). (directory, Inr files)) (packages es) \<and>
    list_all (\<lambda>(directory, files). distinct (map fst files)) (packages es)"
proof -
  let ?request = "\<lparr>req_source = pg_source generation, req_version = pg_version generation\<rparr>"
  from assms obtain schema h1 bindings st where
    load: "load_provider_schema H L G ?request fixture binary h = (Inr schema, h1)"
    and bindings: "derive_bindings_with schema (pg_strip_prefix generation) = Inr bindings"
    and written: "write_targets H L (pg_name generation) bindings (pg_targets generation)
      (pending_new (schema_sha256 G schema)) h1 = (Inr st, h')"
    and checked: "\<exists>q. digest_check st = Some (Inr (), q)"
    by (auto simp: generate_one_def action_ok case_prod_beta)
  from emits_extends[OF load_schema_no_package load] obtain es1 where h1: "h1 = h @ es1" and none: "packages es1 = []"
    using packages_none by blast
  from write_targets_ok[OF written awaits_new] obtain es2 where h': "h' = h1 @ es2"
    and st: "awaits (schema_sha256 G schema) st"
    and files: "map (\<lambda>target. (ft_output target, target_files L bindings target (digest_text (schema_sha256 G schema))))
        (pg_targets generation) = map (\<lambda>(directory, files). (directory, Inr files)) (packages es2)" by blast
  from digest_check_awaits[OF st] checked obtain digest where digest: "schema_sha256 G schema = Inr digest"
    by (cases "schema_sha256 G schema") auto
  have "list_all (\<lambda>(directory, files). distinct (map fst files)) (packages es2)"
    unfolding list_all_iff
  proof safe
    fix directory files assume "(directory, files) \<in> set (packages es2)"
    then have "(directory, Inr files) \<in> set (map (\<lambda>(directory, files). (directory, Inr files)) (packages es2))" by force
    then have "(directory, Inr files) \<in> set (map (\<lambda>target. (ft_output target, target_files L bindings target digest))
        (pg_targets generation))"
      by (simp only: files[unfolded digest digest_text_def sum.case])
    then obtain target where "target_files L bindings target digest = Inr files" by (metis (no_types, lifting) image_iff list.set_map prod.inject)
    with bindings show "distinct (map fst files)" by (rule target_files_distinct)
  qed
  with h' h1 none bindings digest files load_provider_schema_ok[OF load] show ?thesis
    by (intro exI[of _ "es1 @ es2"] exI[of _ schema] exI[of _ bindings] exI[of _ digest])
      (simp add: packages_append digest_text_def)
qed

definition sample_selected_generation :: provider_generation where
  "sample_selected_generation =
     \<lparr>pg_name = ''demo'', pg_source = ''acme/demo'', pg_version = ''1.0'', pg_strip_prefix = None,
      pg_targets =
        [\<lparr>ft_frontend = PureScript, ft_module_root = ''Demo'', ft_output = ''purescript'', ft_lean_core = None\<rparr>]\<rparr>"

abbreviation sample_generated :: "(generate_failure, unit) result \<times> history" where
  "sample_generated \<equiv> generate_one sample_host sample_library sample_generator None ''tofu'' sample_selected_generation []"

lemma sample_generated_outputs: "map ft_output (pg_targets sample_selected_generation) = [''purescript'']"
  by (simp add: sample_selected_generation_def)

lemma generated_packages_witness:
  "\<exists>es. snd sample_generated = [] @ es \<and> map fst (packages es) = [''purescript''] \<and>
     list_all (\<lambda>(directory, files). distinct (map fst files)) (packages es)"
proof -
  have "is_ok (fst sample_generated)"
    by code_simp
  then obtain u where "sample_generated = (Inr u, snd sample_generated)"
    by (metis is_okE prod.collapse)
  from generated_packages[OF this] obtain es bindings digest where es: "snd sample_generated = [] @ es"
    and files: "map (\<lambda>target. (ft_output target, target_files sample_library bindings target digest))
        (pg_targets sample_selected_generation) = map (\<lambda>(directory, files). (directory, Inr files)) (packages es)"
    and ok: "list_all (\<lambda>(directory, files). distinct (map fst files)) (packages es)" by blast
  from arg_cong[OF files, of "map fst"] have "map fst (packages es) = [''purescript'']"
    by (simp only: map_map comp_def case_prod_beta prod.sel sample_generated_outputs)
  then show ?thesis by (intro exI[of _ es] conjI es ok)
qed

section \<open>A stored schema\<close>

lemma stored_file_loads:
  assumes "\<And>a b. json_tokens a = json_tokens b \<Longrightarrow> gl_parse G a = gl_parse G b"
    and "schema_wf schema" and "ps_source schema = req_source request" and "ps_version schema = req_version request"
    and "gl_parse G (canonical_json G schema) = Some (encode_schema schema)"
    and "h_read H h path = Inr (canonical_json G schema)"
  shows "load_provider_schema H L G request (Some path) binary h =
    (Inr schema, h @ [ReadFile path (Inr (canonical_json G schema))])"
proof -
  let ?text = "canonical_json G schema"
  have "read_all (calls_of ?text) = Inr ?text" by (cases ?text) (simp_all add: calls_of_def read_all_def)
  with read_compact_tokens[of "calls_of ?text"] obtain compact where compact: "read_compact_json (calls_of ?text) = Inr compact"
    and tokens: "json_tokens compact = json_tokens ?text"
    by (auto split: sum.splits)
  from tokens assms(1,5) have "gl_parse G compact = Some (encode_schema schema)" by metis
  with document_encoded[OF assms(2), of request]
  have read: "read_schema_file (gl_parse G) (gl_derived G) compact request = Some (Inr (NormalizedFile schema))"
    by (simp add: read_schema_file_def decode_def Let_def)
  show ?thesis
    by (simp add: load_provider_schema_def load_schema_file_def read_file_def demand_def bind_action_def ask_def Let_def
        lift_result_def or_panic_def give_def assms compact read schema_of_file_def)
qed

lemma write_text_ok:
  assumes "write_text H path contents h = (Inr u, h')" and "path \<noteq> ''-''"
  shows "\<exists>es. h' = h @ es @ [WroteFile path contents (Inr ())]"
proof -
  from assms obtain h1 where "create_parent H path h = (Inr (), h1)" and h': "h' = h1 @ [WroteFile path contents (Inr ())]"
    by (auto simp: write_text_def action_ok action_defs)
  with emits_extends[OF no_tofu_parent] show ?thesis by fastforce
qed

text \<open>The schema that inspecting a provider writes to a file is the one loading that file gives again,
  when the file reads as it was written and the parser reads the text of a schema as its document.\<close>

lemma inspected_schema_loads:
  assumes "acquire H L G binary request h = (Inr (Some schema), h1)"
    and "inspect_provider H L G \<lparr>pi_source = req_source request, pi_version = req_version request,
      pi_schema_json = None, pi_output = Some path\<rparr> binary h = (Inr u, h')"
    and "path \<noteq> ''-''" and "\<And>a b. json_tokens a = json_tokens b \<Longrightarrow> gl_parse G a = gl_parse G b"
    and "gl_parse G (canonical_json G schema) = Some (encode_schema schema)"
    and "h_read H h' path = Inr (canonical_json G schema)"
  shows "(\<exists>es. h' = h1 @ es @ [WroteFile path (canonical_json G schema) (Inr ())]) \<and>
    load_provider_schema H L G request (Some path) binary h' =
      (Inr schema, h' @ [ReadFile path (Inr (canonical_json G schema))])"
proof -
  have request: "\<lparr>req_source = req_source request, req_version = req_version request\<rparr> = request" by simp
  have load: "load_provider_schema H L G request None binary h = (Inr schema, h1)"
    using assms(1) by (simp add: load_provider_schema_def with_context_def bind_action_def or_panic_def give_def)
  from assms(2) obtain es where written: "write_text H path (canonical_json G schema) (h1 @ es) = (Inr (), h')"
    by (fastforce simp: inspect_provider_def action_ok action_defs request load)
  from acquire_ok[OF assms(1)] obtain out where "normalize_schema (gl_parse G) out request = Some (Inr schema)" by blast
  from normalize_schema_wf[OF this] have "schema_wf schema" "ps_source schema = req_source request"
    "ps_version schema = req_version request" by simp_all
  from stored_file_loads[OF assms(4) this assms(5,6)] write_text_ok[OF written assms(3)] show ?thesis by auto
qed

definition bare_schema :: provider_schema where
  "bare_schema = \<lparr>ps_source = ''acme/demo'', ps_version = ''1.0'', provider_config = BlockSchema [] [],
     ps_resources = [], ps_data_sources = []\<rparr>"

text \<open>A parser that tells a text without tokens from the others.\<close>

definition storing_generator :: generator where
  "storing_generator =
     sample_generator\<lparr>gl_parse := \<lambda>s. Some (if json_tokens s = [] then bare_document else encode_schema bare_schema)\<rparr>"

definition storing_host :: host where
  "storing_host = sample_host\<lparr>h_read := \<lambda>_ _. Inr (canonical_json storing_generator bare_schema)\<rparr>"

abbreviation stored_history :: history where
  "stored_history \<equiv> snd (inspect_provider storing_host sample_library storing_generator
     \<lparr>pi_source = ''acme/demo'', pi_version = ''1.0'', pi_schema_json = None, pi_output = Some ''schema.json''\<rparr> ''tofu'' [])"

lemma inspected_schema_loads_witness:
  "fst (load_provider_schema storing_host sample_library storing_generator sample_request (Some ''schema.json'') ''tofu''
     stored_history) = Inr bare_schema"
proof -
  let ?acquired = "acquire storing_host sample_library storing_generator ''tofu'' sample_request []"
  let ?args = "\<lparr>pi_source = req_source sample_request, pi_version = req_version sample_request, pi_schema_json = None,
      pi_output = Some ''schema.json''\<rparr>"
  have "fst ?acquired = Inr (Some bare_schema)" by code_simp
  then have acquired: "?acquired = (Inr (Some bare_schema), snd ?acquired)" by (metis prod.collapse)
  have args: "?args = \<lparr>pi_source = ''acme/demo'', pi_version = ''1.0'', pi_schema_json = None, pi_output = Some ''schema.json''\<rparr>"
    by (simp add: sample_request_def)
  have "is_ok (fst (inspect_provider storing_host sample_library storing_generator ?args ''tofu'' []))"
    by code_simp
  then obtain u where ok: "inspect_provider storing_host sample_library storing_generator ?args ''tofu'' [] = (Inr u, stored_history)"
    unfolding args by (metis is_okE prod.collapse)
  have parse: "gl_parse storing_generator (canonical_json storing_generator bare_schema) = Some (encode_schema bare_schema)"
    by code_simp
  have read: "h_read storing_host h p = Inr (canonical_json storing_generator bare_schema)" for h p
    by (simp add: storing_host_def)
  have tokens: "json_tokens a = json_tokens b \<Longrightarrow> gl_parse storing_generator a = gl_parse storing_generator b" for a b
    by (simp add: storing_generator_def)
  have "''schema.json'' \<noteq> ''-''" by simp
  from inspected_schema_loads[OF acquired ok this tokens parse read, THEN conjunct2] show ?thesis
    by (simp only: fst_conv)
qed

end
