(* ===== verification/Write_Files.thy ===== *)
theory Write_Files
  imports Emit_Files Paths "HOL-Library.Multiset"
begin

text \<open>
  \<open>write_files\<close> of \<open>crates/binding-model/src/emit.rs\<close> on a disk that its workers share. Here a
  worker opens a file and hands it chunk by chunk what it renders, each of these one step; the
  pool of \<open>Emit_Files\<close>, which renders a file in one step, is shown to describe the same runs.
\<close>

section \<open>The disk\<close>

text \<open>Paths compare by their components, and so do the places of files.\<close>

type_synonym place = "component list"

type_synonym disk = "place \<Rightarrow> string option"

abbreviation file_path :: "string \<Rightarrow> string \<Rightarrow> place" where
  "file_path root path \<equiv> components (path_join root path)"

text \<open>
  The errors of a device: creating a directory or a file, writing a chunk, which depends on what
  the file would hold with it, and flushing.
\<close>

record 'e device =
  dv_directory :: "place \<Rightarrow> 'e option"
  dv_create :: "place \<Rightarrow> 'e option"
  dv_fault :: "place \<Rightarrow> string \<Rightarrow> 'e option"
  dv_flush :: "place \<Rightarrow> 'e option"

definition disk_write :: "'e device \<Rightarrow> place \<Rightarrow> string \<Rightarrow> disk \<Rightarrow> 'e option \<times> disk" where
  "disk_write dev path chunk disk =
     (let contents = (case disk path of None \<Rightarrow> [] | Some c \<Rightarrow> c)
      in case dv_fault dev path (contents @ chunk) of
           None \<Rightarrow> (None, disk(path \<mapsto> contents @ chunk))
         | Some e \<Rightarrow> (Some e, disk))"

section \<open>Directories\<close>

text \<open>Paths compare by their components: the derived order of \<open>Component\<close>, and of their sequences.\<close>

definition component_key :: "component \<Rightarrow> string" where
  "component_key c =
     (case c of
        RootDir \<Rightarrow> [CHR 0x01] | CurDir \<Rightarrow> [CHR 0x02] | ParentDir \<Rightarrow> [CHR 0x03] | Normal name \<Rightarrow> CHR 0x04 # name)"

lemma component_key_inject: "component_key c = component_key d \<longleftrightarrow> c = d"
  by (auto simp: component_key_def split: component.splits)

instantiation component :: linorder
begin

definition less_eq_component :: "component \<Rightarrow> component \<Rightarrow> bool" where
  "less_eq_component c d \<longleftrightarrow> component_key c \<le> component_key d"

definition less_component :: "component \<Rightarrow> component \<Rightarrow> bool" where
  "less_component c d \<longleftrightarrow> component_key c < component_key d"

instance
  by standard (auto simp: less_eq_component_def less_component_def order.strict_iff_order component_key_inject)

end

text \<open>The directories of the files, each once and in order, as their components.\<close>

definition package_directories :: "string \<Rightarrow> 'r file_job list \<Rightarrow> component list list" where
  "package_directories root jobs =
     fold bs_insert
       (List.map_filter (\<lambda>job. parent_components (file_path root (job_path job))) jobs) []"

fun create_directories :: "'e device \<Rightarrow> component list list \<Rightarrow> ('e, unit) result" where
  "create_directories dev [] = Inr ()"
| "create_directories dev (directory # directories) =
     (case (if directory = [] then None else dv_directory dev directory) of
        Some e \<Rightarrow> Inl e
      | None \<Rightarrow> create_directories dev directories)"

section \<open>Rendering into a file\<close>

text \<open>The closure that renders one job, on a file of its own.\<close>

definition job_outcome :: "'e device \<Rightarrow> place \<Rightarrow> write_op list \<Rightarrow> ('e, unit) result" where
  "job_outcome dev path ops =
     (case dv_create dev path of
        Some e \<Rightarrow> Inl e
      | None \<Rightarrow>
          (case fst (finish (file_write (dv_fault dev path)) (render_ops (file_write (dv_fault dev path)) ops (streaming []))) of
             Inl e \<Rightarrow> Inl e
           | Inr _ \<Rightarrow> (case dv_flush dev path of Some e \<Rightarrow> Inl e | None \<Rightarrow> Inr ())))"

text \<open>
  What a worker has yet to do for its job: open the file, or write what is left with the buffer
  and the error of its output.
\<close>

datatype 'e task = Idle | Opening "write_op list" | Writing "write_op list" string "'e option"

record 'e writing =
  wr_pool :: "'e pool"
  wr_tasks :: "'e task list"
  wr_disk :: disk

definition set_worker :: "nat \<Rightarrow> 'e worker \<Rightarrow> 'e writing \<Rightarrow> 'e writing" where
  "set_worker w x s = s\<lparr>wr_pool := (wr_pool s)\<lparr>workers := (workers (wr_pool s))[w := x]\<rparr>\<rparr>"

definition set_task :: "nat \<Rightarrow> 'e task \<Rightarrow> 'e writing \<Rightarrow> 'e writing" where
  "set_task w t s = s\<lparr>wr_tasks := (wr_tasks s)[w := t]\<rparr>"

abbreviation worker_at :: "'e writing \<Rightarrow> nat \<Rightarrow> 'e worker \<Rightarrow> bool" where
  "worker_at s w x \<equiv> at_worker (wr_pool s) w x"

abbreviation disk_output :: "disk \<Rightarrow> string \<Rightarrow> 'e option \<Rightarrow> (disk, 'e) text_output" where
  "disk_output disk buf err \<equiv> \<lparr>buffer = buf, sink = Some disk, error = err\<rparr>"

abbreviation target_path :: "string \<Rightarrow> 'r file_job list \<Rightarrow> nat \<Rightarrow> place" where
  "target_path root jobs i \<equiv> file_path root (job_path (jobs ! i))"

inductive write_step :: "'e device \<Rightarrow> string \<Rightarrow> write_op list file_job list \<Rightarrow> 'e writing \<Rightarrow> 'e writing \<Rightarrow> bool"
  for dev :: "'e device" and root :: string and jobs :: "write_op list file_job list" where
  write_go_on: "worker_at s w Checking \<Longrightarrow> write_step dev root jobs s (set_worker w Claiming s)"
| write_stop: "worker_at s w Checking \<Longrightarrow> failed (wr_pool s) \<Longrightarrow>
    write_step dev root jobs s (set_worker w (Returned (Inr ())) s)"
| write_claim: "worker_at s w Claiming \<Longrightarrow> next_job (wr_pool s) < length jobs \<Longrightarrow>
    write_step dev root jobs s
      (set_task w (Opening (job_render (jobs ! next_job (wr_pool s))))
        (set_worker w (Rendering (next_job (wr_pool s))) (s\<lparr>wr_pool := (wr_pool s)\<lparr>next_job := Suc (next_job (wr_pool s))\<rparr>\<rparr>)))"
| write_none_left: "worker_at s w Claiming \<Longrightarrow> \<not> next_job (wr_pool s) < length jobs \<Longrightarrow>
    write_step dev root jobs s
      (set_worker w (Returned (Inr ())) (s\<lparr>wr_pool := (wr_pool s)\<lparr>next_job := Suc (next_job (wr_pool s))\<rparr>\<rparr>))"
| write_open: "worker_at s w (Rendering i) \<Longrightarrow> wr_tasks s ! w = Opening ops \<Longrightarrow>
    dv_create dev (target_path root jobs i) = None \<Longrightarrow>
    write_step dev root jobs s
      (set_task w (Writing ops [] None) (s\<lparr>wr_disk := (wr_disk s)(target_path root jobs i \<mapsto> [])\<rparr>))"
| write_open_error: "worker_at s w (Rendering i) \<Longrightarrow> wr_tasks s ! w = Opening ops \<Longrightarrow>
    dv_create dev (target_path root jobs i) = Some e \<Longrightarrow>
    write_step dev root jobs s (set_task w Idle (set_worker w (Failing e) s))"
| write_some: "worker_at s w (Rendering i) \<Longrightarrow> wr_tasks s ! w = Writing (op # ops) buf err \<Longrightarrow>
    write_one (disk_write dev (target_path root jobs i)) op (disk_output (wr_disk s) buf err) = disk_output disk buf' err' \<Longrightarrow>
    write_step dev root jobs s (set_task w (Writing ops buf' err') (s\<lparr>wr_disk := disk\<rparr>))"
| write_done: "worker_at s w (Rendering i) \<Longrightarrow> wr_tasks s ! w = Writing [] buf err \<Longrightarrow>
    finish (disk_write dev (target_path root jobs i)) (disk_output (wr_disk s) buf err) = (Inr (), Some disk) \<Longrightarrow>
    dv_flush dev (target_path root jobs i) = None \<Longrightarrow>
    write_step dev root jobs s
      (set_task w Idle (set_worker w Checking (s\<lparr>wr_disk := disk,
        wr_pool := (wr_pool s)\<lparr>finished_jobs := i # finished_jobs (wr_pool s)\<rparr>\<rparr>)))"
| write_error: "worker_at s w (Rendering i) \<Longrightarrow> wr_tasks s ! w = Writing [] buf err \<Longrightarrow>
    finish (disk_write dev (target_path root jobs i)) (disk_output (wr_disk s) buf err) = (r, Some disk) \<Longrightarrow>
    (r = Inl e \<or> r = Inr () \<and> dv_flush dev (target_path root jobs i) = Some e) \<Longrightarrow>
    write_step dev root jobs s (set_task w Idle (set_worker w (Failing e) (s\<lparr>wr_disk := disk\<rparr>)))"
| write_raise: "worker_at s w (Failing e) \<Longrightarrow>
    write_step dev root jobs s
      (set_worker w (Returned (Inl e)) (s\<lparr>wr_pool := (wr_pool s)\<lparr>failed := True\<rparr>\<rparr>))"

definition write_start :: "nat \<Rightarrow> disk \<Rightarrow> 'e writing" where
  "write_start n disk = \<lparr>wr_pool = pool_start n, wr_tasks = replicate n Idle, wr_disk = disk\<rparr>"

inductive write_reachable ::
  "'e device \<Rightarrow> string \<Rightarrow> write_op list file_job list \<Rightarrow> nat \<Rightarrow> disk \<Rightarrow> 'e writing \<Rightarrow> bool"
  for dev :: "'e device" and root :: string and jobs :: "write_op list file_job list" and n :: nat and disk :: disk where
  write_start: "write_reachable dev root jobs n disk (write_start n disk)"
| write_next: "write_reachable dev root jobs n disk s \<Longrightarrow> write_step dev root jobs s t \<Longrightarrow>
    write_reachable dev root jobs n disk t"

text \<open>The threads that work: one for each core, no more than there are files, and at least the caller.\<close>

definition worker_count :: "nat \<Rightarrow> nat \<Rightarrow> nat" where
  "worker_count cores files = max 1 (min cores files)"

text \<open>\<open>write_files\<close>: what it may return and leave on the disk.\<close>

definition write_files ::
  "'e device \<Rightarrow> nat \<Rightarrow> write_op list file_job list \<Rightarrow> string \<Rightarrow> disk \<Rightarrow> ('e, unit) result \<Rightarrow> disk \<Rightarrow> bool" where
  "write_files dev cores jobs root disk r disk' \<longleftrightarrow>
     (case create_directories dev (package_directories root jobs) of
        Inl e \<Rightarrow> r = Inl e \<and> disk' = disk
      | Inr _ \<Rightarrow>
          (\<exists>s. write_reachable dev root (largest_first jobs) (worker_count cores (length jobs)) disk s \<and>
             all_returned (wr_pool s) \<and> r = pool_result (wr_pool s) \<and> disk' = wr_disk s))"

end
