(* ===== verification/Write_Files_Correct.thy ===== *)
theory Write_Files_Correct
  imports Write_Files
begin

text \<open>
  Runs of \<open>write_files\<close>: they refine the pool of \<open>Emit_Files\<close>, they end, and what they leave on
  the disk is each file whole, or an error and the beginnings of files.
\<close>

section \<open>A file on the shared disk\<close>

text \<open>An output into a file of its own, as one into the shared disk.\<close>

definition on_disk :: "disk \<Rightarrow> place \<Rightarrow> (string, 'e) text_output \<Rightarrow> (disk, 'e) text_output" where
  "on_disk disk path out =
     \<lparr>buffer = buffer out, sink = map_option (\<lambda>c. disk(path \<mapsto> c)) (sink out), error = error out\<rparr>"

lemma flush_on_disk:
  "flush_buffer (disk_write dev path) (on_disk disk path out) =
     on_disk disk path (flush_buffer (file_write (dv_fault dev path)) out)"
  by (auto simp: on_disk_def flush_buffer_def disk_write_def file_write_def Let_def split: option.splits)

lemma write_one_on_disk:
  "write_one (disk_write dev path) op (on_disk disk path out) =
     on_disk disk path (write_one (file_write (dv_fault dev path)) op out)"
proof (cases op)
  case (WriteStr s)
  have "on_disk disk path out\<lparr>buffer := b\<rparr> = on_disk disk path (out\<lparr>buffer := b\<rparr>)" for b
    by (simp add: on_disk_def)
  with WriteStr show ?thesis by (simp add: push_str_def Let_def flush_on_disk) (auto simp: on_disk_def)
next
  case (WriteChar s)
  then show ?thesis by (simp add: push_character_def on_disk_def)
qed

lemma finish_on_disk:
  "finish (disk_write dev path) (on_disk disk path out) =
     (fst (finish (file_write (dv_fault dev path)) out),
      map_option (\<lambda>c. disk(path \<mapsto> c)) (snd (finish (file_write (dv_fault dev path)) out)))"
  by (simp add: finish_def Let_def flush_on_disk) (simp add: on_disk_def)

text \<open>What a worker has rendered so far.\<close>

abbreviation rendered_so_far :: "'e device \<Rightarrow> place \<Rightarrow> write_op list \<Rightarrow> (string, 'e) text_output" where
  "rendered_so_far dev path ops \<equiv> render_ops (file_write (dv_fault dev path)) ops (streaming [])"

text \<open>The disk holds what the worker's own file would hold.\<close>

definition task_ok :: "'e device \<Rightarrow> place \<Rightarrow> write_op list \<Rightarrow> disk \<Rightarrow> 'e task \<Rightarrow> bool" where
  "task_ok dev path ops disk t \<longleftrightarrow>
     (case t of
        Idle \<Rightarrow> False
      | Opening rest \<Rightarrow> rest = ops
      | Writing rest buf err \<Rightarrow> dv_create dev path = None \<and>
          (\<exists>done_ops c. ops = done_ops @ rest \<and> disk path = Some c \<and>
             rendered_so_far dev path done_ops = \<lparr>buffer = buf, sink = Some c, error = err\<rparr>))"

lemma disk_output_is: "disk path = Some c \<Longrightarrow> disk_output disk buf err = on_disk disk path \<lparr>buffer = buf, sink = Some c, error = err\<rparr>"
  by (auto simp: on_disk_def fun_upd_idem)

lemma task_ok_elsewhere: "disk' path = disk path \<Longrightarrow> task_ok dev path ops disk' t \<longleftrightarrow> task_ok dev path ops disk t"
  by (auto simp: task_ok_def split: task.splits)

lemma streaming_sink: "sink (rendered_so_far dev path ops) \<noteq> None"
  by (simp add: sink_kept) (simp add: streaming_def)

lemma rendered_prefix:
  assumes "rendered_so_far dev path done_ops = \<lparr>buffer = buf, sink = Some c, error = err\<rparr>"
  shows "\<exists>rest. c @ rest = rendered_text (done_ops @ ops)"
proof -
  have "streamed [] (streaming [])" by (simp add: streamed_def streaming_def)
  from streamed_ops[OF this, of done_ops "dv_fault dev path"] assms
  have "\<exists>rest. c @ rest = rendered_text done_ops" by (auto simp: streamed_def split: option.splits)
  then obtain rest where "c @ rest = rendered_text done_ops" by blast
  then have "c @ (rest @ rendered_text ops) = rendered_text (done_ops @ ops)"
    by (metis append.assoc concat_append map_append rendered_text_def)
  then show ?thesis by blast
qed

text \<open>Writing one more piece changes the worker's own file only, as its own output does.\<close>

lemma write_some_ok:
  assumes "task_ok dev path ops disk (Writing (op # rest) buf err)"
    and "write_one (disk_write dev path) op (disk_output disk buf err) = disk_output disk' buf' err'"
  shows "task_ok dev path ops disk' (Writing rest buf' err')" and "\<And>q. q \<noteq> path \<Longrightarrow> disk' q = disk q"
proof -
  from assms(1) obtain done_ops c where create: "dv_create dev path = None" and ops: "ops = done_ops @ op # rest"
    and c: "disk path = Some c" and so_far: "rendered_so_far dev path done_ops = \<lparr>buffer = buf, sink = Some c, error = err\<rparr>"
    by (auto simp: task_ok_def)
  let ?next = "rendered_so_far dev path (done_ops @ [op])"
  have "disk_output disk' buf' err' = on_disk disk path ?next"
    using assms(2) by (simp add: disk_output_is[of disk path c, OF c] write_one_on_disk so_far[symmetric] render_ops_def)
  moreover obtain d where d: "sink ?next = Some d" using streaming_sink[of dev path "done_ops @ [op]"] by blast
  ultimately have disk': "disk' = disk(path \<mapsto> d)" and "?next = \<lparr>buffer = buf', sink = Some d, error = err'\<rparr>"
    by (auto simp: on_disk_def intro: text_output.equality)
  with create ops show "task_ok dev path ops disk' (Writing rest buf' err')"
    by (auto simp: task_ok_def intro!: exI[of _ "done_ops @ [op]"])
  show "disk' q = disk q" if "q \<noteq> path" for q using that by (simp add: disk')
qed

text \<open>Finishing gives the result of the job, and a file that holds its text unless that is an error.\<close>

lemma write_done_ok:
  assumes "task_ok dev path ops disk (Writing [] buf err)"
    and "finish (disk_write dev path) (disk_output disk buf err) = (r, Some disk')"
  shows "job_outcome dev path ops = (case r of Inl e \<Rightarrow> Inl e | Inr _ \<Rightarrow>
      (case dv_flush dev path of Some e \<Rightarrow> Inl e | None \<Rightarrow> Inr ()))"
    and "\<And>q. q \<noteq> path \<Longrightarrow> disk' q = disk q"
    and "\<exists>c rest. disk' path = Some c \<and> c @ rest = rendered_text ops"
    and "r = Inr () \<Longrightarrow> disk' path = Some (rendered_text ops)"
proof -
  from assms(1) obtain c where create: "dv_create dev path = None"
    and c: "disk path = Some c" and so_far: "rendered_so_far dev path ops = \<lparr>buffer = buf, sink = Some c, error = err\<rparr>"
    by (auto simp: task_ok_def)
  obtain r0 s where own: "finish (file_write (dv_fault dev path)) (rendered_so_far dev path ops) = (r0, s)" by fastforce
  have "finish (disk_write dev path) (disk_output disk buf err) = (r0, map_option (\<lambda>c. disk(path \<mapsto> c)) s)"
    using own[unfolded so_far] by (simp add: disk_output_is[of disk path c, OF c] finish_on_disk)
  with assms(2) obtain d where r: "r0 = r" and s: "s = Some d" and disk': "disk' = disk(path \<mapsto> d)" by auto
  show "job_outcome dev path ops = (case r of Inl e \<Rightarrow> Inl e | Inr _ \<Rightarrow>
      (case dv_flush dev path of Some e \<Rightarrow> Inl e | None \<Rightarrow> Inr ()))"
    by (simp add: job_outcome_def create own r)
  show "disk' q = disk q" if "q \<noteq> path" for q using that by (simp add: disk')
  from finish_streaming[OF own] show "\<exists>c rest. disk' path = Some c \<and> c @ rest = rendered_text ops"
    by (auto simp: disk' r s split: sum.splits)
  from finish_streaming[OF own] show "disk' path = Some (rendered_text ops)" if "r = Inr ()"
    using that by (auto simp: disk' r s)
qed

section \<open>The shared disk during a run\<close>

abbreviation job_text :: "write_op list file_job list \<Rightarrow> nat \<Rightarrow> string" where
  "job_text jobs i \<equiv> rendered_text (job_render (jobs ! i))"

abbreviation outcomes :: "'e device \<Rightarrow> string \<Rightarrow> write_op list file_job list \<Rightarrow> nat \<Rightarrow> ('e, unit) result" where
  "outcomes dev root jobs i \<equiv> job_outcome dev (target_path root jobs i) (job_render (jobs ! i))"

text \<open>Each worker's task fits the file of the job it renders.\<close>

definition tasks_ok :: "'e device \<Rightarrow> string \<Rightarrow> write_op list file_job list \<Rightarrow> 'e writing \<Rightarrow> bool" where
  "tasks_ok dev root jobs s \<longleftrightarrow>
     (\<forall>w i. worker_at s w (Rendering i) \<longrightarrow>
        task_ok dev (target_path root jobs i) (job_render (jobs ! i)) (wr_disk s) (wr_tasks s ! w))"

text \<open>A file is as it was, or holds the beginning of its text, all of it when its job is finished.\<close>

definition file_ok :: "string \<Rightarrow> write_op list file_job list \<Rightarrow> disk \<Rightarrow> 'e pool \<Rightarrow> disk \<Rightarrow> nat \<Rightarrow> bool" where
  "file_ok root jobs old p disk i \<longleftrightarrow>
     (i \<in> set (finished_jobs p) \<longrightarrow> disk (target_path root jobs i) = Some (job_text jobs i)) \<and>
     (next_job p \<le> i \<longrightarrow> disk (target_path root jobs i) = old (target_path root jobs i)) \<and>
     (disk (target_path root jobs i) = old (target_path root jobs i) \<or>
      (\<exists>c rest. disk (target_path root jobs i) = Some c \<and> c @ rest = job_text jobs i))"

definition files_ok :: "string \<Rightarrow> write_op list file_job list \<Rightarrow> disk \<Rightarrow> 'e writing \<Rightarrow> bool" where
  "files_ok root jobs old s \<longleftrightarrow> (\<forall>i < length jobs. file_ok root jobs old (wr_pool s) (wr_disk s) i) \<and>
     (\<forall>q. q \<notin> target_path root jobs ` {..<length jobs} \<longrightarrow> wr_disk s q = old q)"

definition paths_differ :: "string \<Rightarrow> 'r file_job list \<Rightarrow> bool" where
  "paths_differ root jobs \<longleftrightarrow> distinct (map (\<lambda>job. file_path root (job_path job)) jobs)"

lemma paths_differD:
  "paths_differ root jobs \<Longrightarrow> i < length jobs \<Longrightarrow> j < length jobs \<Longrightarrow>
     target_path root jobs i = target_path root jobs j \<longleftrightarrow> i = j"
  unfolding paths_differ_def by (metis (no_types, lifting) length_map nth_eq_iff_index_eq nth_map)

lemmas writing_defs = set_worker_def set_task_def

text \<open>Steps that leave the disk alone and do not start to render.\<close>

lemma tasks_ok_control:
  assumes "tasks_ok dev root jobs s" and "\<And>i. x \<noteq> Rendering i"
    and "workers (wr_pool t) = (workers (wr_pool s))[w := x]"
    and "wr_tasks t = wr_tasks s \<or> (\<exists>y. wr_tasks t = (wr_tasks s)[w := y])" and "wr_disk t = wr_disk s"
  shows "tasks_ok dev root jobs t"
  unfolding tasks_ok_def
proof (intro allI impI)
  fix v i assume at: "worker_at t v (Rendering i)"
  with assms(2,3) have "v \<noteq> w" by (auto simp: nth_list_update)
  with at assms(3) have "worker_at s v (Rendering i)" by (simp add: nth_list_update)
  moreover from \<open>v \<noteq> w\<close> assms(4) have "wr_tasks t ! v = wr_tasks s ! v" by auto
  ultimately show "task_ok dev (target_path root jobs i) (job_render (jobs ! i)) (wr_disk t) (wr_tasks t ! v)"
    using assms(1,5) unfolding tasks_ok_def by simp
qed

text \<open>Steps of a worker that change the file of its own job only.\<close>

lemma tasks_ok_render:
  assumes ok: "tasks_ok dev root jobs s" and claims: "claims_ok (length jobs) (wr_pool s)"
    and differ: "paths_differ root jobs" and at: "worker_at s w (Rendering i)"
    and others: "\<And>q. q \<noteq> target_path root jobs i \<Longrightarrow> wr_disk t q = wr_disk s q"
    and workers: "workers (wr_pool t) = (workers (wr_pool s))[w := x]"
    and own: "x = Rendering i \<and> task_ok dev (target_path root jobs i) (job_render (jobs ! i)) (wr_disk t) y \<or>
      (\<forall>j. x \<noteq> Rendering j)"
    and tasks: "length (wr_tasks s) = length (workers (wr_pool s))" "wr_tasks t = (wr_tasks s)[w := y]"
  shows "tasks_ok dev root jobs t"
  unfolding tasks_ok_def
proof (intro allI impI)
  fix v j assume v: "worker_at t v (Rendering j)"
  show "task_ok dev (target_path root jobs j) (job_render (jobs ! j)) (wr_disk t) (wr_tasks t ! v)"
  proof (cases "v = w")
    case True
    with v workers at own tasks show ?thesis by auto
  next
    case False
    with v workers have other: "worker_at s v (Rendering j)" by (simp add: nth_list_update)
    with at claims False have "j < length jobs" "i < length jobs" "j \<noteq> i"
      unfolding claims_ok_def by blast+
    with differ have "target_path root jobs j \<noteq> target_path root jobs i" using paths_differD by blast
    then have "wr_disk t (target_path root jobs j) = wr_disk s (target_path root jobs j)" by (rule others)
    then have "task_ok dev (target_path root jobs j) (job_render (jobs ! j)) (wr_disk t) (wr_tasks s ! v) \<longleftrightarrow>
        task_ok dev (target_path root jobs j) (job_render (jobs ! j)) (wr_disk s) (wr_tasks s ! v)"
      by (rule task_ok_elsewhere)
    moreover from other ok have "task_ok dev (target_path root jobs j) (job_render (jobs ! j)) (wr_disk s) (wr_tasks s ! v)"
      unfolding tasks_ok_def by blast
    ultimately show ?thesis using False tasks(2) by simp
  qed
qed

lemma files_ok_render:
  assumes ok: "files_ok root jobs old s" and claims: "claims_ok (length jobs) (wr_pool s)"
    and differ: "paths_differ root jobs" and at: "worker_at s w (Rendering i)"
    and others: "\<And>q. q \<noteq> target_path root jobs i \<Longrightarrow> wr_disk t q = wr_disk s q"
    and own: "\<exists>c rest. wr_disk t (target_path root jobs i) = Some c \<and> c @ rest = job_text jobs i"
    and pool: "next_job (wr_pool t) = next_job (wr_pool s)"
    and finished: "finished_jobs (wr_pool t) = finished_jobs (wr_pool s) \<or>
      finished_jobs (wr_pool t) = i # finished_jobs (wr_pool s) \<and>
        wr_disk t (target_path root jobs i) = Some (job_text jobs i)"
  shows "files_ok root jobs old t"
proof -
  from at claims have i: "i < length jobs" "i < next_job (wr_pool s)" "i \<notin> set (finished_jobs (wr_pool s))"
    unfolding claims_ok_def by blast+
  have "file_ok root jobs old (wr_pool t) (wr_disk t) j" if j: "j < length jobs" for j
  proof (cases "j = i")
    case True
    with i pool own finished show ?thesis by (auto simp: file_ok_def)
  next
    case False
    with paths_differD[OF differ j i(1)] others
    have "wr_disk t (target_path root jobs j) = wr_disk s (target_path root jobs j)" by blast
    moreover have "file_ok root jobs old (wr_pool s) (wr_disk s) j" using ok j by (simp add: files_ok_def)
    ultimately show ?thesis using False pool finished by (auto simp: file_ok_def)
  qed
  moreover have "wr_disk t q = old q" if "q \<notin> target_path root jobs ` {..<length jobs}" for q
  proof -
    from that i(1) have "q \<noteq> target_path root jobs i" by blast
    then have "wr_disk t q = wr_disk s q" by (rule others)
    with ok that show ?thesis by (simp add: files_ok_def)
  qed
  ultimately show ?thesis by (simp add: files_ok_def)
qed

lemma files_ok_control:
  assumes "files_ok root jobs old s" and "next_job (wr_pool s) \<le> next_job (wr_pool t)"
    and "finished_jobs (wr_pool t) = finished_jobs (wr_pool s)" and "wr_disk t = wr_disk s"
  shows "files_ok root jobs old t"
  using assms by (auto simp: files_ok_def file_ok_def)

section \<open>The pool describes the run\<close>

text \<open>
  A refinement mapping: forgetting the tasks and the disk, every step is one of the pool whose
  jobs have the outcome they have alone, or no step of it.
\<close>

lemma write_step_simulates:
  assumes "write_step dev root jobs s t" and ok: "tasks_ok dev root jobs s"
  shows "wr_pool t = wr_pool s \<or> pool_step (length jobs) (outcomes dev root jobs) (wr_pool s) (wr_pool t)"
  using assms(1)
proof cases
  case (write_go_on w)
  then show ?thesis using go_on[of w "wr_pool s"] by (simp add: writing_defs)
next
  case (write_stop w)
  then show ?thesis using stop[of w "wr_pool s"] by (simp add: writing_defs)
next
  case (write_claim w)
  then show ?thesis using claim[of w "wr_pool s" "length jobs"] by (simp add: writing_defs)
next
  case (write_none_left w)
  then show ?thesis using none_left[of w "wr_pool s" "length jobs"] by (simp add: writing_defs)
next
  case (write_open w i ops)
  then show ?thesis by (simp add: writing_defs)
next
  case (write_open_error w i ops e)
  then have "outcomes dev root jobs i = Inl e" by (simp add: job_outcome_def)
  with write_open_error show ?thesis using render_error[of w "wr_pool s" i] by (simp add: writing_defs)
next
  case (write_some w i op ops buf err disk buf' err')
  then show ?thesis by (simp add: writing_defs)
next
  case (write_done w i buf err disk)
  then have "task_ok dev (target_path root jobs i) (job_render (jobs ! i)) (wr_disk s) (Writing [] buf err)"
    using ok unfolding tasks_ok_def by metis
  from write_done_ok(1)[OF this write_done(4)] write_done(5) have "outcomes dev root jobs i = Inr ()" by simp
  moreover have "wr_pool t = (wr_pool s)\<lparr>workers := (workers (wr_pool s))[w := Checking],
      finished_jobs := i # finished_jobs (wr_pool s)\<rparr>" using write_done(1) by (simp add: writing_defs)
  ultimately show ?thesis using rendered[of w "wr_pool s" i "outcomes dev root jobs"] write_done(2) by simp
next
  case (write_error w i buf err r disk e)
  then have "task_ok dev (target_path root jobs i) (job_render (jobs ! i)) (wr_disk s) (Writing [] buf err)"
    using ok unfolding tasks_ok_def by metis
  from write_done_ok(1)[OF this write_error(4)] write_error(5) have "outcomes dev root jobs i = Inl e" by auto
  with write_error show ?thesis using render_error[of w "wr_pool s" i] by (simp add: writing_defs)
next
  case (write_raise w e)
  then show ?thesis using raise[of w "wr_pool s"] by (simp add: writing_defs)
qed

definition writing_ok ::
  "'e device \<Rightarrow> string \<Rightarrow> write_op list file_job list \<Rightarrow> nat \<Rightarrow> disk \<Rightarrow> 'e writing \<Rightarrow> bool" where
  "writing_ok dev root jobs n old s \<longleftrightarrow>
     pool_reachable n (length jobs) (outcomes dev root jobs) (wr_pool s) \<and> length (wr_tasks s) = n \<and>
     tasks_ok dev root jobs s \<and> files_ok root jobs old s"

lemma writing_ok_start: "writing_ok dev root jobs n disk (write_start n disk)"
  unfolding writing_ok_def
  by (auto simp: write_start_def tasks_ok_def files_ok_def file_ok_def pool_start_def
      intro: pool_reachable.start[unfolded pool_start_def])

lemma tasks_ok_claim:
  assumes ok: "tasks_ok dev root jobs s" and at: "worker_at s w Claiming"
    and tasks: "length (wr_tasks s) = length (workers (wr_pool s))"
  shows "tasks_ok dev root jobs
      (set_task w (Opening (job_render (jobs ! next_job (wr_pool s))))
        (set_worker w (Rendering (next_job (wr_pool s))) (s\<lparr>wr_pool := (wr_pool s)\<lparr>next_job := Suc (next_job (wr_pool s))\<rparr>\<rparr>)))"
    (is "tasks_ok dev root jobs ?t")
  unfolding tasks_ok_def
proof (intro allI impI)
  fix v j assume v: "worker_at ?t v (Rendering j)"
  show "task_ok dev (target_path root jobs j) (job_render (jobs ! j)) (wr_disk ?t) (wr_tasks ?t ! v)"
  proof (cases "v = w")
    case True
    with v at tasks show ?thesis by (auto simp: writing_defs task_ok_def)
  next
    case False
    with v have "worker_at s v (Rendering j)" by (auto simp: writing_defs nth_list_update)
    with ok False show ?thesis by (simp add: writing_defs tasks_ok_def)
  qed
qed

lemma tasks_ok_step:
  assumes step: "write_step dev root jobs s t" and ok: "writing_ok dev root jobs n old s"
    and differ: "paths_differ root jobs"
  shows "tasks_ok dev root jobs t \<and> files_ok root jobs old t"
proof -
  from ok pool_invariant have claims: "claims_ok (length jobs) (wr_pool s)"
    and tasks: "length (wr_tasks s) = length (workers (wr_pool s))"
    unfolding writing_ok_def by (blast, metis)
  from ok have tok: "tasks_ok dev root jobs s" and fok: "files_ok root jobs old s" by (simp_all add: writing_ok_def)
  have task: "task_ok dev (target_path root jobs i) (job_render (jobs ! i)) (wr_disk s) (wr_tasks s ! w)"
    if "worker_at s w (Rendering i)" for w i using tok that unfolding tasks_ok_def by blast
  have prefix: "\<exists>rest. c @ rest = rendered_text ops"
    if "task_ok dev path ops disk (Writing todo buf err)" "disk path = Some c" for path ops disk todo buf err c
  proof -
    from that obtain done_ops where "ops = done_ops @ todo"
      "rendered_so_far dev path done_ops = \<lparr>buffer = buf, sink = Some c, error = err\<rparr>" by (auto simp: task_ok_def)
    then show ?thesis using rendered_prefix[of dev path done_ops buf c err todo] by simp
  qed
  have still: "(workers (wr_pool s))[w := Rendering i] = workers (wr_pool s)" if "worker_at s w (Rendering i)" for w i
    using that by (metis list_update_id)
  note rendering = tasks_ok_render[OF tok claims differ _ _ _ _ tasks]
  note kept = files_ok_render[OF fok claims differ]
  from step show ?thesis
  proof cases
    case (write_go_on w)
    show ?thesis unfolding write_go_on(1)
      by (intro conjI tasks_ok_control[OF tok, of Claiming _ w] files_ok_control[OF fok]) (simp_all add: writing_defs)
  next
    case (write_stop w)
    show ?thesis unfolding write_stop(1)
      by (intro conjI tasks_ok_control[OF tok, of "Returned (Inr ())" _ w] files_ok_control[OF fok])
        (simp_all add: writing_defs)
  next
    case (write_claim w)
    have "tasks_ok dev root jobs t" unfolding write_claim(1) by (rule tasks_ok_claim[OF tok write_claim(2) tasks])
    moreover have "files_ok root jobs old t"
      unfolding write_claim(1) by (rule files_ok_control[OF fok]) (simp_all add: writing_defs)
    ultimately show ?thesis ..
  next
    case (write_none_left w)
    show ?thesis unfolding write_none_left(1)
      by (intro conjI tasks_ok_control[OF tok, of "Returned (Inr ())" _ w] files_ok_control[OF fok])
        (simp_all add: writing_defs)
  next
    case (write_open w i ops)
    from task[OF write_open(2)] write_open(3) have ops: "ops = job_render (jobs ! i)" by (simp add: task_ok_def)
    have "task_ok dev (target_path root jobs i) ops (wr_disk t) (Writing ops [] None)"
      using write_open(1,4) by (auto simp: task_ok_def writing_defs render_ops_def streaming_def)
    with write_open(1,2) ops show ?thesis
      by (intro conjI rendering[OF write_open(2), where x = "Rendering i"] kept[OF write_open(2)]) (auto simp: writing_defs still)
  next
    case (write_open_error w i ops e)
    show ?thesis unfolding write_open_error(1)
      by (intro conjI tasks_ok_control[OF tok, of "Failing e" _ w] files_ok_control[OF fok]) (auto simp: writing_defs)
  next
    case (write_some w i op ops buf err disk buf' err')
    from task[OF write_some(2)] write_some(3)
    have "task_ok dev (target_path root jobs i) (job_render (jobs ! i)) (wr_disk s) (Writing (op # ops) buf err)" by simp
    note next_ok = write_some_ok[OF this write_some(4)]
    then obtain c where "disk (target_path root jobs i) = Some c" by (auto simp: task_ok_def)
    with prefix[OF next_ok(1)] next_ok write_some(1,2) show ?thesis
      by (intro conjI rendering[OF write_some(2), where x = "Rendering i" and y = "Writing ops buf' err'"] kept[OF write_some(2)])
        (auto simp: writing_defs still)
  next
    case (write_done w i buf err disk)
    from task[OF write_done(2)] write_done(3)
    have "task_ok dev (target_path root jobs i) (job_render (jobs ! i)) (wr_disk s) (Writing [] buf err)" by simp
    note over = write_done_ok[OF this write_done(4)]
    with write_done(1) show ?thesis
      by (intro conjI rendering[OF write_done(2), where x = Checking and y = Idle] kept[OF write_done(2)]) (auto simp: writing_defs)
  next
    case (write_error w i buf err r disk e)
    from task[OF write_error(2)] write_error(3)
    have "task_ok dev (target_path root jobs i) (job_render (jobs ! i)) (wr_disk s) (Writing [] buf err)" by simp
    note over = write_done_ok[OF this write_error(4)]
    with write_error(1) show ?thesis
      by (intro conjI rendering[OF write_error(2), where x = "Failing e" and y = Idle] kept[OF write_error(2)]) (auto simp: writing_defs)
  next
    case (write_raise w e)
    show ?thesis unfolding write_raise(1)
      by (intro conjI tasks_ok_control[OF tok, of "Returned (Inl e)" _ w] files_ok_control[OF fok])
        (simp_all add: writing_defs)
  qed
qed

lemma writing_ok_step:
  assumes "write_step dev root jobs s t" and "writing_ok dev root jobs n old s" and "paths_differ root jobs"
  shows "writing_ok dev root jobs n old t"
proof -
  have "length (wr_tasks t) = length (wr_tasks s)"
    using assms(1) by cases (simp_all add: writing_defs)
  moreover have "pool_reachable n (length jobs) (outcomes dev root jobs) (wr_pool t)"
  proof -
    from assms(2) have reach: "pool_reachable n (length jobs) (outcomes dev root jobs) (wr_pool s)"
      and "tasks_ok dev root jobs s" by (simp_all add: writing_ok_def)
    from write_step_simulates[OF assms(1) this(2)] show ?thesis
      using reach pool_reachable.step[OF reach] by (elim disjE) simp_all
  qed
  ultimately show ?thesis
    using tasks_ok_step[OF assms] assms(2) by (simp add: writing_ok_def)
qed

lemma write_reachable_ok:
  "write_reachable dev root jobs n old s \<Longrightarrow> paths_differ root jobs \<Longrightarrow> writing_ok dev root jobs n old s"
  by (induction rule: write_reachable.induct) (auto intro: writing_ok_start writing_ok_step)

section \<open>What a finished run leaves\<close>

definition package_text :: "string \<Rightarrow> write_op list file_job list \<Rightarrow> (place \<times> string) list" where
  "package_text root jobs = map (\<lambda>job. (file_path root (job_path job), rendered_text (job_render job))) jobs"

lemma map_fst_package: "map fst (package_text root jobs) = map (\<lambda>job. file_path root (job_path job)) jobs"
  by (simp add: package_text_def)

lemma mset_largest_first: "mset (largest_first jobs) = mset jobs"
  by (simp add: largest_first_def)

lemma paths_differ_largest: "paths_differ root (largest_first jobs) \<longleftrightarrow> paths_differ root jobs"
proof -
  have "mset (map (\<lambda>job. file_path root (job_path job)) (largest_first jobs)) =
      mset (map (\<lambda>job. file_path root (job_path job)) jobs)"
    by (simp only: mset_map mset_largest_first)
  then show ?thesis unfolding paths_differ_def by (rule mset_eq_imp_distinct_iff)
qed

lemma package_text_largest:
  assumes "paths_differ root jobs"
  shows "map_of (package_text root (largest_first jobs)) = map_of (package_text root jobs)"
proof (rule map_of_inject_set[THEN iffD2])
  show "distinct (map fst (package_text root (largest_first jobs)))" "distinct (map fst (package_text root jobs))"
    using assms paths_differ_largest[of root jobs] by (simp_all add: map_fst_package paths_differ_def)
  show "set (package_text root (largest_first jobs)) = set (package_text root jobs)"
    using arg_cong[OF mset_largest_first[of jobs], of set_mset] by (simp add: package_text_def)
qed

lemma files_written:
  assumes ok: "files_ok root jobs old s" and differ: "paths_differ root jobs"
    and finished: "set (finished_jobs (wr_pool s)) = {..<length jobs}"
  shows "wr_disk s = old ++ map_of (package_text root jobs)"
proof
  fix q show "wr_disk s q = (old ++ map_of (package_text root jobs)) q"
  proof (cases "q \<in> target_path root jobs ` {..<length jobs}")
    case True
    then obtain i where i: "i < length jobs" and q: "q = target_path root jobs i" by blast
    then have "(q, job_text jobs i) \<in> set (package_text root jobs)" by (auto simp: package_text_def)
    moreover have "distinct (map fst (package_text root jobs))"
      using differ by (simp add: map_fst_package paths_differ_def)
    ultimately have "map_of (package_text root jobs) q = Some (job_text jobs i)" by simp
    with ok finished i show ?thesis by (simp add: files_ok_def file_ok_def q)
  next
    case False
    then have "q \<notin> fst ` set (package_text root jobs)"
      by (auto simp: package_text_def in_set_conv_nth)
    with ok False show ?thesis by (simp add: files_ok_def map_add_def map_of_eq_None_iff[THEN iffD2] split: option.split)
  qed
qed

text \<open>A file of the package is as it was or holds the beginning of its text, every other one is as it was.\<close>

definition partly_written :: "string \<Rightarrow> write_op list file_job list \<Rightarrow> disk \<Rightarrow> disk \<Rightarrow> bool" where
  "partly_written root jobs old disk \<longleftrightarrow>
     (\<forall>(path, contents) \<in> set (package_text root jobs).
        disk path = old path \<or> (\<exists>c rest. disk path = Some c \<and> c @ rest = contents)) \<and>
     (\<forall>q. q \<notin> fst ` set (package_text root jobs) \<longrightarrow> disk q = old q)"

lemma set_package_text:
  "set (package_text root jobs) = (\<lambda>i. (target_path root jobs i, job_text jobs i)) ` {..<length jobs}"
proof -
  have "set jobs = (!) jobs ` {..<length jobs}" by (auto simp: set_conv_nth)
  then show ?thesis by (simp add: package_text_def image_image)
qed

lemma files_partly_written: "files_ok root jobs old s \<Longrightarrow> partly_written root jobs old (wr_disk s)"
  unfolding partly_written_def set_package_text by (simp add: files_ok_def file_ok_def image_image)

lemma partly_written_largest: "partly_written root (largest_first jobs) old disk \<longleftrightarrow> partly_written root jobs old disk"
proof -
  have "set (package_text root (largest_first jobs)) = set (package_text root jobs)"
    using arg_cong[OF mset_largest_first[of jobs], of set_mset] by (simp add: package_text_def)
  then show ?thesis by (simp add: partly_written_def)
qed

lemma write_files_ok:
  assumes "write_files dev cores jobs root old (Inr u) disk" and differ: "paths_differ root jobs"
  shows "disk = old ++ map_of (package_text root jobs)"
proof -
  let ?jobs = "largest_first jobs"
  from assms(1) obtain s where s: "write_reachable dev root ?jobs (worker_count cores (length jobs)) old s"
    and over: "all_returned (wr_pool s)" and ok: "pool_result (wr_pool s) = Inr ()" and disk: "disk = wr_disk s"
    by (auto simp: write_files_def split: sum.splits)
  from differ have differ': "paths_differ root ?jobs" by (simp add: paths_differ_largest)
  from write_reachable_ok[OF s this] have
    reach: "pool_reachable (worker_count cores (length jobs)) (length ?jobs) (outcomes dev root ?jobs) (wr_pool s)"
    and files: "files_ok root ?jobs old s" by (simp_all add: writing_ok_def)
  have "set (finished_jobs (wr_pool s)) = {..<length ?jobs}"
    by (rule finished_run_ok(2)[OF reach _ over ok]) (simp add: worker_count_def)
  from files_written[OF files differ' this] show ?thesis by (simp add: disk package_text_largest[OF differ])
qed

lemma write_files_error:
  assumes "write_files dev cores jobs root old (Inl e) disk" and differ: "paths_differ root jobs"
  shows "partly_written root jobs old disk"
proof (cases "create_directories dev (package_directories root jobs)")
  case (Inl d)
  with assms(1) show ?thesis by (auto simp: write_files_def partly_written_def)
next
  case (Inr u)
  with assms(1) obtain s where s: "write_reachable dev root (largest_first jobs) (worker_count cores (length jobs)) old s"
    and disk: "disk = wr_disk s" by (auto simp: write_files_def)
  from differ have "paths_differ root (largest_first jobs)" by (simp add: paths_differ_largest)
  from write_reachable_ok[OF s this] have "files_ok root (largest_first jobs) old s" by (simp add: writing_ok_def)
  from files_partly_written[OF this] show ?thesis by (simp add: disk partly_written_largest)
qed

section \<open>Every run ends\<close>

fun write_rank :: "'e worker \<Rightarrow> 'e task \<Rightarrow> nat" where
  "write_rank (Returned _) _ = 0"
| "write_rank (Failing _) _ = 1"
| "write_rank Claiming _ = 1"
| "write_rank Checking _ = 2"
| "write_rank (Rendering _) Idle = 3"
| "write_rank (Rendering _) (Opening ops) = length ops + 4"
| "write_rank (Rendering _) (Writing ops _ _) = length ops + 3"

definition job_work :: "write_op list file_job list \<Rightarrow> nat \<Rightarrow> nat" where
  "job_work jobs i = length (job_render (jobs ! i)) + 4"

definition write_work :: "write_op list file_job list \<Rightarrow> 'e writing \<Rightarrow> nat" where
  "write_work jobs s = (\<Sum>i = next_job (wr_pool s)..<length jobs. job_work jobs i) +
     (\<Sum>w < length (workers (wr_pool s)). write_rank (workers (wr_pool s) ! w) (wr_tasks s ! w))"

lemma sum_at:
  fixes f g :: "nat \<Rightarrow> nat"
  assumes "w < n" and "\<And>v. v \<noteq> w \<Longrightarrow> g v = f v"
  shows "sum g {..<n} + f w = sum f {..<n} + g w"
proof -
  have "sum g ({..<n} - {w}) = sum f ({..<n} - {w})" using assms(2) by (intro sum.cong) auto
  with assms(1) show ?thesis by (simp add: sum.remove[of "{..<n}" w])
qed

lemma write_step_work:
  assumes "write_step dev root jobs s t" and tasks: "length (wr_tasks s) = length (workers (wr_pool s))"
  shows "write_work jobs t < write_work jobs s"
proof -
  let ?n = "length (workers (wr_pool s))"
  let ?f = "\<lambda>w. write_rank (workers (wr_pool s) ! w) (wr_tasks s ! w)"
  let ?g = "\<lambda>w. write_rank (workers (wr_pool t) ! w) (wr_tasks t ! w)"
  have n: "length (workers (wr_pool t)) = ?n" using assms(1) by cases (simp_all add: writing_defs)
  have "\<exists>w < ?n. (\<forall>v. v \<noteq> w \<longrightarrow> ?g v = ?f v) \<and>
      (\<Sum>i = next_job (wr_pool t)..<length jobs. job_work jobs i) + ?g w <
      (\<Sum>i = next_job (wr_pool s)..<length jobs. job_work jobs i) + ?f w"
    using assms(1)
  proof cases
    case (write_claim w)
    then have "(\<Sum>i = next_job (wr_pool s)..<length jobs. job_work jobs i) =
        job_work jobs (next_job (wr_pool s)) + (\<Sum>i = Suc (next_job (wr_pool s))..<length jobs. job_work jobs i)"
      by (simp add: sum.atLeast_Suc_lessThan)
    with write_claim tasks show ?thesis
      by (intro exI[of _ w]) (simp add: writing_defs job_work_def)
  next
    case (write_go_on w)
    with tasks show ?thesis by (intro exI[of _ w]) (simp add: writing_defs)
  next
    case (write_stop w)
    with tasks show ?thesis by (intro exI[of _ w]) (simp add: writing_defs)
  next
    case (write_none_left w)
    with tasks show ?thesis by (intro exI[of _ w]) (simp add: writing_defs)
  next
    case (write_open w i ops)
    with tasks show ?thesis by (intro exI[of _ w]) (simp add: writing_defs)
  next
    case (write_open_error w i ops e)
    with tasks show ?thesis by (intro exI[of _ w]) (simp add: writing_defs)
  next
    case (write_some w i op ops buf err disk buf' err')
    with tasks show ?thesis by (intro exI[of _ w]) (simp add: writing_defs)
  next
    case (write_done w i buf err disk)
    with tasks show ?thesis by (intro exI[of _ w]) (simp add: writing_defs)
  next
    case (write_error w i buf err r disk e)
    with tasks show ?thesis by (intro exI[of _ w]) (simp add: writing_defs)
  next
    case (write_raise w e)
    with tasks show ?thesis by (intro exI[of _ w]) (simp add: writing_defs)
  qed
  then obtain w where "w < ?n" "\<forall>v. v \<noteq> w \<longrightarrow> ?g v = ?f v"
    and less: "(\<Sum>i = next_job (wr_pool t)..<length jobs. job_work jobs i) + ?g w <
      (\<Sum>i = next_job (wr_pool s)..<length jobs. job_work jobs i) + ?f w" by blast
  then have "sum ?g {..<?n} + ?f w = sum ?f {..<?n} + ?g w" by (intro sum_at) auto
  with less show ?thesis unfolding write_work_def n by linarith
qed

lemma finish_disk: "\<exists>r d. finish (disk_write dev path) (disk_output disk buf err) = (r, Some d)"
  by (auto simp: finish_def flush_buffer_def Let_def case_prod_beta split: option.splits)

lemma write_one_disk:
  "\<exists>disk' buf' err'. write_one (disk_write dev path) op (disk_output disk buf err) = disk_output disk' buf' err'"
proof -
  let ?out = "write_one (disk_write dev path) op (disk_output disk buf err)"
  have "sink ?out \<noteq> None"
    using sink_kept[of "disk_write dev path" "[op]" "disk_output disk buf err"] by (simp add: render_ops_def)
  then obtain d where "sink ?out = Some d" by blast
  then have "?out = disk_output d (buffer ?out) (error ?out)" by (intro text_output.equality) simp_all
  then show ?thesis by blast
qed

lemma write_progress:
  assumes ok: "writing_ok dev root jobs n old s" and "\<not> all_returned (wr_pool s)"
  shows "\<exists>t. write_step dev root jobs s t"
proof -
  from assms(2) obtain w where w: "w < length (workers (wr_pool s))"
    and alive: "\<not> (case workers (wr_pool s) ! w of Returned _ \<Rightarrow> True | _ \<Rightarrow> False)"
    by (auto simp: all_returned_def list_all_length)
  show ?thesis
  proof (cases "workers (wr_pool s) ! w")
    case Checking
    then show ?thesis using write_go_on[of w s] w by blast
  next
    case Claiming
    then show ?thesis using write_claim[of w s jobs] write_none_left[of w s jobs] w
      by (cases "next_job (wr_pool s) < length jobs") blast+
  next
    case (Failing e)
    then show ?thesis using write_raise[of w s e] w by blast
  next
    case (Returned r)
    with alive show ?thesis by simp
  next
    case (Rendering i)
    let ?path = "target_path root jobs i"
    from ok w Rendering have task: "task_ok dev ?path (job_render (jobs ! i)) (wr_disk s) (wr_tasks s ! w)"
      unfolding writing_ok_def tasks_ok_def by blast
    show ?thesis
    proof (cases "wr_tasks s ! w")
      case Idle
      with task show ?thesis by (simp add: task_ok_def)
    next
      case (Opening ops)
      then show ?thesis using write_open[of w s i ops dev root jobs] write_open_error[of w s i ops dev root jobs] w Rendering
        by (cases "dv_create dev ?path") blast+
    next
      case (Writing ops buf err)
      show ?thesis
      proof (cases ops)
        case Nil
        obtain r d where fin: "finish (disk_write dev ?path) (disk_output (wr_disk s) buf err) = (r, Some d)"
          using finish_disk by blast
        show ?thesis
        proof (cases r)
          case (Inl e)
          with fin Nil Writing w Rendering show ?thesis
            using write_error[of w s i buf err dev root jobs r d e] by blast
        next
          case (Inr u)
          with fin Nil Writing w Rendering show ?thesis
            using write_done[of w s i buf err dev root jobs d] write_error[of w s i buf err dev root jobs r d]
            by (cases "dv_flush dev ?path") auto
        qed
      next
        case (Cons op rest)
        obtain d b e where "write_one (disk_write dev ?path) op (disk_output (wr_disk s) buf err) = disk_output d b e"
          using write_one_disk by blast
        with Cons Writing w Rendering show ?thesis
          using write_some[of w s i op rest buf err dev root jobs b d e] by blast
      qed
    qed
  qed
qed

lemma relpowp_write_reachable:
  "(write_step dev root jobs ^^ k) (write_start n disk) s \<Longrightarrow> write_reachable dev root jobs n disk s"
  by (induction k arbitrary: s) (auto intro: write_reachable.intros)

lemma writing_lengths: "writing_ok dev root jobs n old s \<Longrightarrow> length (wr_tasks s) = length (workers (wr_pool s))"
  using pool_invariant unfolding writing_ok_def by metis

lemma write_steps_bounded:
  fixes dev :: "'e device"
  assumes "(write_step dev root jobs ^^ k) (write_start n disk) s" and "paths_differ root jobs"
  shows "k + write_work jobs s \<le> write_work jobs (write_start n disk :: 'e writing)"
  using assms(1)
proof (induction k arbitrary: s)
  case (Suc k)
  then obtain r where r: "(write_step dev root jobs ^^ k) (write_start n disk) r" and step: "write_step dev root jobs r s"
    by auto
  from writing_lengths[OF write_reachable_ok[OF relpowp_write_reachable[OF r] assms(2)]] write_step_work[OF step]
  have "write_work jobs s < write_work jobs r" by blast
  with Suc.IH[OF r] show ?case by linarith
qed simp

lemma write_start_work: "write_work jobs (write_start n disk) = sum_list (map (\<lambda>job. length (job_render job) + 4) jobs) + 2 * n"
proof -
  have "(\<Sum>i = 0..<length jobs. job_work jobs i) = sum_list (map (\<lambda>job. length (job_render job) + 4) jobs)"
    by (simp add: job_work_def sum_list_sum_nth)
  then show ?thesis by (simp add: write_work_def write_start_def pool_start_def)
qed

text \<open>Some run ends, so \<open>write_files\<close> returns.\<close>

lemma write_run_ends:
  assumes "write_reachable dev root jobs n disk s" and differ: "paths_differ root jobs"
  shows "\<exists>t. write_reachable dev root jobs n disk t \<and> all_returned (wr_pool t)"
  using assms(1)
proof (induction "write_work jobs s" arbitrary: s rule: less_induct)
  case less
  note ok = write_reachable_ok[OF less.prems differ]
  show ?case
  proof (cases "all_returned (wr_pool s)")
    case True
    with less.prems show ?thesis by blast
  next
    case False
    from write_progress[OF ok this] obtain t where step: "write_step dev root jobs s t" by blast
    from less.hyps[OF write_step_work[OF step writing_lengths[OF ok]] write_next[OF less.prems step]] show ?thesis .
  qed
qed

lemma create_directories_error:
  "create_directories dev directories = Inl e \<Longrightarrow> \<exists>d \<in> set directories. dv_directory dev d = Some e"
  by (induction directories) (auto split: option.splits if_splits)

text \<open>The errors of \<open>write_files\<close> are those of a directory or of a file of the package.\<close>

definition package_error :: "'e device \<Rightarrow> string \<Rightarrow> write_op list file_job list \<Rightarrow> 'e \<Rightarrow> bool" where
  "package_error dev root jobs e \<longleftrightarrow>
     list_ex (\<lambda>d. dv_directory dev d = Some e) (package_directories root jobs) \<or>
     list_ex (\<lambda>job. job_outcome dev (file_path root (job_path job)) (job_render job) = Inl e) jobs"

lemma write_files_error_from:
  assumes "write_files dev cores jobs root old (Inl e) disk" and differ: "paths_differ root jobs"
  shows "package_error dev root jobs e"
proof (cases "create_directories dev (package_directories root jobs)")
  case (Inl d)
  with assms(1) create_directories_error[OF Inl] show ?thesis
    by (auto simp: write_files_def package_error_def list_ex_iff)
next
  case (Inr u)
  let ?jobs = "largest_first jobs"
  from assms(1) Inr obtain s where s: "write_reachable dev root ?jobs (worker_count cores (length jobs)) old s"
    and err: "pool_result (wr_pool s) = Inl e" by (auto simp: write_files_def)
  from differ have "paths_differ root ?jobs" by (simp add: paths_differ_largest)
  from write_reachable_ok[OF s this] have
    "pool_reachable (worker_count cores (length jobs)) (length ?jobs) (outcomes dev root ?jobs) (wr_pool s)"
    by (simp add: writing_ok_def)
  from finished_run_error[OF this err] obtain i where i: "i < length ?jobs" "outcomes dev root ?jobs i = Inl e" by blast
  moreover have "?jobs ! i \<in> set jobs"
    using nth_mem[OF i(1)] arg_cong[OF mset_largest_first[of jobs], of set_mset] by simp
  ultimately show ?thesis unfolding package_error_def list_ex_iff by blast
qed

lemma write_files_returns:
  assumes "paths_differ root jobs"
  shows "\<exists>r disk. write_files dev cores jobs root old r disk"
proof (cases "create_directories dev (package_directories root jobs)")
  case (Inr u)
  from write_run_ends[OF write_start] assms obtain t where
    "write_reachable dev root (largest_first jobs) (worker_count cores (length jobs)) old t" "all_returned (wr_pool t)"
    unfolding paths_differ_largest[of root jobs, symmetric] by blast
  with Inr show ?thesis by (auto simp: write_files_def)
qed (auto simp: write_files_def)

text \<open>A device without errors.\<close>

definition faultless :: "'e device \<Rightarrow> bool" where
  "faultless dev \<longleftrightarrow> dv_directory dev = (\<lambda>_. None) \<and> dv_create dev = (\<lambda>_. None) \<and>
     dv_fault dev = (\<lambda>_ _. None) \<and> dv_flush dev = (\<lambda>_. None)"

lemma faultless_outcome:
  assumes "faultless dev"
  shows "job_outcome dev path ops = Inr ()"
proof -
  have flush: "error out = None \<Longrightarrow> error (flush_buffer (file_write (\<lambda>_. None)) out) = None"
    for out :: "(string, 'a) text_output"
    by (simp add: flush_buffer_def file_write_def split: option.splits)
  have "error out = None \<Longrightarrow> error (render_ops (file_write (\<lambda>_. None)) ops out) = None"
    for out :: "(string, 'a) text_output"
  proof (induction ops arbitrary: out)
    case (Cons op ops)
    then have "error (write_one (file_write (\<lambda>_. None)) op out) = None"
      by (cases op) (simp_all add: push_str_def push_character_def Let_def flush)
    from Cons.IH[OF this] show ?case by (simp add: render_ops_def)
  qed (simp add: render_ops_def)
  from flush[OF this[of "streaming []"]] assms show ?thesis
    by (simp add: job_outcome_def finish_def faultless_def streaming_def Let_def)
qed

lemma faultless_written:
  assumes "faultless dev" and differ: "paths_differ root jobs"
  shows "\<exists>disk. write_files dev cores jobs root old (Inr ()) disk"
proof -
  obtain r disk where run: "write_files dev cores jobs root old r disk"
    using write_files_returns[OF differ] by blast
  have none: "\<not> package_error dev root jobs e" for e
    using assms(1) by (simp add: package_error_def faultless_outcome list_ex_iff) (simp add: faultless_def)
  show ?thesis
  proof (cases r)
    case (Inl e)
    from write_files_error_from[OF run[unfolded Inl] differ] none show ?thesis by blast
  next
    case (Inr u)
    with run show ?thesis by auto
  qed
qed

section \<open>Properties\<close>

text \<open>C16. Writing a package of files with different paths, on any number of threads and in any
  interleaving of their writes: without an error the disk holds each file's whole text and is
  otherwise as it was; an error is that of a directory or of a file of the package, and then each
  of its files is as it was or holds the beginning of its text, and no other file has changed.\<close>

theorem written_files:
  assumes "write_files dev cores jobs root old r disk" and "paths_differ root jobs"
  shows "case r of
      Inr _ \<Rightarrow> disk = old ++ map_of (package_text root jobs)
    | Inl e \<Rightarrow> package_error dev root jobs e \<and> partly_written root jobs old disk"
  using write_files_ok[of dev cores jobs root old _ disk] write_files_error[of dev cores jobs root old _ disk]
    write_files_error_from[of dev cores jobs root old _ disk] assms
  by (auto split: sum.splits)

definition sample_device :: "string device" where
  "sample_device = \<lparr>dv_directory = (\<lambda>_. None), dv_create = (\<lambda>_. None), dv_fault = (\<lambda>_ _. None), dv_flush = (\<lambda>_. None)\<rparr>"

definition sample_jobs :: "write_op list file_job list" where
  "sample_jobs =
     [\<lparr>job_path = ''README.md'', job_weight = 0, job_render = [WriteStr ''# Demo'']\<rparr>,
      \<lparr>job_path = ''src/Demo.purs'', job_weight = 7, job_render = [WriteStr ''module '', WriteChar ''D'']\<rparr>]"

lemma sample_differ: "paths_differ ''out'' sample_jobs"
  by (simp add: paths_differ_def sample_jobs_def) code_simp

lemma sample_faultless: "faultless sample_device"
  by (simp add: faultless_def sample_device_def)

lemma written_files_witness:
  "\<exists>disk. write_files sample_device 4 sample_jobs ''out'' Map.empty (Inr ()) disk \<and>
     disk (components ''out/README.md'') = Some ''# Demo'' \<and> disk (components ''out/src/Demo.purs'') = Some ''module D''"
proof -
  obtain disk where run: "write_files sample_device 4 sample_jobs ''out'' Map.empty (Inr ()) disk"
    using faultless_written[OF sample_faultless sample_differ] by blast
  from written_files[OF this sample_differ] have "disk = Map.empty ++ map_of (package_text ''out'' sample_jobs)" by simp
  moreover have "components ''out/src/Demo.purs'' \<noteq> components ''out/README.md''" by code_simp
  ultimately have "disk (components ''out/README.md'') = Some ''# Demo''" "disk (components ''out/src/Demo.purs'') = Some ''module D''"
    by (simp_all add: package_text_def sample_jobs_def path_join_def is_absolute_def rendered_text_def)
  with run show ?thesis by blast
qed

text \<open>C19. Writing a package always ends: no run takes more steps than the pieces of text of its files,
  four more for each file and two for each thread, and until every thread has returned some step
  can be taken.\<close>

theorem writing_terminates:
  assumes "(write_step dev root jobs ^^ k) (write_start n disk) s" and "paths_differ root jobs"
  shows "k \<le> sum_list (map (\<lambda>job. length (job_render job) + 4) jobs) + 2 * n \<and>
    (all_returned (wr_pool s) \<or> (\<exists>t. write_step dev root jobs s t))"
  using write_steps_bounded[OF assms] write_progress[OF write_reachable_ok[OF relpowp_write_reachable[OF assms(1)] assms(2)]]
  by (auto simp: write_start_work)

lemma writing_terminates_witness: "\<exists>s. write_step sample_device ''out'' sample_jobs (write_start 2 Map.empty) s"
proof -
  have "\<not> all_returned (wr_pool (write_start 2 Map.empty :: string writing))"
    by (simp add: all_returned_def write_start_def pool_start_def numeral_2_eq_2)
  with writing_terminates[of 0 sample_device "''out''" sample_jobs 2 Map.empty "write_start 2 Map.empty"] sample_differ
  show ?thesis by simp
qed

text \<open>C20. When none of the directories and files of a package fails, writing it returns, and however its
  threads interleave it returns without an error and leaves every file whole.\<close>

theorem faultless_package_written:
  assumes "\<And>e. \<not> package_error dev root jobs e" and "paths_differ root jobs"
  shows "(\<exists>r disk. write_files dev cores jobs root old r disk) \<and>
    (\<forall>r disk. write_files dev cores jobs root old r disk \<longrightarrow> r = Inr () \<and> disk = old ++ map_of (package_text root jobs))"
proof (intro conjI allI impI)
  show "\<exists>r disk. write_files dev cores jobs root old r disk" using write_files_returns[OF assms(2)] by blast
next
  fix r disk assume run: "write_files dev cores jobs root old r disk"
  show "r = Inr ()"
  proof (cases r)
    case (Inl e)
    from write_files_error_from[OF run[unfolded Inl] assms(2)] assms(1) show ?thesis by blast
  qed simp
  then show "disk = old ++ map_of (package_text root jobs)" using write_files_ok[OF _ assms(2)] run by blast
qed

lemma faultless_package_written_witness:
  "\<exists>r disk. write_files sample_device 4 sample_jobs ''out'' Map.empty r disk"
proof -
  have "\<not> package_error sample_device ''out'' sample_jobs e" for e
    using sample_faultless by (simp add: package_error_def faultless_outcome list_ex_iff) (simp add: faultless_def)
  from faultless_package_written[OF this sample_differ] show ?thesis by blast
qed

end
