(* ===== verification/Package_Paths.thy ===== *)
theory Package_Paths
  imports Paths Emit_PureScript_Correct Emit_Lean_Correct
begin

text \<open>
  The paths of generated files. Each is plain, a sequence of names without empty parts, \<open>.\<close> and
  \<open>..\<close>, so it stays below the output directory and its text determines the file.
\<close>

section \<open>Plain paths\<close>

definition plain_path :: "string \<Rightarrow> bool" where
  "plain_path p \<longleftrightarrow> list_all (\<lambda>w. w \<noteq> [] \<and> w \<noteq> ''.'' \<and> w \<noteq> ''..'') (split_on (CHR ''/'') p)"

lemma plain_append [simp]: "plain_path (a @ CHR ''/'' # b) \<longleftrightarrow> plain_path a \<and> plain_path b"
  by (simp add: plain_path_def split_on_append_any)

lemma plain_single: "CHR ''/'' \<notin> set w \<Longrightarrow> plain_path w \<longleftrightarrow> w \<noteq> [] \<and> w \<noteq> ''.'' \<and> w \<noteq> ''..''"
  by (simp add: plain_path_def split_on_single)

lemma split_on_suffix:
  "d \<notin> set ext \<Longrightarrow> split_on d (p @ ext) = butlast (split_on d p) @ [last (split_on d p) @ ext]"
proof (induction p)
  case (Cons c p)
  obtain w ws where "split_on d p = w # ws" by (meson neq_Nil_conv split_on_nonempty)
  with Cons show ?case by (cases ws) auto
qed (simp add: split_on_single)

lemma plain_extension:
  assumes "plain_path p" and "CHR ''/'' \<notin> set ext" and "2 < length ext"
  shows "plain_path (p @ ext)"
proof -
  have "w @ ext \<noteq> []" "w @ ext \<noteq> ''.''" "w @ ext \<noteq> ''..''" for w
    using assms(3) by (auto dest!: arg_cong[where f = length])
  with assms(1,2) show ?thesis
    by (auto simp: plain_path_def split_on_suffix list_all_iff dest: in_set_butlastD)
qed

lemma plain_relative: "plain_path p \<Longrightarrow> \<not> is_absolute p"
  by (cases p) (auto simp: plain_path_def is_absolute_def)

lemma plain_body:
  assumes "plain_path p"
  shows "body_components p = map Normal (split_on (CHR ''/'') p)"
proof -
  have "concat (map part_component ws) = map Normal ws" if "list_all (\<lambda>w. w \<noteq> [] \<and> w \<noteq> ''.'' \<and> w \<noteq> ''..'') ws" for ws
    using that by (induction ws) auto
  with assms show ?thesis by (simp add: plain_path_def body_components_def)
qed

lemma plain_components:
  assumes "plain_path p"
  shows "components p = map Normal (split_on (CHR ''/'') p)"
proof -
  have "hd (split_on (CHR ''/'') p) \<noteq> ''.''"
    using assms by (cases "split_on (CHR ''/'') p") (auto simp: plain_path_def)
  then show ?thesis using plain_relative[OF assms] plain_body[OF assms] by (simp add: components_def)
qed

lemma plain_inject: "plain_path p \<Longrightarrow> plain_path q \<Longrightarrow> components p = components q \<Longrightarrow> p = q"
  by (metis plain_components join_split_on component.inject list.inj_map_strong)

text \<open>A plain path joined to a directory is found below the components of the directory.\<close>

lemma components_join:
  assumes "plain_path p"
  shows "components (path_join root p) = components root @ components p"
proof (cases "root = []")
  case True
  then show ?thesis using plain_relative[OF assms] by (simp add: path_join_def components_def is_absolute_def body_components_def)
next
  case False
  have body: "body_components (path_join root p) = body_components root @ components p"
    using body_components_join[OF plain_relative[OF assms] False] plain_components[OF assms] plain_body[OF assms] by simp
  have split: "\<exists>ws. split_on (CHR ''/'') (path_join root p) = hd (split_on (CHR ''/'') root) # ws"
  proof (cases "last root = CHR ''/''")
    case True
    with False obtain r where "root = r @ ''/''" by (metis append_butlast_last_id)
    moreover have "split_on (CHR ''/'') r \<noteq> []" by simp
    ultimately show ?thesis using plain_relative[OF assms]
      by (cases "split_on (CHR ''/'') r") (auto simp: path_join_def split_on_append_any)
  next
    case other: False
    have "split_on (CHR ''/'') root \<noteq> []" by simp
    then show ?thesis using plain_relative[OF assms] False other
      by (cases "split_on (CHR ''/'') root") (auto simp: path_join_def split_on_append_any)
  qed
  have "is_absolute (path_join root p) \<longleftrightarrow> is_absolute root"
    using plain_relative[OF assms] False by (auto simp: path_join_def is_absolute_def)
  with body split show ?thesis by (auto simp: components_def)
qed

text \<open>So it stays in the directory.\<close>

lemma normalize_names: "list_all is_name ns \<Longrightarrow> fold normalize_step ns cs = cs @ ns"
  by (induction ns arbitrary: cs) (auto elim!: is_name.elims)

lemma plain_names: "plain_path p \<Longrightarrow> list_all is_name (components p)"
  using split_on_no_sep by (fastforce simp: plain_components list_all_iff plain_path_def)

lemma plain_contained:
  assumes "is_absolute cwd" and "plain_path p"
  shows "normalize cwd (path_join root p) = normalize cwd root @ components p"
proof -
  note plain_names[OF assms(2)]
  moreover have "p \<noteq> []" using assms(2) by (auto simp: plain_path_def)
  ultimately show ?thesis
    using normalize_join[OF assms(1) plain_relative[OF assms(2)]] plain_components[OF assms(2)] plain_body[OF assms(2)]
    by (simp add: normalize_names)
qed

section \<open>Generated paths are plain\<close>

lemma split_replaced:
  assumes "CHR ''/'' \<notin> set s"
  shows "split_on (CHR ''/'') (replace_char (CHR ''.'') (CHR ''/'') s) = split_on (CHR ''.'') s"
  using assms by (induction s) (auto simp: replace_char_def split: list.splits)

lemma plain_root:
  assumes "list_all (\<lambda>segment. (case segment of [] \<Rightarrow> False | first # _ \<Rightarrow> is_ascii_uppercase first) \<and>
      list_all is_ascii_alphanumeric segment) (split_on (CHR ''.'') root)"
  shows "plain_path (replace_char (CHR ''.'') (CHR ''/'') root)"
proof -
  have plain: "\<not> is_ascii_alphanumeric (CHR ''/'')" "\<not> is_ascii_uppercase (CHR ''.'')"
    by (simp_all add: string_simps)
  have "CHR ''/'' \<notin> set w" "w \<noteq> [] \<and> w \<noteq> ''.'' \<and> w \<noteq> ''..''" if "w \<in> set (split_on (CHR ''.'') root)" for w
  proof -
    from assms that have "(case w of [] \<Rightarrow> False | first # _ \<Rightarrow> is_ascii_uppercase first) \<and> list_all is_ascii_alphanumeric w"
      by (auto simp: list_all_iff)
    then show "CHR ''/'' \<notin> set w" "w \<noteq> [] \<and> w \<noteq> ''.'' \<and> w \<noteq> ''..''"
      using plain by (cases w; auto simp: list_all_iff)+
  qed
  moreover have "set (join ''.'' ws) \<subseteq> {CHR ''.''} \<union> \<Union> (set ` set ws)" for ws :: "string list"
    by (induction ws rule: induct_list012) auto
  ultimately have "CHR ''/'' \<notin> set (join ''.'' (split_on (CHR ''.'') root))" and
    "list_all (\<lambda>w. w \<noteq> [] \<and> w \<noteq> ''.'' \<and> w \<noteq> ''..'') (split_on (CHR ''.'') root)"
    by (fastforce simp: list_all_iff)+
  then show ?thesis by (simp add: plain_path_def split_replaced join_split_on)
qed

lemma alphanumeric_no_slash: "alphanumeric name \<Longrightarrow> CHR ''/'' \<notin> set name"
  by (auto simp: alphanumeric_def list_all_iff string_simps)

lemma plain_module:
  assumes "alphanumeric name" and "CHR ''/'' \<notin> set ext" and "2 < length ext"
  shows "plain_path (name @ ext)"
  using assms alphanumeric_no_slash by (subst plain_single) (auto dest!: arg_cong[where f = length])

lemma plain_other:
  "plain_path ''provider-manifest.json'' \<and> plain_path ''README.md'' \<and> plain_path ''spago.yaml'' \<and>
   plain_path ''lean-toolchain'' \<and> plain_path ''lakefile.toml'' \<and> plain_path ''lake-manifest.json'' \<and>
   plain_path ''src'' \<and> plain_path ''Resource'' \<and> plain_path ''Data''"
  by code_simp

lemma replace_append:
  "replace_char c d (s @ t) = replace_char c d s @ replace_char c d t" "replace_char c d (c # s) = d # replace_char c d s"
  "replace_char c d [] = []"
  by (simp_all add: replace_char_def)

lemma plain_item:
  assumes "plain_path (replace_char (CHR ''.'') (CHR ''/'') root)" and "alphanumeric kind" and "kind \<noteq> []" and "alphanumeric name"
  shows "plain_path (module_path (root @ ''.'' @ kind @ ''.'' @ name))"
    and "plain_path (lean_module_path (root @ ''.'' @ kind @ ''.'' @ name))"
proof -
  have "kind \<noteq> ''.'' \<and> kind \<noteq> ''..''" using assms(2) by (auto simp: alphanumeric_def string_simps)
  with assms alphanumeric_no_slash have kind: "plain_path kind" by (simp add: plain_single)
  let ?r = "replace_char (CHR ''.'') (CHR ''/'') root"
  have path: "module_path (root @ ''.'' @ kind @ ''.'' @ name) =
      ''src'' @ CHR ''/'' # ?r @ CHR ''/'' # kind @ CHR ''/'' # name @ ''.purs''"
    and lean: "lean_module_path (root @ ''.'' @ kind @ ''.'' @ name) = ?r @ CHR ''/'' # kind @ CHR ''/'' # name @ ''.lean''"
    using assms(2,4) by (simp_all add: module_path_def lean_module_path_def alphanumeric_replace replace_append)
  show "plain_path (module_path (root @ ''.'' @ kind @ ''.'' @ name))"
    unfolding path plain_append using assms(1,4) kind plain_other plain_module[of name "''.purs''"] by auto
  show "plain_path (lean_module_path (root @ ''.'' @ kind @ ''.'' @ name))"
    unfolding lean plain_append using assms(1,4) kind plain_module[of name "''.lean''"] by auto
qed

lemma plain_provider:
  assumes "plain_path (replace_char (CHR ''.'') (CHR ''/'') root)"
  shows "plain_path (module_path (root @ ''.Provider''))" "plain_path (lean_module_path (root @ ''.Provider''))"
proof -
  let ?r = "replace_char (CHR ''.'') (CHR ''/'') root"
  have path: "module_path (root @ ''.Provider'') = ''src'' @ CHR ''/'' # ?r @ CHR ''/'' # ''Provider.purs''"
    and lean: "lean_module_path (root @ ''.Provider'') = ?r @ CHR ''/'' # ''Provider.lean''"
    by (simp_all add: module_path_def lean_module_path_def replace_char_def)
  have "plain_path ''Provider.purs'' \<and> plain_path ''Provider.lean''" by code_simp
  with assms plain_other show "plain_path (module_path (root @ ''.Provider''))" "plain_path (lean_module_path (root @ ''.Provider''))"
    unfolding path lean plain_append by auto
qed

lemma purescript_plain:
  assumes "derive_bindings_with schema strip = Inr package"
    and "package_files pretty package root digest = Inr jobs" and "job \<in> set jobs"
  shows "plain_path (job_path job)"
proof -
  have "valid_module_root root" using assms(2) by (simp add: package_files_def split: if_splits)
  then have root: "plain_path (replace_char (CHR ''.'') (CHR ''/'') root)"
    unfolding valid_module_root_def by (intro plain_root) blast
  have kinds: "alphanumeric ''Resource'' \<and> alphanumeric ''Data''" by code_simp
  have item: "plain_path (job_path job)"
    if "job \<in> set (item_jobs package root kind d items)" "alphanumeric kind" "kind \<noteq> []"
      "\<And>item. item \<in> set items \<Longrightarrow> alphanumeric (bi_public_name item)" for kind d items
    using that plain_item(1)[OF root] by (auto simp: item_jobs_def Let_def)
  have provider: "plain_path (module_path (root @ ''.Provider''))"
    using root by (rule plain_provider)
  from assms(2,3) item[OF _ kinds[THEN conjunct1]] item[OF _ kinds[THEN conjunct2]] provider derived_names(3)[OF assms(1)] plain_other show ?thesis
    by (auto simp: package_files_def text_job_def Let_def split: if_splits)
qed

lemma lean_plain:
  assumes "derive_bindings_with schema strip = Inr package"
    and "lean_package_files pretty package root digest core = Inr jobs" and "job \<in> set jobs"
  shows "plain_path (job_path job)"
proof -
  have "lean_valid_module_root root" using assms(2) by (simp add: lean_package_files_def split: if_splits)
  then have root: "plain_path (replace_char (CHR ''.'') (CHR ''/'') root)"
    unfolding lean_valid_module_root_def by (intro plain_root) blast
  have kinds: "alphanumeric ''Resource''" "alphanumeric ''Data''" by code_simp+
  have "plain_path (lean_module_path m)" if m: "m \<in> set (lean_modules package root)" for m
  proof -
    note names = derived_names(3)[OF assms(1)]
    from m consider "m = root @ ''.Provider''"
      | "\<exists>item \<in> set (bk_resources package). m = root @ ''.'' @ ''Resource'' @ ''.'' @ bi_public_name item"
      | "\<exists>item \<in> set (bk_data_sources package). m = root @ ''.'' @ ''Data'' @ ''.'' @ bi_public_name item"
      by (auto simp: lean_modules_def lean_item_module_def)
    then show ?thesis
    proof cases
      case 1
      then show ?thesis using plain_provider(2)[OF root] by simp
    next
      case 2
      then obtain item where item: "item \<in> set (bk_resources package)"
        and at: "m = root @ ''.'' @ ''Resource'' @ ''.'' @ bi_public_name item" by blast
      show ?thesis unfolding at by (rule plain_item(2)[OF root kinds(1)]) (use item names in auto)
    next
      case 3
      then obtain item where item: "item \<in> set (bk_data_sources package)"
        and at: "m = root @ ''.'' @ ''Data'' @ ''.'' @ bi_public_name item" by blast
      show ?thesis unfolding at by (rule plain_item(2)[OF root kinds(2)]) (use item names in auto)
    qed
  qed
  moreover have "plain_path (lean_module_path root)"
    using root plain_extension[of _ "''.lean''"] by (simp add: lean_module_path_def)
  moreover have "plain_path p" if "p \<in> set (other_files core)" for p
    using that plain_other by (auto simp: other_files_def split: core_dependency.splits)
  moreover have "job_path job \<in> set (map job_path jobs)" using assms(3) by simp
  ultimately show ?thesis unfolding lean_paths[OF assms(2)] by auto
qed

section \<open>Property\<close>

text \<open>C15. Every file of a package generated from a schema, of either frontend, lies below the output
  directory: no name of a resource, a data source or a module root leads out of it.\<close>

theorem generated_files_contained:
  assumes "derive_bindings_with schema strip = Inr package" and "is_absolute cwd"
    and "path \<in> (case package_files pretty package root digest of Inl _ \<Rightarrow> {} | Inr jobs \<Rightarrow> job_path ` set jobs) \<union>
      (case lean_package_files pretty package root digest core of Inl _ \<Rightarrow> {} | Inr jobs \<Rightarrow> job_path ` set jobs)"
  shows "\<exists>names. names \<noteq> [] \<and> list_all is_name names \<and>
    normalize cwd (path_join directory path) = normalize cwd directory @ names"
proof -
  from assms(3) purescript_plain[OF assms(1)] lean_plain[OF assms(1)] have plain: "plain_path path"
    by (auto split: sum.splits)
  from plain_contained[OF assms(2) this] plain_names[OF this] show ?thesis
    using split_on_nonempty by (auto simp: plain_components[OF plain])
qed

lemma generated_files_contained_witness:
  "\<exists>names. names \<noteq> [] \<and> list_all is_name names \<and>
     normalize ''/repo'' (path_join ''../out'' ''spago.yaml'') = normalize ''/repo'' ''../out'' @ names"
proof -
  let ?p = "projr (derive_bindings_with sample_provider None)"
  have "is_ok (derive_bindings_with sample_provider None)"
    by (simp only: derive_bindings_ok) code_simp
  then have package: "derive_bindings_with sample_provider None = Inr ?p" by (auto elim!: is_okE)
  have "valid_module_root ''Demo''" by code_simp
  then have "''spago.yaml'' \<in> (case package_files (\<lambda>_. []) ?p ''Demo'' ''abc'' of Inl _ \<Rightarrow> {} | Inr jobs \<Rightarrow> job_path ` set jobs)"
    by (simp add: package_files_def Let_def text_job_def)
  then show ?thesis
    by (intro generated_files_contained[OF package, of "''/repo''" "''spago.yaml''" "\<lambda>_. []" "''Demo''" "''abc''" "CorePath []" "''../out''"])
      (simp_all add: is_absolute_def)
qed

end
