(* ===== verification/Written_Package.thy ===== *)
theory Written_Package
  imports Write_Files_Correct Package_Paths
begin

text \<open>
  The packages the two emitters leave on the disk: \<open>GeneratedPackage\<close> of
  \<open>crates/binding-model/src/emit.rs\<close>, and \<open>render_package\<close> and \<open>write_package\<close> of
  \<open>crates/emit-purescript\<close> and \<open>crates/emit-lean\<close>.
\<close>

section \<open>Packages in memory\<close>

text \<open>\<open>FileJob::text\<close> pushes its contents in one piece; \<open>pieces\<close> is how a renderer cuts its text.\<close>

definition job_pieces :: "(string \<Rightarrow> write_op list) \<Rightarrow> string file_job \<Rightarrow> write_op list file_job" where
  "job_pieces pieces job = \<lparr>job_path = job_path job, job_weight = job_weight job, job_render = pieces (job_render job)\<rparr>"

definition in_memory_text :: "write_op list \<Rightarrow> string" where
  "in_memory_text ops = into_string (render_ops (\<lambda>_ s. (None :: unit option, s)) ops (in_memory :: (unit, unit) text_output))"

text \<open>\<open>GeneratedPackage::render\<close>: the files in the order of the components of their paths.\<close>

definition generated_package :: "write_op list file_job list \<Rightarrow> (string \<times> string) list" where
  "generated_package jobs =
     map snd (bm_collect (map (\<lambda>job.
       (components (job_path job), (job_path job, in_memory_text (job_render job)))) jobs))"

text \<open>\<open>fs::write\<close>, and \<open>write_to\<close>, which writes one file after the other.\<close>

definition write_whole :: "'e device \<Rightarrow> place \<Rightarrow> string \<Rightarrow> disk \<Rightarrow> ('e, unit) result \<times> disk" where
  "write_whole dev path contents disk =
     (case dv_create dev path of
        Some e \<Rightarrow> (Inl e, disk)
      | None \<Rightarrow>
          (case disk_write dev path contents (disk(path \<mapsto> [])) of
             (Some e, disk) \<Rightarrow> (Inl e, disk)
           | (None, disk) \<Rightarrow> (Inr (), disk)))"

fun write_to :: "'e device \<Rightarrow> string \<Rightarrow> (string \<times> string) list \<Rightarrow> disk \<Rightarrow> ('e, unit) result \<times> disk" where
  "write_to dev root [] disk = (Inr (), disk)"
| "write_to dev root ((path, contents) # files) disk =
     (case (case parent_components (file_path root path) of
              None \<Rightarrow> Inr () | Some directory \<Rightarrow> create_directories dev [directory]) of
        Inl e \<Rightarrow> (Inl e, disk)
      | Inr _ \<Rightarrow>
          (case write_whole dev (file_path root path) contents disk of
             (Inl e, disk) \<Rightarrow> (Inl e, disk)
           | (Inr _, disk) \<Rightarrow> write_to dev root files disk))"

section \<open>The two emitters\<close>

datatype 'e emit_error = RootRejected string | PackageIo 'e

definition render_package ::
  "(string \<Rightarrow> write_op list) \<Rightarrow> (json \<Rightarrow> string) \<Rightarrow> binding_package \<Rightarrow> string \<Rightarrow> string \<Rightarrow>
     ('e emit_error, (string \<times> string) list) result" where
  "render_package pieces pretty package module_root digest =
     (case package_files pretty package module_root digest of
        Inl (InvalidModuleRoot root) \<Rightarrow> Inl (RootRejected root)
      | Inr jobs \<Rightarrow> Inr (generated_package (map (job_pieces pieces) jobs)))"

definition io_result :: "('e, unit) result \<Rightarrow> ('e emit_error, unit) result" where
  "io_result r = (case r of Inl e \<Rightarrow> Inl (PackageIo e) | Inr _ \<Rightarrow> Inr ())"

definition write_package ::
  "'e device \<Rightarrow> nat \<Rightarrow> (string \<Rightarrow> write_op list) \<Rightarrow> (json \<Rightarrow> string) \<Rightarrow> binding_package \<Rightarrow> string \<Rightarrow> string \<Rightarrow> string \<Rightarrow>
     disk \<Rightarrow> ('e emit_error, unit) result \<Rightarrow> disk \<Rightarrow> bool" where
  "write_package dev cores pieces pretty package module_root digest root old r disk \<longleftrightarrow>
     (case package_files pretty package module_root digest of
        Inl (InvalidModuleRoot m) \<Rightarrow> r = Inl (RootRejected m) \<and> disk = old
      | Inr jobs \<Rightarrow>
          (\<exists>w. write_files dev cores (map (job_pieces pieces) jobs) root old w disk \<and> r = io_result w))"

text \<open>The jobs of a Lean package when all of its texts are rendered; \<open>None\<close> is a panic.\<close>

definition lean_jobs :: "string option file_job list \<Rightarrow> string file_job list option" where
  "lean_jobs jobs =
     those (map (\<lambda>job. map_option (\<lambda>contents.
       \<lparr>job_path = job_path job, job_weight = job_weight job, job_render = contents\<rparr>) (job_render job)) jobs)"

definition lean_render_package ::
  "(string \<Rightarrow> write_op list) \<Rightarrow> (json \<Rightarrow> string) \<Rightarrow> binding_package \<Rightarrow> string \<Rightarrow> string \<Rightarrow> core_dependency \<Rightarrow>
     ('e emit_error, (string \<times> string) list) result option" where
  "lean_render_package pieces pretty package module_root digest core =
     (case lean_package_files pretty package module_root digest core of
        Inl (InvalidLeanModuleRoot m) \<Rightarrow> Some (Inl (RootRejected m))
      | Inr jobs \<Rightarrow> map_option (\<lambda>jobs. Inr (generated_package (map (job_pieces pieces) jobs))) (lean_jobs jobs))"

definition lean_write_package ::
  "'e device \<Rightarrow> nat \<Rightarrow> (string \<Rightarrow> write_op list) \<Rightarrow> (json \<Rightarrow> string) \<Rightarrow> binding_package \<Rightarrow> string \<Rightarrow> string \<Rightarrow>
     core_dependency \<Rightarrow> string \<Rightarrow> disk \<Rightarrow> ('e emit_error, unit) result \<Rightarrow> disk \<Rightarrow> bool" where
  "lean_write_package dev cores pieces pretty package module_root digest core root old r disk \<longleftrightarrow>
     (case lean_package_files pretty package module_root digest core of
        Inl (InvalidLeanModuleRoot m) \<Rightarrow> r = Inl (RootRejected m) \<and> disk = old
      | Inr jobs \<Rightarrow>
          (case lean_jobs jobs of
             None \<Rightarrow> False
           | Some jobs \<Rightarrow>
               (\<exists>w. write_files dev cores (map (job_pieces pieces) jobs) root old w disk \<and> r = io_result w)))"

section \<open>Files below the output directory\<close>

text \<open>The files of a package as they lie below a directory.\<close>

abbreviation below :: "string \<Rightarrow> (string \<times> string) list \<Rightarrow> (place \<times> string) list" where
  "below root files \<equiv> map (\<lambda>(path, contents). (file_path root path, contents)) files"

lemma in_memory_text_rendered: "in_memory_text ops = rendered_text ops"
  unfolding in_memory_text_def by (rule in_memory_text)

lemma map_of_same_set:
  assumes "distinct (map fst m)" and "distinct (map fst n)" and "set m = set n"
  shows "map_of m = map_of n"
  using assms by (rule map_of_inject_set[THEN iffD2])

lemma package_text_below:
  assumes plain: "\<forall>job \<in> set jobs. plain_path (job_path job)" and distinct: "distinct (map job_path jobs)"
  shows "paths_differ root jobs" and "distinct (map fst (below root (generated_package jobs)))"
    and "map_of (package_text root jobs) = map_of (below root (generated_package jobs))"
proof -
  let ?files = "map (\<lambda>job. (components (job_path job), (job_path job, rendered_text (job_render job)))) jobs"
  let ?m = "bm_collect ?files"
  have inj: "inj_on components (job_path ` set jobs)"
    using plain plain_inject by (auto simp: inj_on_def)
  have keys: "distinct (map fst ?files)"
    using distinct inj by (simp add: comp_def distinct_map inj_on_def)
  have at: "file_path root (job_path job) = components root @ components (job_path job)" if "job \<in> set jobs" for job
    using that plain by (simp add: components_join)
  then have "map (\<lambda>job. file_path root (job_path job)) jobs = map (\<lambda>cs. components root @ cs) (map fst ?files)"
    by simp
  also have "distinct \<dots>" using keys by (subst distinct_map) (auto simp: inj_on_def)
  finally show differ: "paths_differ root jobs" by (simp add: paths_differ_def)
  have keys': "distinct (map fst ?m)"
    using btree_map.collect_wf[OF btree_map.wf_emp, of ?files] by (rule increasing_distinct)
  have "map_of ?m k = map_of ?files k" for k
    using keys by (simp add: btree_map.collect_get[OF btree_map.wf_emp] map_of_rev_distinct)
  then have same: "set ?m = set ?files"
    using map_of_inject_set[OF keys' keys] by blast
  have files: "generated_package jobs = map snd ?m"
    by (simp add: generated_package_def in_memory_text_rendered)
  have entry: "k = components p \<and> file_path root p = components root @ k" if "(k, p, c) \<in> set ?m" for k p c
    using that at unfolding same by auto
  have fsts: "map fst (below root (generated_package jobs)) = map (\<lambda>cs. components root @ cs) (map fst ?m)"
    using entry by (auto simp: files)
  show below: "distinct (map fst (below root (generated_package jobs)))"
    unfolding fsts using keys' by (subst distinct_map) (auto simp: inj_on_def)
  have "set (package_text root jobs) = set (below root (generated_package jobs))"
    by (simp only: files set_map same) (auto simp: package_text_def image_image)
  moreover have "distinct (map fst (package_text root jobs))"
    using differ by (simp add: map_fst_package paths_differ_def)
  ultimately show "map_of (package_text root jobs) = map_of (below root (generated_package jobs))"
    using below by (intro map_of_same_set)
qed

section \<open>What is written is what is rendered\<close>

lemma job_pieces_paths: "map job_path (map (job_pieces pieces) jobs) = map job_path jobs"
  by (simp add: job_pieces_def)

lemma written_jobs_differ:
  assumes "\<forall>job \<in> set jobs. plain_path (job_path job)" and "distinct (map job_path jobs)"
  shows "paths_differ root (map (job_pieces pieces) jobs)"
    and "map_of (package_text root (map (job_pieces pieces) jobs)) =
      map_of (below root (generated_package (map (job_pieces pieces) jobs)))"
proof -
  let ?jobs = "map (job_pieces pieces) jobs"
  have "\<forall>job \<in> set ?jobs. plain_path (job_path job)" using assms(1) by (simp add: job_pieces_def)
  moreover have "distinct (map job_path ?jobs)" using assms(2) unfolding job_pieces_paths .
  ultimately show "paths_differ root ?jobs"
    and "map_of (package_text root ?jobs) = map_of (below root (generated_package ?jobs))"
    using package_text_below by blast+
qed

lemma written_jobs:
  assumes run: "write_files dev cores (map (job_pieces pieces) jobs) root old (Inr u) disk"
    and "\<forall>job \<in> set jobs. plain_path (job_path job)" and "distinct (map job_path jobs)"
  shows "disk = old ++ map_of (below root (generated_package (map (job_pieces pieces) jobs)))"
  using write_files_ok[OF run] written_jobs_differ[OF assms(2,3), of root pieces] by simp

text \<open>Writing a rendered package file by file leaves the same disk.\<close>

lemma write_whole_ok: "write_whole dev path contents disk = (Inr u, disk') \<Longrightarrow> disk' = disk(path \<mapsto> contents)"
  by (auto simp: write_whole_def disk_write_def Let_def split: option.splits)

lemma write_to_ok:
  assumes "distinct (map fst (below root files))" and "write_to dev root files disk = (Inr u, disk')"
  shows "disk' = disk ++ map_of (below root files)"
  using assms
proof (induction files arbitrary: disk)
  case (Cons f files)
  obtain path contents where f: "f = (path, contents)" by (cases f)
  from Cons.prems(2) obtain disk1 where "write_whole dev (file_path root path) contents disk = (Inr (), disk1)"
    and rest: "write_to dev root files disk1 = (Inr u, disk')"
    by (auto simp: f split: sum.splits prod.splits)
  then have disk1: "disk1 = disk(file_path root path \<mapsto> contents)" by (simp add: write_whole_ok)
  have "file_path root path \<notin> fst ` set (below root files)"
    using Cons.prems(1) by (simp add: f comp_def image_image)
  then have "map_of (below root files) (file_path root path) = None" by (simp only: map_of_eq_None_iff not_False_eq_True)
  with Cons.IH[OF _ rest] Cons.prems(1) show ?case
    by (auto simp: f disk1 map_add_def fun_eq_iff split: option.splits)
qed simp

lemma written_either_way:
  assumes "write_files dev cores (map (job_pieces pieces) jobs) root old (Inr u) disk"
    and "\<forall>job \<in> set jobs. plain_path (job_path job)" and "distinct (map job_path jobs)"
    and "write_to dev' root (generated_package (map (job_pieces pieces) jobs)) old = (Inr u, disk')"
  shows "disk' = disk"
proof -
  let ?jobs = "map (job_pieces pieces) jobs"
  have "\<forall>job \<in> set ?jobs. plain_path (job_path job)" using assms(2) by (simp add: job_pieces_def)
  then have "distinct (map fst (below root (generated_package ?jobs)))"
    using assms(3) by (intro package_text_below(2)) (simp_all only: job_pieces_paths)
  from write_to_ok[OF this assms(4)] written_jobs[OF assms(1-3)] show ?thesis by simp
qed

lemma io_result_ok: "io_result w = Inr u \<longleftrightarrow> w = Inr ()" "Inr u = io_result w \<longleftrightarrow> w = Inr ()"
  by (cases w; simp add: io_result_def)+

lemma lean_jobs_paths: "lean_jobs jobs = Some texts \<Longrightarrow> map job_path texts = map job_path jobs"
  unfolding lean_jobs_def
proof (induction jobs arbitrary: texts)
  case (Cons job jobs)
  then show ?case by (auto split: option.splits)
qed simp

lemma lean_jobs_plain:
  assumes "lean_jobs jobs = Some texts" and "\<And>job. job \<in> set jobs \<Longrightarrow> plain_path (job_path job)"
  shows "\<forall>job \<in> set texts. plain_path (job_path job)"
proof
  fix job assume "job \<in> set texts"
  then have "job_path job \<in> set (map job_path jobs)" using lean_jobs_paths[OF assms(1), symmetric] by simp
  then show "plain_path (job_path job)" using assms(2) by auto
qed

section \<open>Properties\<close>

text \<open>C17. When writing a PureScript package generated from a schema succeeds, the disk holds below the
  output directory exactly the files that rendering the package in memory gives, byte for byte,
  and is otherwise as it was.\<close>

theorem purescript_written:
  assumes "derive_bindings_with schema strip = Inr package"
    and "write_package dev cores pieces pretty package module_root digest root old (Inr ()) disk"
  shows "\<exists>files. render_package pieces pretty package module_root digest = (Inr files :: ('e emit_error, _) result) \<and>
    disk = old ++ map_of (below root files)"
proof -
  from assms(2) obtain jobs where jobs: "package_files pretty package module_root digest = Inr jobs"
    and run: "write_files dev cores (map (job_pieces pieces) jobs) root old (Inr ()) disk"
    by (auto simp: write_package_def io_result_ok split: sum.splits purescript_error.splits)
  from written_jobs[OF run] purescript_plain[OF assms(1) jobs] package_paths[OF assms(1) jobs]
  show ?thesis by (auto simp: render_package_def jobs)
qed

lemma sample_package: "derive_bindings_with sample_provider None = Inr (projr (derive_bindings_with sample_provider None))"
proof -
  have "is_ok (derive_bindings_with sample_provider None)"
    by (simp only: derive_bindings_ok) code_simp
  then show ?thesis by (auto elim!: is_okE)
qed

definition one_piece :: "string \<Rightarrow> write_op list" where
  "one_piece contents = [WriteStr contents]"

lemma purescript_written_witness:
  "\<exists>disk files. write_package sample_device 4 one_piece (\<lambda>_. []) (projr (derive_bindings_with sample_provider None)) ''Demo'' ''abc''
       ''out'' Map.empty (Inr ()) disk \<and>
     render_package one_piece (\<lambda>_. []) (projr (derive_bindings_with sample_provider None)) ''Demo'' ''abc'' =
       (Inr files :: (string emit_error, _) result) \<and>
     disk = Map.empty ++ map_of (below ''out'' files)"
proof -
  let ?p = "projr (derive_bindings_with sample_provider None)"
  have "valid_module_root ''Demo''" by code_simp
  then obtain jobs where jobs: "package_files (\<lambda>_. []) ?p ''Demo'' ''abc'' = Inr jobs"
    by (simp add: package_files_def Let_def)
  obtain disk where run: "write_files sample_device 4 (map (job_pieces one_piece) jobs) ''out'' Map.empty (Inr ()) disk"
    using faultless_written[OF sample_faultless]
      written_jobs_differ(1)[of jobs "''out''" one_piece] purescript_plain[OF sample_package jobs] package_paths[OF sample_package jobs] by blast
  then have "write_package sample_device 4 one_piece (\<lambda>_. []) ?p ''Demo'' ''abc'' ''out'' Map.empty (Inr ()) disk"
    by (auto simp: write_package_def jobs io_result_ok)
  with purescript_written[OF sample_package this] show ?thesis by blast
qed

text \<open>The same holds of a Lean package, whose texts were then all rendered without a panic.\<close>

lemma lean_written:
  assumes "derive_bindings_with schema strip = Inr package"
    and "lean_write_package dev cores pieces pretty package module_root digest core root old (Inr ()) disk"
  shows "\<exists>files. lean_render_package pieces pretty package module_root digest core =
      Some (Inr files :: ('e emit_error, _) result) \<and>
    disk = old ++ map_of (below root files)"
proof -
  from assms(2) obtain jobs texts where jobs: "lean_package_files pretty package module_root digest core = Inr jobs"
    and texts: "lean_jobs jobs = Some texts"
    and run: "write_files dev cores (map (job_pieces pieces) texts) root old (Inr ()) disk"
    by (auto simp: lean_write_package_def io_result_ok split: sum.splits lean_emit_error.splits option.splits)
  have paths: "map job_path texts = map job_path jobs" using texts by (rule lean_jobs_paths)
  from lean_jobs_plain[OF texts] lean_plain[OF assms(1) jobs] written_jobs[OF run] lean_package_paths(1)[OF assms(1) jobs] paths
  show ?thesis by (auto simp: lean_render_package_def jobs texts)
qed

text \<open>A provider without resources, whose Lean package needs no nested types.\<close>

definition bare_provider :: provider_schema where
  "bare_provider = \<lparr>ps_source = ''acme/demo'', ps_version = ''1.0'', provider_config = BlockSchema [] [],
     ps_resources = [], ps_data_sources = []\<rparr>"

abbreviation bare_package :: binding_package where
  "bare_package \<equiv> projr (derive_bindings_with bare_provider None)"

lemma bare_derived: "derive_bindings_with bare_provider None = Inr bare_package"
proof -
  have "is_ok (derive_bindings_with bare_provider None)"
    by (simp only: derive_bindings_ok) code_simp
  then show ?thesis by (auto elim!: is_okE)
qed

lemma bare_fields: "bp_fields (bk_provider bare_package) = []" "bk_resources bare_package = []" "bk_data_sources bare_package = []"
  by code_simp+

lemma lean_jobs_some: "\<forall>job \<in> set jobs. job_render job \<noteq> None \<Longrightarrow> \<exists>texts. lean_jobs jobs = Some texts"
  unfolding lean_jobs_def by (induction jobs) auto

lemma lean_written_witness:
  "\<exists>disk files. lean_write_package sample_device 4 one_piece (\<lambda>_. []) bare_package ''Demo'' ''abc'' default_core ''out''
       Map.empty (Inr ()) disk \<and>
     lean_render_package one_piece (\<lambda>_. []) bare_package ''Demo'' ''abc'' default_core =
       Some (Inr files :: (string emit_error, _) result) \<and>
     disk = Map.empty ++ map_of (below ''out'' files)"
proof -
  have "lean_valid_module_root ''Demo''" by code_simp
  then obtain jobs where jobs: "lean_package_files (\<lambda>_. []) bare_package ''Demo'' ''abc'' default_core = Inr jobs"
    by (simp add: lean_package_files_def Let_def)
  have "\<exists>s. shapes_collect [] reserved = Some s" for reserved
    by (simp add: shapes_collect_def)
  then have "\<forall>job \<in> set jobs. job_render job \<noteq> None"
    using jobs by (auto simp: lean_package_files_def lean_text_job_def lean_render_provider_def bare_fields Let_def
        split: if_splits core_dependency.splits)
  then obtain texts where texts: "lean_jobs jobs = Some texts" using lean_jobs_some by blast
  then have "\<forall>job \<in> set texts. plain_path (job_path job)"
    using lean_plain[OF bare_derived jobs] lean_jobs_plain by blast
  moreover have "distinct (map job_path texts)"
    using lean_package_paths(1)[OF bare_derived jobs] lean_jobs_paths[OF texts] by simp
  ultimately obtain disk where
    "write_files sample_device 4 (map (job_pieces one_piece) texts) ''out'' Map.empty (Inr ()) disk"
    using faultless_written[OF sample_faultless] written_jobs_differ(1)[of texts "''out''" one_piece] by blast
  then have "lean_write_package sample_device 4 one_piece (\<lambda>_. []) bare_package ''Demo'' ''abc'' default_core ''out''
      Map.empty (Inr ()) disk"
    by (auto simp: lean_write_package_def jobs texts io_result_ok)
  with lean_written[OF bare_derived this] show ?thesis by blast
qed

end
