(* ===== verification/Written_Target.thy ===== *)
theory Written_Target
  imports Written_Package Generate_Run Cli_Correct
begin

text \<open>
  \<open>write_target\<close> of \<open>crates/cli/src/main.rs\<close> down to the disk. \<open>Generate_Run\<close> hands the files of a
  target to the host in one request; here the same target is written by the emitters and their
  threads, and what is on the disk afterwards is what the request asks for.
\<close>

section \<open>Writing a target\<close>

datatype 'e target_error = NoCore | NotRendered frontend string | NotWritten string 'e

definition target_error :: "frontend_target \<Rightarrow> 'e emit_error \<Rightarrow> 'e target_error" where
  "target_error target failure =
     (case failure of
        RootRejected root \<Rightarrow> NotRendered (ft_frontend target) root
      | PackageIo e \<Rightarrow> NotWritten (ft_output target) e)"

definition target_result :: "frontend_target \<Rightarrow> ('e emit_error, unit) result \<Rightarrow> ('e target_error, unit) result" where
  "target_result target r = (case r of Inl e \<Rightarrow> Inl (target_error target e) | Inr u \<Rightarrow> Inr u)"

definition write_target_package ::
  "'e device \<Rightarrow> nat \<Rightarrow> (string \<Rightarrow> write_op list) \<Rightarrow> (json \<Rightarrow> string) \<Rightarrow> binding_package \<Rightarrow> frontend_target \<Rightarrow> string \<Rightarrow>
     disk \<Rightarrow> ('e target_error, unit) result \<Rightarrow> disk \<Rightarrow> bool" where
  "write_target_package dev cores pieces pretty bindings target digest old r disk \<longleftrightarrow>
     (case ft_frontend target of
        PureScript \<Rightarrow>
          (\<exists>w. write_package dev cores pieces pretty bindings (ft_module_root target) digest (ft_output target) old w disk \<and>
             r = target_result target w)
      | Lean \<Rightarrow>
          (case ft_lean_core target of
             None \<Rightarrow> r = Inl NoCore \<and> disk = old
           | Some core \<Rightarrow>
               (\<exists>w. lean_write_package dev cores pieces pretty bindings (ft_module_root target) digest core
                      (ft_output target) old w disk \<and> r = target_result target w)))"

section \<open>The files of the request\<close>

text \<open>A renderer writes its text, however it cuts it.\<close>

definition cuts :: "(string \<Rightarrow> write_op list) \<Rightarrow> bool" where
  "cuts pieces \<longleftrightarrow> (\<forall>s. rendered_text (pieces s) = s)"

abbreviation job_files :: "string file_job list \<Rightarrow> (string \<times> string) list" where
  "job_files jobs \<equiv> map (\<lambda>job. (job_path job, job_render job)) jobs"

lemma package_text_files:
  "cuts pieces \<Longrightarrow> package_text root (map (job_pieces pieces) jobs) = below root (job_files jobs)"
  by (simp add: package_text_def job_pieces_def cuts_def)

definition partly :: "(place \<times> string) list \<Rightarrow> disk \<Rightarrow> disk \<Rightarrow> bool" where
  "partly files old disk \<longleftrightarrow>
     (\<forall>(path, contents) \<in> set files. disk path = old path \<or> (\<exists>c rest. disk path = Some c \<and> c @ rest = contents)) \<and>
     (\<forall>q. q \<notin> fst ` set files \<longrightarrow> disk q = old q)"

text \<open>What writing jobs does to the disk, in terms of their files.\<close>

lemma written_job_files:
  assumes run: "write_files dev cores (map (job_pieces pieces) jobs) root old w disk" and cuts: "cuts pieces"
    and plain: "\<forall>job \<in> set jobs. plain_path (job_path job)" and distinct: "distinct (map job_path jobs)"
  shows "case w of Inr _ \<Rightarrow> disk = old ++ map_of (below root (job_files jobs)) | Inl _ \<Rightarrow> partly (below root (job_files jobs)) old disk"
proof -
  note differ = written_jobs_differ(1)[OF plain distinct, of root pieces]
  show ?thesis
  proof (cases w)
    case (Inl e)
    from write_files_error[OF run[unfolded Inl] differ] show ?thesis
      by (simp add: Inl partly_written_def partly_def package_text_files[OF cuts])
  next
    case (Inr u)
    from write_files_ok[OF run[unfolded Inr] differ] show ?thesis
      by (simp add: Inr package_text_files[OF cuts])
  qed
qed

lemma lean_jobs_files:
  "lean_jobs jobs = Some texts \<Longrightarrow> \<exists>ts. those (map job_render jobs) = Some ts \<and> zip (map job_path jobs) ts = job_files texts"
  unfolding lean_jobs_def
proof (induction jobs arbitrary: texts)
  case (Cons job jobs)
  then show ?case by (auto split: option.splits)
qed simp

section \<open>Property\<close>

text \<open>C18. Writing a generated target does what the command's request for its files says: when it
  succeeds, the disk holds below the target's directory the files of the request and is otherwise
  as it was; a missing core library or a rejected module root leaves the disk as it is; and after an
  error while writing, each file of the request is as it was or holds the beginning of its text.\<close>

theorem target_written:
  assumes "derive_bindings_with schema strip = Inr bindings" and "cuts pieces"
    and "write_target_package dev cores pieces (lib_pretty L) bindings target digest old r disk"
  shows "case r of
      Inr _ \<Rightarrow> (\<exists>files. target_files L bindings target digest = Inr files \<and>
        disk = old ++ map_of (below (ft_output target) files))
    | Inl NoCore \<Rightarrow> target_files L bindings target digest = Inl CoreMissing \<and> disk = old
    | Inl (NotRendered frontend root) \<Rightarrow> target_files L bindings target digest = Inl (RenderFailed frontend root) \<and> disk = old
    | Inl (NotWritten directory _) \<Rightarrow> directory = ft_output target \<and>
        (\<exists>files. target_files L bindings target digest = Inr files \<and> partly (below directory files) old disk)"
proof (cases "ft_frontend target")
  case PureScript
  with assms(3) obtain w where r: "r = target_result target w"
    and run: "write_package dev cores pieces (lib_pretty L) bindings (ft_module_root target) digest (ft_output target) old w disk"
    by (auto simp: write_target_package_def)
  show ?thesis
  proof (cases "package_files (lib_pretty L) bindings (ft_module_root target) digest")
    case (Inl e)
    with run show ?thesis
      by (cases e) (auto simp: r write_package_def target_files_def PureScript target_result_def target_error_def)
  next
    case (Inr jobs)
    with run obtain v where v: "w = io_result v"
      and "write_files dev cores (map (job_pieces pieces) jobs) (ft_output target) old v disk"
      by (auto simp: write_package_def)
    from written_job_files[OF this(2) assms(2)] purescript_plain[OF assms(1) Inr] package_paths[OF assms(1) Inr]
    show ?thesis
      by (cases v) (auto simp: r v io_result_def target_result_def target_error_def target_files_def PureScript Inr)
  qed
next
  case Lean
  show ?thesis
  proof (cases "ft_lean_core target")
    case None
    with Lean assms(3) show ?thesis by (auto simp: write_target_package_def target_files_def)
  next
    case (Some core)
    with Lean assms(3) obtain w where r: "r = target_result target w"
      and run: "lean_write_package dev cores pieces (lib_pretty L) bindings (ft_module_root target) digest core
        (ft_output target) old w disk"
      by (auto simp: write_target_package_def)
    show ?thesis
    proof (cases "lean_package_files (lib_pretty L) bindings (ft_module_root target) digest core")
      case (Inl e)
      with run show ?thesis
        by (cases e) (auto simp: r lean_write_package_def target_files_def Lean Some target_result_def target_error_def)
    next
      case (Inr jobs)
      with run obtain v texts where v: "w = io_result v" and texts: "lean_jobs jobs = Some texts"
        and "write_files dev cores (map (job_pieces pieces) texts) (ft_output target) old v disk"
        by (auto simp: lean_write_package_def split: option.splits)
      from written_job_files[OF this(3) assms(2)] lean_jobs_plain[OF texts] lean_plain[OF assms(1) Inr]
        lean_package_paths(1)[OF assms(1) Inr] lean_jobs_paths[OF texts] lean_jobs_files[OF texts]
      show ?thesis
        by (cases v) (auto simp: r v io_result_def target_result_def target_error_def target_files_def Lean Some Inr)
    qed
  qed
qed

definition sample_target :: frontend_target where
  "sample_target = \<lparr>ft_frontend = PureScript, ft_module_root = ''Demo'', ft_output = ''out'', ft_lean_core = None\<rparr>"

lemma target_written_witness:
  "\<exists>disk files. write_target_package sample_device 4 one_piece (lib_pretty sample_library)
       (projr (derive_bindings_with sample_provider None)) sample_target ''abc'' Map.empty (Inr ()) disk \<and>
     target_files sample_library (projr (derive_bindings_with sample_provider None)) sample_target ''abc'' = Inr files \<and>
     disk = Map.empty ++ map_of (below ''out'' files)"
proof -
  let ?p = "projr (derive_bindings_with sample_provider None)"
  have "valid_module_root ''Demo''" by code_simp
  then obtain jobs where jobs: "package_files (lib_pretty sample_library) ?p ''Demo'' ''abc'' = Inr jobs"
    by (simp add: package_files_def Let_def)
  obtain disk where "write_files sample_device 4 (map (job_pieces one_piece) jobs) ''out'' Map.empty (Inr ()) disk"
    using faultless_written[OF sample_faultless]
      written_jobs_differ(1)[of jobs "''out''" one_piece] purescript_plain[OF sample_package jobs]
      package_paths[OF sample_package jobs] by blast
  then have "write_package sample_device 4 one_piece (lib_pretty sample_library) ?p ''Demo'' ''abc'' ''out'' Map.empty (Inr ()) disk"
    by (auto simp: write_package_def jobs io_result_ok)
  then have run: "write_target_package sample_device 4 one_piece (lib_pretty sample_library) ?p sample_target ''abc''
      Map.empty (Inr ()) disk"
    by (auto simp: write_target_package_def sample_target_def target_result_def intro!: exI[of _ "Inr ()"])
  have "cuts one_piece" by (simp add: cuts_def one_piece_def rendered_text_def)
  from target_written[OF sample_package this run] run show ?thesis by (auto simp: sample_target_def)
qed

end
