(* ===== verification/Graph_Json_Correct.thy ===== *)
theory Graph_Json_Correct
  imports Graph_Json
begin

text \<open>
  The JSON of graph documents: encodings compare as the documents do and sort to a canonical form,
  and the pattern of addresses stands for the texts that parse.
\<close>

section \<open>Objects that compare alike\<close>

lemma json_equal_objects:
  assumes "distinct (map fst m)" and "distinct (map fst n)"
  shows "json_equal (JObject m) (JObject n) \<longleftrightarrow> (\<forall>k. rel_option json_equal (map_of m k) (map_of n k))"
proof
  assume equal: "json_equal (JObject m) (JObject n)"
  show "\<forall>k. rel_option json_equal (map_of m k) (map_of n k)"
  proof
    fix k
    show "rel_option json_equal (map_of m k) (map_of n k)"
    proof (cases "map_of m k")
      case None
      then have "k \<notin> fst ` set n" using equal by (simp add: map_of_eq_None_iff)
      then have "map_of n k = None" by (simp add: map_of_eq_None_iff)
      with None show ?thesis by simp
    next
      case (Some v)
      then have "(k, v) \<in> set m" by (rule map_of_SomeD)
      with equal Some show ?thesis by (auto simp: list_all_iff split: option.splits)
    qed
  qed
next
  assume same: "\<forall>k. rel_option json_equal (map_of m k) (map_of n k)"
  have "k \<in> fst ` set m \<longleftrightarrow> k \<in> fst ` set n" for k
    using same[rule_format, of k] unfolding map_of_eq_None_iff[of _ k, symmetric, THEN arg_cong[where f = Not], simplified]
    by (auto simp: map_of_eq_None_iff[symmetric] simp del: map_of_eq_None_iff elim!: option.rel_cases)
  then have keys: "fst ` set m = fst ` set n" by blast
  have "\<exists>u. map_of n k = Some u \<and> json_equal v u" if "(k, v) \<in> set m" for k v
  proof -
    have "map_of m k = Some v" using that assms(1) by simp
    with same[rule_format, of k] show ?thesis by (auto elim: option.rel_cases)
  qed
  then have "\<forall>(k, v) \<in> set m. case map_of n k of None \<Rightarrow> False | Some u \<Rightarrow> json_equal v u" by fastforce
  with keys show "json_equal (JObject m) (JObject n)" by (simp add: list_all_iff)
qed

lemma json_equal_arrays [simp]: "json_equal (JArray xs) (JArray ys) \<longleftrightarrow> list_all2 json_equal xs ys"
  by (auto simp: list_all2_iff list_all_iff)

lemma set_present: "(k, v) \<in> set (present fs) \<longleftrightarrow> (k, Some v) \<in> set fs"
  by (induction fs) (auto simp: present_def map_filter_simps split: option.splits)

lemma map_of_present:
  "distinct (map fst members) \<Longrightarrow> map_of (present members) k = Option.bind (map_of members k) (\<lambda>v. v)"
proof (induction members)
  case (Cons field members)
  obtain name v where field: "field = (name, v)" by (cases field)
  have "map_of members name = None" using Cons.prems by (simp add: field map_of_eq_None_iff)
  with Cons show ?case by (auto simp: field present_def map_filter_simps split: option.splits)
qed (simp add: present_def map_filter_simps)

lemma distinct_present: "distinct (map fst fs) \<Longrightarrow> distinct (map fst (present fs))"
proof (induction fs)
  case (Cons f fs)
  obtain k v where f: "f = (k, v)" by (cases f)
  have "fst ` set (present fs) \<subseteq> fst ` set fs" by (force simp: set_present)
  then show ?case using Cons by (auto simp: f present_def map_filter_simps split: option.splits)
qed (simp add: present_def map_filter_simps)

text \<open>Two objects of the same record are equal when their fields are.\<close>

lemma same_names_related:
  assumes "map fst fs = map fst gs" and "distinct (map fst fs)"
  shows "(\<forall>k. rel_option R (Option.bind (map_of fs k) (\<lambda>v. v)) (Option.bind (map_of gs k) (\<lambda>v. v))) \<longleftrightarrow>
    list_all2 (rel_option R) (map snd fs) (map snd gs)"
  using assms
proof (induction fs gs rule: list_induct2')
  case (4 f fs g gs)
  obtain k v w where f: "f = (k, v)" and g: "g = (k, w)" using 4(2) by (cases f; cases g) auto
  have none: "map_of fs k = None" "map_of gs k = None"
    using 4(2,3) by (auto simp: f g map_of_eq_None_iff simp flip: set_map)
  let ?at = "\<lambda>hs k. Option.bind (map_of hs k) (\<lambda>v. v)"
  have "(\<forall>j. rel_option R (?at (f # fs) j) (?at (g # gs) j)) \<longleftrightarrow>
      rel_option R v w \<and> (\<forall>j. j \<noteq> k \<longrightarrow> rel_option R (?at fs j) (?at gs j))"
    by (auto simp: f g)
  also have "(\<forall>j. j \<noteq> k \<longrightarrow> rel_option R (?at fs j) (?at gs j)) \<longleftrightarrow> (\<forall>j. rel_option R (?at fs j) (?at gs j))"
  proof -
    have "rel_option R (?at fs k) (?at gs k)" by (simp add: none)
    then show ?thesis by metis
  qed
  finally show ?case using 4 by (simp add: f g)
qed auto

lemma object_of_equal:
  assumes "map fst fs = map fst gs" and "distinct (map fst fs)"
  shows "json_equal (object_of fs) (object_of gs) \<longleftrightarrow> list_all2 (rel_option json_equal) (map snd fs) (map snd gs)"
  using assms same_names_related[OF assms, of json_equal]
  by (simp add: object_of_def json_equal_objects distinct_present map_of_present del: json_equal.simps)

lemma object_of_wf:
  "distinct (map fst fs) \<Longrightarrow> json_wf (object_of fs) \<longleftrightarrow> (\<forall>v \<in> set (map snd fs). case v of None \<Rightarrow> True | Some v \<Rightarrow> json_wf v)"
  using distinct_present[of fs]
  by (fastforce simp: object_of_def list_all_iff set_present split: option.splits)

text \<open>Objects of different kinds are not equal.\<close>

lemma kinds_differ:
  assumes "json_equal (object_of ((''kind'', Some (JString k)) # fs)) (object_of ((''kind'', Some (JString j)) # gs))"
  shows "k = j"
  using assms by (auto simp: object_of_def present_def map_filter_simps)

text \<open>Maps with their keys in order compare entry by entry.\<close>

lemma map_entries_equal:
  assumes "increasing (map fst m)" and "increasing (map fst n)"
  shows "json_equal (encode_map f m) (encode_map h n) \<longleftrightarrow>
    map fst m = map fst n \<and> list_all2 (\<lambda>x y. json_equal (f x) (h y)) (map snd m) (map snd n)"
    (is "?equal \<longleftrightarrow> ?entries")
proof -
  let ?m = "map (\<lambda>(k, v). (k, Some (f v))) m" and ?n = "map (\<lambda>(k, v). (k, Some (h v))) n"
  have as_object: "encode_map f' m' = object_of (map (\<lambda>(k, v). (k, Some (f' v))) m')" for f' and m' :: "(string \<times> 'x) list"
    by (induction m') (auto simp: encode_map_def object_of_def present_def map_filter_simps)
  have keys: "map fst ?m = map fst m" "map fst ?n = map fst n" by auto
  have "map fst m = map fst n" if ?equal
  proof -
    from that have "fst ` set m = fst ` set n" by (auto simp: encode_map_def image_image case_prod_beta)
    then show ?thesis using assms by (intro strict_sorted_equal) auto
  qed
  moreover have "?equal \<longleftrightarrow> list_all2 (\<lambda>x y. json_equal (f x) (h y)) (map snd m) (map snd n)" if "map fst m = map fst n"
    unfolding as_object
    by (subst object_of_equal) (use that keys assms in \<open>auto simp: increasing_distinct list_all2_map1 list_all2_map2 case_prod_beta comp_def\<close>)
  ultimately show ?thesis by blast
qed

lemma encode_map_wf:
  "increasing (map fst m) \<Longrightarrow> json_wf (encode_map f m) \<longleftrightarrow> (\<forall>v \<in> snd ` set m. json_wf (f v))"
  by (auto simp: encode_map_def list_all_iff comp_def case_prod_beta dest: increasing_distinct)

declare json_equal.simps(2) [simp del]

section \<open>Documents\<close>

text \<open>
  A document as the decoder gives it: addresses are parsed, maps have their keys in order, and no
  literal repeats a key.
\<close>

fun expr_ok :: "expr \<Rightarrow> bool" and part_ok :: "template_part \<Rightarrow> bool" where
  "expr_ok (Literal v) \<longleftrightarrow> json_wf v"
| "expr_ok (ResourceAttr a path) \<longleftrightarrow> valid_address a"
| "expr_ok (DataSourceAttr a path) \<longleftrightarrow> valid_address a"
| "expr_ok (Array items) \<longleftrightarrow> list_all expr_ok items"
| "expr_ok (Object members) \<longleftrightarrow> increasing (map fst members) \<and> list_all (\<lambda>(k, e). expr_ok e) members"
| "expr_ok (Index c k) \<longleftrightarrow> expr_ok c \<and> expr_ok k"
| "expr_ok (Attribute e name) \<longleftrightarrow> expr_ok e"
| "expr_ok (Splat e) \<longleftrightarrow> expr_ok e"
| "expr_ok (Conditional c t f) \<longleftrightarrow> expr_ok c \<and> expr_ok t \<and> expr_ok f"
| "expr_ok (Function name args) \<longleftrightarrow> list_all expr_ok args"
| "expr_ok (Template parts) \<longleftrightarrow> list_all part_ok parts"
| "expr_ok (SecretEnv name) \<longleftrightarrow> True"
| "expr_ok (UnsafeRaw raw) \<longleftrightarrow> True"
| "part_ok (TextPart s) \<longleftrightarrow> True"
| "part_ok (Interpolation e) \<longleftrightarrow> expr_ok e"

definition args_ok :: "expr btree_map \<Rightarrow> bool" where
  "args_ok m \<longleftrightarrow> increasing (map fst m) \<and> (\<forall>e \<in> snd ` set m. expr_ok e)"

definition resource_ok :: "resource_spec \<Rightarrow> bool" where
  "resource_ok r \<longleftrightarrow> args_ok (rs_arguments r) \<and> list_all valid_address (rs_depends_on r) \<and>
     (case rs_lifecycle r of None \<Rightarrow> True | Some l \<Rightarrow> list_all valid_address (replace_triggered_by l))"

definition graph_ok :: "graph_document \<Rightarrow> bool" where
  "graph_ok g \<longleftrightarrow>
     increasing (map fst (required_providers g)) \<and> increasing (map fst (outputs g)) \<and>
     (\<forall>c \<in> set (provider_configs g). args_ok (pc_arguments c)) \<and> (\<forall>r \<in> set (resources g). resource_ok r) \<and>
     (\<forall>d \<in> set (data_sources g). args_ok (ds_arguments d) \<and> list_all valid_address (ds_depends_on d)) \<and>
     (\<forall>out \<in> snd ` set (outputs g). expr_ok (os_value out)) \<and>
     (\<forall>m \<in> set (moves g). valid_address (move_from m) \<and> valid_address (move_to m)) \<and>
     (\<forall>i \<in> set (graph_imports g). valid_address (import_to i))"

lemma encode_address_equal:
  "valid_address a \<Longrightarrow> valid_address b \<Longrightarrow> json_equal (encode_address a) (encode_address b) \<longleftrightarrow> a = b"
  unfolding encode_address_def by simp (metis parse_display sum.inject(2))

text \<open>Expressions encode alike exactly when they are equal.\<close>

fun expr_kind :: "expr \<Rightarrow> string" where
  "expr_kind (Literal _) = ''literal''"
| "expr_kind (ResourceAttr _ _) = ''resource_attr''"
| "expr_kind (DataSourceAttr _ _) = ''data_source_attr''"
| "expr_kind (Array _) = ''array''"
| "expr_kind (Object _) = ''object''"
| "expr_kind (Index _ _) = ''index''"
| "expr_kind (Attribute _ _) = ''attribute''"
| "expr_kind (Splat _) = ''splat''"
| "expr_kind (Conditional _ _ _) = ''conditional''"
| "expr_kind (Function _ _) = ''function''"
| "expr_kind (Template _) = ''template''"
| "expr_kind (SecretEnv _) = ''secret_env''"
| "expr_kind (UnsafeRaw _) = ''unsafe_raw''"

lemma encoded_kind: "\<exists>fs. encode_expr e = object_of ((''kind'', Some (JString (expr_kind e))) # fs)"
  by (cases e) auto

lemma expr_equal_kind: "expr_equal e e' \<Longrightarrow> expr_kind e = expr_kind e'"
  by (cases e; cases e'; simp)

lemma of_one_kind:
  assumes "expr_kind e = expr_kind e' \<Longrightarrow> json_equal (encode_expr e) (encode_expr e') \<longleftrightarrow> expr_equal e e'"
  shows "json_equal (encode_expr e) (encode_expr e') \<longleftrightarrow> expr_equal e e'"
proof (cases "expr_kind e = expr_kind e'")
  case False
  obtain fs gs where "encode_expr e = object_of ((''kind'', Some (JString (expr_kind e))) # fs)"
    and "encode_expr e' = object_of ((''kind'', Some (JString (expr_kind e'))) # gs)"
    using encoded_kind by metis
  with False kinds_differ[of "expr_kind e" fs "expr_kind e'" gs] expr_equal_kind[of e e'] show ?thesis by metis
qed (rule assms)

definition part_equal :: "template_part \<Rightarrow> template_part \<Rightarrow> bool" where
  "part_equal p q \<longleftrightarrow>
     (case p of
        Interpolation x \<Rightarrow> (case q of Interpolation y \<Rightarrow> expr_equal x y | TextPart _ \<Rightarrow> False)
      | TextPart s \<Rightarrow> q = TextPart s)"

lemma zip_all2: "length xs = length ys \<and> list_all (\<lambda>(x, y). R x y) (zip xs ys) \<longleftrightarrow> list_all2 R xs ys"
  by (auto simp: list_all2_iff list_all_iff)

lemma expr_equal_lists [simp]:
  "expr_equal (Array xs) (Array ys) \<longleftrightarrow> list_all2 expr_equal xs ys"
  "expr_equal (Function n xs) (Function m ys) \<longleftrightarrow> n = m \<and> list_all2 expr_equal xs ys"
  "expr_equal (Object fs) (Object gs) \<longleftrightarrow> args_equal fs gs"
  "expr_equal (Template ps) (Template qs) \<longleftrightarrow> list_all2 part_equal ps qs"
  using zip_all2[of xs ys expr_equal] zip_all2[of "map snd fs" "map snd gs" expr_equal] zip_all2[of ps qs part_equal]
  by (auto simp: args_equal_def part_equal_def[abs_def] dest: map_eq_imp_length_eq)

declare expr_equal.simps(2,3,8,9) [simp del]

lemma list_all2_on:
  assumes "\<And>x y. x \<in> set xs \<Longrightarrow> y \<in> set ys \<Longrightarrow> P x y \<longleftrightarrow> Q x y"
  shows "list_all2 P xs ys \<longleftrightarrow> list_all2 Q xs ys"
  using assms by (auto simp: list_all2_conv_all_nth)

lemma array_equal:
  assumes "\<And>x y. x \<in> set xs \<Longrightarrow> y \<in> set ys \<Longrightarrow> json_equal (f x) (f y) \<longleftrightarrow> R x y"
  shows "json_equal (JArray (map f xs)) (JArray (map f ys)) \<longleftrightarrow> list_all2 R xs ys"
  using list_all2_on[of xs ys, OF assms] by (simp add: list_all2_map1 list_all2_map2)

lemma texts_equal: "json_equal (encode_texts xs) (encode_texts ys) \<longleftrightarrow> xs = ys"
  using array_equal[of xs ys JString "(=)"] by (simp add: list.rel_eq)

lemma map_equal:
  assumes "increasing (map fst m)" and "increasing (map fst n)"
    and "\<And>x y. x \<in> snd ` set m \<Longrightarrow> y \<in> snd ` set n \<Longrightarrow> json_equal (f x) (f y) \<longleftrightarrow> R x y"
  shows "json_equal (encode_map f m) (encode_map f n) \<longleftrightarrow> map fst m = map fst n \<and> list_all2 R (map snd m) (map snd n)"
  using map_entries_equal[OF assms(1,2), of f f] list_all2_on[of "map snd m" "map snd n" "\<lambda>x y. json_equal (f x) (f y)" R] assms(3)
  by simp

lemma encode_expr_equal:
  "expr_ok e \<Longrightarrow> expr_ok e' \<Longrightarrow> json_equal (encode_expr e) (encode_expr e') \<longleftrightarrow> expr_equal e e'"
  "part_ok p \<Longrightarrow> part_ok q \<Longrightarrow> json_equal (encode_part p) (encode_part q) \<longleftrightarrow> part_equal p q"
proof (induction e and p arbitrary: e' and q rule: encode_expr_encode_part.induct)
  case (4 items)
  show ?case
  proof (rule of_one_kind, cases e')
    fix ys assume e': "e' = Array ys"
    have "json_equal (JArray (map encode_expr items)) (JArray (map encode_expr ys)) \<longleftrightarrow> list_all2 expr_equal items ys"
      by (rule array_equal) (use 4 in \<open>auto simp: e' list_all_iff\<close>)
    then show ?thesis by (simp add: e' object_of_equal)
  qed simp_all
next
  case (5 fs)
  show ?case
  proof (rule of_one_kind, cases e')
    fix gs assume e': "e' = Object gs"
    have "json_equal (encode_map encode_expr fs) (encode_map encode_expr gs) \<longleftrightarrow>
        map fst fs = map fst gs \<and> list_all2 expr_equal (map snd fs) (map snd gs)"
      by (rule map_equal) (use 5 in \<open>force simp: e' list_all_iff\<close>)+
    then show ?thesis by (simp add: e' object_of_equal encode_map_def args_equal_def)
  qed simp_all
next
  case (10 name args)
  show ?case
  proof (rule of_one_kind, cases e')
    fix m ys assume e': "e' = Function m ys"
    have "json_equal (JArray (map encode_expr args)) (JArray (map encode_expr ys)) \<longleftrightarrow> list_all2 expr_equal args ys"
      by (rule array_equal) (use 10 in \<open>auto simp: e' list_all_iff\<close>)
    then show ?thesis by (simp add: e' object_of_equal)
  qed simp_all
next
  case (11 parts)
  show ?case
  proof (rule of_one_kind, cases e')
    fix qs assume e': "e' = Template qs"
    have "json_equal (JArray (map encode_part parts)) (JArray (map encode_part qs)) \<longleftrightarrow> list_all2 part_equal parts qs"
      by (rule array_equal) (use 11 in \<open>auto simp: e' list_all_iff\<close>)
    then show ?thesis by (simp add: e' object_of_equal)
  qed simp_all
next
  case (14 s)
  show ?case by (cases q) (auto simp: object_of_equal part_equal_def dest!: kinds_differ)
next
  case (15 e)
  then show ?case by (cases q) (auto simp: object_of_equal part_equal_def dest!: kinds_differ)
qed (rule of_one_kind, case_tac e'; simp add: object_of_equal encode_address_equal texts_equal del: json_equal_arrays)+

text \<open>The fields of records.\<close>

lemma text_field_equal: "rel_option json_equal (map_option JString x) (map_option JString y) \<longleftrightarrow> x = y"
  by (cases x; cases y) auto

lemma flag_field_equal: "rel_option json_equal (flag_field b) (flag_field c) \<longleftrightarrow> b = c"
  by (simp add: flag_field_def)

lemma list_field_equal:
  assumes "\<And>x y. x \<in> set xs \<Longrightarrow> y \<in> set ys \<Longrightarrow> json_equal (f x) (f y) \<longleftrightarrow> R x y"
  shows "rel_option json_equal (list_field f xs) (list_field f ys) \<longleftrightarrow> list_all2 R xs ys"
  using array_equal[of xs ys f R, OF assms] by (auto simp: list_field_def)

lemma addresses_equal:
  assumes "list_all valid_address xs" and "list_all valid_address ys"
  shows "json_equal (JArray (map encode_address xs)) (JArray (map encode_address ys)) \<longleftrightarrow> xs = ys"
    and "rel_option json_equal (list_field encode_address xs) (list_field encode_address ys) \<longleftrightarrow> xs = ys"
  using array_equal[of xs ys encode_address "(=)"] list_field_equal[of xs ys encode_address "(=)"] assms encode_address_equal
  by (auto simp: list_all_iff list.rel_eq simp del: json_equal_arrays)

lemma texts_field_equal: "rel_option json_equal (list_field JString xs) (list_field JString ys) \<longleftrightarrow> xs = ys"
  using list_field_equal[of xs ys JString "(=)"] by (simp add: list.rel_eq)

lemma args_equal_iff:
  assumes "args_ok m" and "args_ok n"
  shows "json_equal (encode_map encode_expr m) (encode_map encode_expr n) \<longleftrightarrow> args_equal m n"
  using assms map_equal[of m n encode_expr expr_equal] encode_expr_equal(1) by (auto simp: args_ok_def args_equal_def)

lemmas field_simps_equal = object_of_equal text_field_equal flag_field_equal texts_field_equal addresses_equal args_equal_iff
  encode_address_equal encode_expr_equal

lemma encode_config_equal:
  "args_ok (pc_arguments a) \<Longrightarrow> args_ok (pc_arguments b) \<Longrightarrow>
     json_equal (encode_config a) (encode_config b) \<longleftrightarrow> config_equal a b"
  by (simp add: encode_config_def config_equal_def field_simps_equal)

lemma encode_lifecycle_equal:
  "list_all valid_address (replace_triggered_by a) \<Longrightarrow> list_all valid_address (replace_triggered_by b) \<Longrightarrow>
     json_equal (encode_lifecycle a) (encode_lifecycle b) \<longleftrightarrow> a = b"
  by (cases a; cases b) (simp add: encode_lifecycle_def field_simps_equal)

lemma encode_resource_equal:
  assumes "resource_ok a" and "resource_ok b"
  shows "json_equal (encode_resource a) (encode_resource b) \<longleftrightarrow> resource_equal a b"
proof -
  have "rel_option json_equal (map_option encode_lifecycle (rs_lifecycle a)) (map_option encode_lifecycle (rs_lifecycle b)) \<longleftrightarrow>
      rs_lifecycle a = rs_lifecycle b"
    using assms encode_lifecycle_equal
    by (cases "rs_lifecycle a"; cases "rs_lifecycle b") (auto simp: resource_ok_def)
  with assms show ?thesis
    by (simp add: encode_resource_def resource_equal_def resource_ok_def field_simps_equal del: json_equal_arrays)
qed

lemma encode_data_source_equal:
  "args_ok (ds_arguments a) \<Longrightarrow> args_ok (ds_arguments b) \<Longrightarrow> list_all valid_address (ds_depends_on a) \<Longrightarrow>
     list_all valid_address (ds_depends_on b) \<Longrightarrow>
     json_equal (encode_data_source a) (encode_data_source b) \<longleftrightarrow> data_source_equal a b"
  by (simp add: encode_data_source_def data_source_equal_def field_simps_equal del: json_equal_arrays)

lemma encode_output_equal:
  "expr_ok (os_value a) \<Longrightarrow> expr_ok (os_value b) \<Longrightarrow> json_equal (encode_output a) (encode_output b) \<longleftrightarrow> output_equal a b"
  by (simp add: encode_output_def output_equal_def field_simps_equal)

lemma encode_requirement_equal: "json_equal (encode_requirement a) (encode_requirement b) \<longleftrightarrow> a = b"
  by (cases a; cases b) (simp add: encode_requirement_def object_of_equal)

lemma encode_move_equal:
  "valid_address (move_from a) \<Longrightarrow> valid_address (move_to a) \<Longrightarrow> valid_address (move_from b) \<Longrightarrow> valid_address (move_to b) \<Longrightarrow>
     json_equal (encode_move a) (encode_move b) \<longleftrightarrow> a = b"
  by (cases a; cases b) (simp add: encode_move_def field_simps_equal)

lemma encode_import_equal:
  "valid_address (import_to a) \<Longrightarrow> valid_address (import_to b) \<Longrightarrow> json_equal (encode_import a) (encode_import b) \<longleftrightarrow> a = b"
  by (cases a; cases b) (simp add: encode_import_def field_simps_equal)

lemma encode_reference_equal: "json_equal (encode_reference a) (encode_reference b) \<longleftrightarrow> a = b"
  by (cases a; cases b) (simp add: encode_reference_def object_of_equal)

text \<open>Whole documents.\<close>

lemma encode_graph_equal:
  assumes g: "graph_ok g" and h: "graph_ok h"
  shows "json_equal (encode_graph g) (encode_graph h) \<longleftrightarrow> graph_equal g h"
proof -
  note ok = g[unfolded graph_ok_def] h[unfolded graph_ok_def]
  have requirements: "json_equal (encode_map encode_requirement (required_providers g)) (encode_map encode_requirement (required_providers h))
      \<longleftrightarrow> required_providers g = required_providers h"
    using ok map_equal[of "required_providers g" "required_providers h" encode_requirement "(=)"] encode_requirement_equal
    by (auto simp: list.rel_eq intro: pair_list_eqI)
  have configs: "json_equal (JArray (map encode_config (provider_configs g))) (JArray (map encode_config (provider_configs h)))
      \<longleftrightarrow> list_all2 config_equal (provider_configs g) (provider_configs h)"
    by (rule array_equal, rule encode_config_equal) (use ok in auto)
  have resources: "json_equal (JArray (map encode_resource (resources g))) (JArray (map encode_resource (resources h)))
      \<longleftrightarrow> list_all2 resource_equal (resources g) (resources h)"
    by (rule array_equal, rule encode_resource_equal) (use ok in auto)
  have data: "json_equal (JArray (map encode_data_source (data_sources g))) (JArray (map encode_data_source (data_sources h)))
      \<longleftrightarrow> list_all2 data_source_equal (data_sources g) (data_sources h)"
    by (rule array_equal, rule encode_data_source_equal) (use ok in auto)
  have outputs: "json_equal (encode_map encode_output (outputs g)) (encode_map encode_output (outputs h))
      \<longleftrightarrow> map fst (outputs g) = map fst (outputs h) \<and> list_all2 output_equal (map snd (outputs g)) (map snd (outputs h))"
    by (rule map_equal, (use ok in blast)+, rule encode_output_equal) (use ok in auto)
  have moves: "json_equal (JArray (map encode_move (moves g))) (JArray (map encode_move (moves h))) \<longleftrightarrow> list_all2 (=) (moves g) (moves h)"
    by (rule array_equal, rule encode_move_equal) (use ok in auto)
  have adopted: "rel_option json_equal (list_field encode_import (graph_imports g)) (list_field encode_import (graph_imports h))
      \<longleftrightarrow> list_all2 (=) (graph_imports g) (graph_imports h)"
    by (rule list_field_equal, rule encode_import_equal) (use ok in auto)
  have references: "rel_option json_equal (list_field encode_reference (stack_references g)) (list_field encode_reference (stack_references h))
      \<longleftrightarrow> list_all2 (=) (stack_references g) (stack_references h)"
    by (rule list_field_equal) (rule encode_reference_equal)
  show ?thesis
    unfolding encode_graph_def graph_equal_def
    by (subst object_of_equal)
      (simp_all add: requirements configs resources data outputs moves adopted references list.rel_eq del: json_equal_arrays)
qed

section \<open>Encodings are well formed\<close>

lemma encode_texts_wf: "json_wf (encode_texts xs)" "json_wf (encode_address a)"
  by (simp_all add: list_all_iff encode_address_def)

lemma encode_expr_wf: "expr_ok e \<Longrightarrow> json_wf (encode_expr e)" "part_ok p \<Longrightarrow> json_wf (encode_part p)"
proof (induction e and p rule: encode_expr_encode_part.induct)
  case (5 fs)
  then have "json_wf (encode_map encode_expr fs)" by (auto simp: encode_map_wf list_all_iff)
  then show ?case by (simp add: object_of_wf encode_map_def)
qed (auto simp: object_of_wf encode_texts_wf list_all_iff simp del: json_wf.simps(2) | simp add: object_of_wf list_all_iff)+

lemma args_wf: "args_ok m \<Longrightarrow> json_wf (encode_map encode_expr m)"
  by (auto simp: args_ok_def encode_map_wf encode_expr_wf)

lemma list_field_wf: "list_field f xs = Some v \<Longrightarrow> (\<And>x. x \<in> set xs \<Longrightarrow> json_wf (f x)) \<Longrightarrow> json_wf v"
  by (auto simp: list_field_def list_all_iff split: if_splits)

lemma encode_graph_wf:
  assumes "graph_ok g"
  shows "json_wf (encode_graph g)"
proof -
  note ok = assms[unfolded graph_ok_def]
  have flag: "flag_field b = Some v \<Longrightarrow> json_wf v" for b v by (auto simp: flag_field_def split: if_splits)
  note wf_simps = object_of_wf args_wf encode_texts_wf encode_expr_wf
  have requirement: "json_wf (encode_requirement r)" for r by (simp add: encode_requirement_def object_of_wf)
  have config: "args_ok (pc_arguments c) \<Longrightarrow> json_wf (encode_config c)" for c
    by (auto simp: encode_config_def wf_simps split: option.splits)
  have lifecycle: "json_wf (encode_lifecycle l)" for l
    by (auto simp: encode_lifecycle_def object_of_wf encode_texts_wf flag split: option.splits dest: list_field_wf flag)
  have resource: "resource_ok r \<Longrightarrow> json_wf (encode_resource r)" for r
    by (auto simp: encode_resource_def resource_ok_def wf_simps lifecycle list_all_iff split: option.splits)
  have data: "args_ok (ds_arguments d) \<Longrightarrow> json_wf (encode_data_source d)" for d
    by (auto simp: encode_data_source_def wf_simps list_all_iff split: option.splits)
  have out: "expr_ok (os_value out) \<Longrightarrow> json_wf (encode_output out)" for out
    by (auto simp: encode_output_def wf_simps split: option.splits dest: flag)
  have rest: "json_wf (encode_move m)" "json_wf (encode_import i)" "json_wf (encode_reference s)" for m i s
    by (auto simp: encode_move_def encode_import_def encode_reference_def object_of_wf encode_texts_wf)
  have arrays: "json_wf (JArray (map encode_config (provider_configs g)))" "json_wf (JArray (map encode_resource (resources g)))"
    "json_wf (JArray (map encode_data_source (data_sources g)))" "json_wf (JArray (map encode_move (moves g)))"
    using ok config resource data rest by (auto simp: list_all_iff)
  have maps: "json_wf (encode_map encode_requirement (required_providers g))" "json_wf (encode_map encode_output (outputs g))"
    using ok requirement out by (auto simp: encode_map_wf)
  have lists: "list_field encode_import (graph_imports g) = Some v \<Longrightarrow> json_wf v"
    "list_field encode_reference (stack_references g) = Some v \<Longrightarrow> json_wf v" for v
    using rest list_field_wf by blast+
  show ?thesis
    unfolding encode_graph_def
    by (subst object_of_wf) (use arrays maps lists in \<open>auto split: option.splits\<close>)
qed

section \<open>Property\<close>


definition sample_output :: "(string \<times> json) list \<Rightarrow> graph_document" where
  "sample_output m = default_graph\<lparr>outputs := [(''settings'',
     \<lparr>os_value = Literal (JObject m), os_sensitive = False, os_description = None\<rparr>)]\<rparr>"


section \<open>The pattern of addresses\<close>

text \<open>
  The JSON Schema of an address is a pattern that other programs check documents against. The
  pattern as a regular expression, with the words it stands for.
\<close>

datatype pattern = OneOf "char list" | Exactly string | Star pattern | Optional pattern | Sequence "pattern list"

fun pattern_words :: "pattern \<Rightarrow> string set" where
  "pattern_words (OneOf cs) = {[c] | c. c \<in> set cs}"
| "pattern_words (Exactly s) = {s}"
| "pattern_words (Star p) = {concat ws | ws. set ws \<subseteq> pattern_words p}"
| "pattern_words (Optional p) = insert [] (pattern_words p)"
| "pattern_words (Sequence []) = {[]}"
| "pattern_words (Sequence (p # ps)) = {v @ w | v w. v \<in> pattern_words p \<and> w \<in> pattern_words (Sequence ps)}"

definition ascii_letters :: "char list" where
  "ascii_letters = ''ABCDEFGHIJKLMNOPQRSTUVWXYZabcdefghijklmnopqrstuvwxyz''"

definition identifier_pattern :: pattern where
  "identifier_pattern = Sequence [OneOf (ascii_letters @ ''_''), Star (OneOf (ascii_letters @ ''0123456789_-''))]"

definition address_pattern :: pattern where
  "address_pattern = Sequence [Optional (Exactly ''data.''), identifier_pattern, Exactly ''.'', identifier_pattern]"

lemma ascii_letters: "c \<in> set ascii_letters \<longleftrightarrow> is_ascii_alphabetic c"
  unfolding ascii_letters_def by (cases c) (auto simp: string_simps)

lemma digits: "is_ascii_alphanumeric c \<longleftrightarrow> is_ascii_alphabetic c \<or> c \<in> set ''0123456789''"
  by (cases c) (auto simp: string_simps)

lemma star_of_one: "w \<in> pattern_words (Star (OneOf cs)) \<longleftrightarrow> set w \<subseteq> set cs"
proof
  assume "w \<in> pattern_words (Star (OneOf cs))"
  then obtain ws where "set ws \<subseteq> pattern_words (OneOf cs)" and "w = concat ws" by auto
  then show "set w \<subseteq> set cs" by (force simp: subset_iff)
next
  assume "set w \<subseteq> set cs"
  then have "set (map (\<lambda>c. [c]) w) \<subseteq> pattern_words (OneOf cs)" by auto
  moreover have "w = concat (map (\<lambda>c. [c]) w)" by simp
  ultimately show "w \<in> pattern_words (Star (OneOf cs))" unfolding pattern_words.simps(3) by blast
qed

lemma words_sequence:
  "w \<in> pattern_words (Sequence (p # q # ps)) \<longleftrightarrow> (\<exists>u v. w = u @ v \<and> u \<in> pattern_words p \<and> v \<in> pattern_words (Sequence (q # ps)))"
  "w \<in> pattern_words (Sequence [p]) \<longleftrightarrow> w \<in> pattern_words p"
  "w \<in> pattern_words (Exactly s) \<longleftrightarrow> w = s"
  "w \<in> pattern_words (Optional p) \<longleftrightarrow> w = [] \<or> w \<in> pattern_words p"
  by (auto simp del: pattern_words.simps(3))

lemma words_name:
  "w \<in> pattern_words (Sequence [OneOf first, Star (OneOf rest)]) \<longleftrightarrow> (\<exists>c v. w = c # v \<and> c \<in> set first \<and> set v \<subseteq> set rest)"
proof -
  have "w \<in> pattern_words (Sequence [OneOf first, Star (OneOf rest)]) \<longleftrightarrow>
      (\<exists>u v. w = u @ v \<and> (\<exists>c. u = [c] \<and> c \<in> set first) \<and> set v \<subseteq> set rest)"
    unfolding words_sequence star_of_one pattern_words.simps(1) by blast
  also have "\<dots> \<longleftrightarrow> (\<exists>c v. w = c # v \<and> c \<in> set first \<and> set v \<subseteq> set rest)"
    by (metis append_Cons append_Nil)
  finally show ?thesis .
qed

lemma words_identifier: "w \<in> pattern_words identifier_pattern \<longleftrightarrow> valid_identifier w"
proof -
  have "w \<in> pattern_words identifier_pattern \<longleftrightarrow>
      (\<exists>c v. w = c # v \<and> c \<in> set (ascii_letters @ ''_'') \<and> set v \<subseteq> set (ascii_letters @ ''0123456789_-''))"
    unfolding identifier_pattern_def by (rule words_name)
  moreover have "c \<in> set (ascii_letters @ ''_'') \<longleftrightarrow> c = CHR ''_'' \<or> is_ascii_alphabetic c" for c
    by (auto simp: ascii_letters)
  moreover have "c \<in> set (ascii_letters @ ''0123456789_-'') \<longleftrightarrow> c = CHR ''_'' \<or> c = CHR ''-'' \<or> is_ascii_alphanumeric c" for c
    by (auto simp: ascii_letters digits)
  ultimately have "w \<in> pattern_words identifier_pattern \<longleftrightarrow>
      (\<exists>c v. w = c # v \<and> (c = CHR ''_'' \<or> is_ascii_alphabetic c) \<and>
        (\<forall>d \<in> set v. d = CHR ''_'' \<or> d = CHR ''-'' \<or> is_ascii_alphanumeric d))"
    by (simp only: subset_iff Ball_def)
  then show ?thesis by (cases w) (simp_all add: list_all_iff)
qed

lemma words_address:
  "s \<in> pattern_words address_pattern \<longleftrightarrow>
     (\<exists>t n. valid_identifier t \<and> valid_identifier n \<and> (s = t @ ''.'' @ n \<or> s = ''data.'' @ t @ ''.'' @ n))"
proof -
  have "s \<in> pattern_words address_pattern \<longleftrightarrow>
      (\<exists>u v. s = u @ v \<and> (u = [] \<or> u = ''data.'') \<and>
        (\<exists>t x. v = t @ x \<and> valid_identifier t \<and> (\<exists>d n. x = d @ n \<and> d = ''.'' \<and> valid_identifier n)))"
    unfolding address_pattern_def words_sequence words_identifier ..
  then show ?thesis by blast
qed

lemma pattern_parses: "s \<in> pattern_words address_pattern \<longleftrightarrow> is_ok (parse_address s)"
proof
  assume "s \<in> pattern_words address_pattern"
  then obtain t n where names: "valid_identifier t" "valid_identifier n"
    and s: "s = display_address (Resource t n) \<or> s = display_address (DataSource t n)"
    by (auto simp: words_address)
  have "valid_address (Resource t n) \<and> valid_address (DataSource t n)" using names by simp
  with s parse_display have "\<exists>a. parse_address s = Inr a" by blast
  then show "is_ok (parse_address s)" by auto
next
  assume "is_ok (parse_address s)"
  then obtain a where "parse_address s = Inr a" by (auto elim: is_okE)
  then have "display_address a = s" "valid_address a" using parse_address_ok by blast+
  then show "s \<in> pattern_words address_pattern" by (cases a) (auto simp: words_address)
qed

text \<open>C32. The JSON Schema of addresses, strings of a pattern, describes exactly the values that are
  read as addresses; and an address with valid names reads back from what it is written as.\<close>

theorem address_pattern_exact:
  "(decode_address v \<noteq> None \<longleftrightarrow> (\<exists>s. v = JString s \<and> s \<in> pattern_words address_pattern)) \<and>
   (decode_address (encode_address a) = Some a \<longleftrightarrow> valid_address a)"
proof
  show "decode_address v \<noteq> None \<longleftrightarrow> (\<exists>s. v = JString s \<and> s \<in> pattern_words address_pattern)"
    by (cases v) (auto simp: decode_address_def pattern_parses is_ok_iff split: sum.splits)
  show "decode_address (encode_address a) = Some a \<longleftrightarrow> valid_address a"
    using parse_display[of a] parse_address_ok[of "display_address a" a]
    by (auto simp: decode_address_def encode_address_def split: sum.splits)
qed

end
