(* ===== verification/Graph_Equal.thy ===== *)
theory Graph_Equal
  imports Graph_Json_Correct Graph_Valid
begin

text \<open>
  What equal documents have in common. The deployment gate compares the graph that was proved with
  the graph that was compiled, up to the order of the keys of literals; here the checks, edges and
  secrets of a document are shown not to depend on its literals at all, so such graphs agree on them.
\<close>

section \<open>Documents without their literals\<close>

fun erase :: "expr \<Rightarrow> expr" and erase_part :: "template_part \<Rightarrow> template_part" where
  "erase (Literal v) = Literal JNull"
| "erase (ResourceAttr a path) = ResourceAttr a path"
| "erase (DataSourceAttr a path) = DataSourceAttr a path"
| "erase (Array items) = Array (map erase items)"
| "erase (Object members) = Object (map (\<lambda>(k, e). (k, erase e)) members)"
| "erase (Index c k) = Index (erase c) (erase k)"
| "erase (Attribute e name) = Attribute (erase e) name"
| "erase (Splat e) = Splat (erase e)"
| "erase (Conditional c t f) = Conditional (erase c) (erase t) (erase f)"
| "erase (Function name args) = Function name (map erase args)"
| "erase (Template parts) = Template (map erase_part parts)"
| "erase (SecretEnv name) = SecretEnv name"
| "erase (UnsafeRaw raw) = UnsafeRaw raw"
| "erase_part (TextPart s) = TextPart s"
| "erase_part (Interpolation e) = Interpolation (erase e)"

abbreviation erase_args :: "expr btree_map \<Rightarrow> expr btree_map" where
  "erase_args m \<equiv> map (\<lambda>(k, e). (k, erase e)) m"

definition erase_config :: "provider_config \<Rightarrow> provider_config" where
  "erase_config c = c\<lparr>pc_arguments := erase_args (pc_arguments c)\<rparr>"

definition erase_resource :: "resource_spec \<Rightarrow> resource_spec" where
  "erase_resource r = r\<lparr>rs_arguments := erase_args (rs_arguments r)\<rparr>"

definition erase_data_source :: "data_source_spec \<Rightarrow> data_source_spec" where
  "erase_data_source d = d\<lparr>ds_arguments := erase_args (ds_arguments d)\<rparr>"

definition erase_output :: "output_spec \<Rightarrow> output_spec" where
  "erase_output out = out\<lparr>os_value := erase (os_value out)\<rparr>"

definition erase_graph :: "graph_document \<Rightarrow> graph_document" where
  "erase_graph g = g\<lparr>provider_configs := map erase_config (provider_configs g), resources := map erase_resource (resources g),
     data_sources := map erase_data_source (data_sources g), outputs := map (\<lambda>(n, out). (n, erase_output out)) (outputs g)\<rparr>"

section \<open>Equal documents differ in literals only\<close>

lemma erase_args_related:
  assumes "args_equal fs gs" and "\<And>e e'. e \<in> snd ` set fs \<Longrightarrow> expr_equal e e' \<Longrightarrow> erase e = erase e'"
  shows "erase_args fs = erase_args gs"
  using assms unfolding args_equal_def
  by (induction fs gs rule: list_induct2') (auto split: prod.splits)

lemma erase_expr_equal:
  "expr_equal e e' \<Longrightarrow> erase e = erase e'" "part_equal p q \<Longrightarrow> erase_part p = erase_part q"
proof (induction e and p arbitrary: e' and q rule: erase_erase_part.induct)
  case (4 items)
  then show ?case by (cases e') (auto dest: expr_equal_kind simp: list_all2_conv_all_nth intro!: nth_equalityI)
next
  case (5 members)
  show ?case
  proof (cases e')
    case (Object gs)
    then have "args_equal members gs" using 5(2) by simp
    then have "erase_args members = erase_args gs" by (rule erase_args_related) (use 5(1) in force)
    then show ?thesis by (simp add: Object)
  qed (use 5(2) in \<open>auto dest: expr_equal_kind\<close>)
next
  case (10 name args)
  then show ?case by (cases e') (auto dest: expr_equal_kind simp: list_all2_conv_all_nth intro!: nth_equalityI)
next
  case (11 parts)
  then show ?case by (cases e') (auto dest: expr_equal_kind simp: list_all2_conv_all_nth intro!: nth_equalityI)
qed (case_tac e'; simp; fail | case_tac q; simp add: part_equal_def; fail)+

lemma erase_args_equal: "args_equal fs gs \<Longrightarrow> erase_args fs = erase_args gs"
  using erase_args_related erase_expr_equal(1) by blast

lemma map_related: "list_all2 R xs ys \<Longrightarrow> (\<And>x y. R x y \<Longrightarrow> f x = f y) \<Longrightarrow> map f xs = map f ys"
  by (induction rule: list_all2_induct) auto

lemma erase_graph_equal:
  assumes "graph_equal g h"
  shows "erase_graph g = erase_graph h"
proof -
  have "map erase_config (provider_configs g) = map erase_config (provider_configs h)"
    by (rule map_related[where R = config_equal])
      (use assms in \<open>auto simp: graph_equal_def config_equal_def erase_config_def dest: erase_args_equal\<close>)
  moreover have "map erase_resource (resources g) = map erase_resource (resources h)"
    by (rule map_related[where R = resource_equal])
      (use assms in \<open>auto simp: graph_equal_def resource_equal_def erase_resource_def dest: erase_args_equal\<close>)
  moreover have "map erase_data_source (data_sources g) = map erase_data_source (data_sources h)"
    by (rule map_related[where R = data_source_equal])
      (use assms in \<open>auto simp: graph_equal_def data_source_equal_def erase_data_source_def dest: erase_args_equal\<close>)
  moreover have "map (\<lambda>(n, out). (n, erase_output out)) (outputs g) = map (\<lambda>(n, out). (n, erase_output out)) (outputs h)"
  proof -
    have entries: "map (\<lambda>(n, out). (n, erase_output out)) m = zip (map fst m) (map erase_output (map snd m))" for m
      by (induction m) auto
    have "map erase_output (map snd (outputs g)) = map erase_output (map snd (outputs h))"
      by (rule map_related[where R = output_equal])
        (use assms in \<open>auto simp: graph_equal_def output_equal_def erase_output_def dest: erase_expr_equal\<close>)
    then show ?thesis using assms by (simp add: entries graph_equal_def del: map_map)
  qed
  ultimately show ?thesis using assms by (cases g; cases h) (simp add: erase_graph_def graph_equal_def)
qed

section \<open>What does not depend on literals\<close>

lemma fold_map_cong:
  "(\<And>x s. x \<in> set xs \<Longrightarrow> f (h x) s = g x s) \<Longrightarrow> fold f (map h xs) s = fold g xs s"
  by (induction xs arbitrary: s) auto

lemma try_each_map: "try_each f (map h xs) = try_each (f \<circ> h) xs"
  by (induction xs) auto

lemma references_erase [simp]: "references (erase e) s = references e s"
  by (induction e s rule: references.induct)
    (auto intro!: fold_map_cong simp: case_prod_beta split: template_part.splits)

lemma secrets_erase [simp]: "collect_secret_environment_names (erase e) s = collect_secret_environment_names e s"
  by (induction e s rule: collect_secret_environment_names.induct)
    (auto intro!: fold_map_cong simp: case_prod_beta split: template_part.splits)

lemma structure_erase [simp]:
  "validate_expr_structure owner (erase e) = validate_expr_structure owner e"
  "(case erase_part p of Interpolation e \<Rightarrow> validate_expr_structure owner e | TextPart _ \<Rightarrow> Inr ()) =
     (case p of Interpolation e \<Rightarrow> validate_expr_structure owner e | TextPart _ \<Rightarrow> Inr ())"
proof (induction e and p rule: erase_erase_part.induct)
  case (5 members)
  then show ?case by (auto simp: try_each_map case_prod_beta intro!: try_each_cong)
qed (auto simp: try_each_map case_prod_beta cong: try_each_cong)

lemma validate_expr_erase [simp]: "validate_expr owner addresses (erase e) = validate_expr owner addresses e"
  by (simp add: validate_expr_def)

lemma values_erase [simp]: "values_of (erase_args m) = map erase (values_of m)"
  by (simp add: values_of_def case_prod_beta comp_def)

lemma parts_erase [simp]:
  "pc_provider (erase_config c) = pc_provider c" "pc_alias (erase_config c) = pc_alias c"
  "pc_arguments (erase_config c) = erase_args (pc_arguments c)"
  "resource_address (erase_resource r) = resource_address r" "rs_type (erase_resource r) = rs_type r"
  "rs_name (erase_resource r) = rs_name r" "rs_arguments (erase_resource r) = erase_args (rs_arguments r)"
  "rs_depends_on (erase_resource r) = rs_depends_on r" "rs_provider (erase_resource r) = rs_provider r"
  "rs_lifecycle (erase_resource r) = rs_lifecycle r"
  "data_source_address (erase_data_source d) = data_source_address d" "ds_type (erase_data_source d) = ds_type d"
  "ds_name (erase_data_source d) = ds_name d" "ds_arguments (erase_data_source d) = erase_args (ds_arguments d)"
  "ds_depends_on (erase_data_source d) = ds_depends_on d" "ds_provider (erase_data_source d) = ds_provider d"
  "os_value (erase_output out) = erase (os_value out)"
  by (simp_all add: erase_config_def erase_resource_def erase_data_source_def erase_output_def resource_address_def
      data_source_address_def)

lemma graph_parts_erase [simp]:
  "format_version (erase_graph g) = format_version g" "required_providers (erase_graph g) = required_providers g"
  "provider_configs (erase_graph g) = map erase_config (provider_configs g)"
  "resources (erase_graph g) = map erase_resource (resources g)"
  "data_sources (erase_graph g) = map erase_data_source (data_sources g)"
  "outputs (erase_graph g) = map (\<lambda>(n, out). (n, erase_output out)) (outputs g)"
  "moves (erase_graph g) = moves g" "graph_imports (erase_graph g) = graph_imports g"
  "stack_references (erase_graph g) = stack_references g"
  by (simp_all add: erase_graph_def)

lemma add_dependencies_erase [simp]:
  "add_dependencies owner (map erase es) targets = add_dependencies owner es targets"
  unfolding add_dependencies_def Let_def by (rule ext, rule arg_cong[where f = "fold _ _"], rule fold_map_cong) simp

lemma edges_erase: "edges (erase_graph g) = edges g"
  unfolding edges_def Let_def by (simp add: fold_map triggers_of_def comp_def)

lemma secret_names_erase: "secret_environment_names (erase_graph g) = secret_environment_names g"
proof -
  have "collect_secret_names (map erase es) = collect_secret_names es" for es
    unfolding collect_secret_names_def by (rule ext, rule fold_map_cong) simp
  moreover have "collect_secret_environment_names (erase e) = collect_secret_environment_names e" for e by (rule ext) simp
  ultimately show ?thesis
    unfolding secret_environment_names_def Let_def
    by (simp add: fold_map comp_def case_prod_beta) (simp add: values_of_def fold_map comp_def case_prod_beta)
qed

lemma enumerate_map: "enumerate n (map f xs) = map (\<lambda>(i, x). (i, f x)) (enumerate n xs)"
  by (induction xs arbitrary: n) auto

lemma insert_new_map: "insert_new c k e (map f xs) s = insert_new (c \<circ> f) (k \<circ> f) (e \<circ> f) xs s"
  by (induction xs arbitrary: s) auto

lemma validate_owner_erase [simp]: "validate_owner owner (map erase es) = validate_owner owner es"
  by (intro ext) (simp add: validate_owner_def try_each_map comp_def)

lemma triggers_erase [simp]: "validate_replacement_triggers (erase_resource r) addresses = validate_replacement_triggers r addresses"
  unfolding validate_replacement_triggers_def parts_erase ..

lemma collect_configs_erase: "collect_configs (erase_graph g) = collect_configs g"
  unfolding collect_configs_def graph_parts_erase enumerate_map insert_new_map comp_def case_prod_beta fst_conv snd_conv
    provider_address_def parts_erase ..

lemma collect_addresses_erase: "collect_addresses (erase_graph g) = collect_addresses g"
  by (simp add: collect_addresses_def insert_new_map comp_def)

lemma validate_nodes_erase: "validate_nodes (erase_graph g) = validate_nodes g"
  unfolding validate_nodes_def graph_parts_erase enumerate_map try_each_map comp_def case_prod_beta fst_conv snd_conv
    parts_erase values_erase[unfolded case_prod_beta] validate_owner_erase triggers_erase validate_expr_erase ..

lemma validate_erase: "validate (erase_graph g) = validate g"
  unfolding validate_def validate_moves_def validate_imports_def
  by (simp add: collect_configs_erase collect_addresses_erase validate_nodes_erase edges_erase)

section \<open>Property\<close>

text \<open>C3. Documents that are equal, as the deployment gate compares the proved graph with the
  compiled one, agree on everything that is checked and done about them: validation gives the same
  result, with the same error, they have the same dependency edges and they need the same secrets.\<close>

theorem equal_graphs_agree:
  assumes "graph_equal g h"
  shows "validate g = validate h \<and> edges g = edges h \<and> secret_environment_names g = secret_environment_names h"
  using erase_graph_equal[OF assms] validate_erase edges_erase secret_names_erase by metis

lemma equal_graphs_agree_witness:
  "validate (sample_output [(''b'', JNull), (''a'', JBool True)]) = validate (sample_output [(''a'', JBool True), (''b'', JNull)])"
  by (rule equal_graphs_agree[THEN conjunct1])
    (auto simp: sample_output_def default_graph_def graph_equal_def output_equal_def)

end
