(* ===== verification/Name_Maps.thy ===== *)
theory Name_Maps
  imports Shared_Names Json_Value
begin

text \<open>
  \<open>NameMap\<close> of \<open>crates/provider-schema/src/shared.rs\<close>: entries sorted by name in a shared slice. It
  stands in for a \<open>BTreeMap\<close>, and is shown to hold, look up, write and read back what that would.
\<close>

section \<open>Building and reading a map\<close>

definition name_map_new ::
  "((string \<times> 'a) list \<Rightarrow> 64 word) \<Rightarrow> (string \<times> 'a) list \<Rightarrow> (string \<times> 'a) heap \<Rightarrow> shared \<times> (string \<times> 'a) heap" where
  "name_map_new hash es h = shared_new hash (sort_unique es) h"

definition name_map_interned ::
  "((string \<times> 'a) list \<Rightarrow> 64 word) \<Rightarrow> (string \<times> 'a) list \<Rightarrow> shared list \<Rightarrow> (string \<times> 'a) heap \<Rightarrow>
     shared \<times> shared list \<times> (string \<times> 'a) heap" where
  "name_map_interned hash es vals h = intern hash (sort_unique es) vals h"

definition name_map_entries :: "(string \<times> 'a) heap \<Rightarrow> shared \<Rightarrow> (string \<times> 'a) list" where
  "name_map_entries h m = shared_deref h m"

definition name_map_len :: "(string \<times> 'a) heap \<Rightarrow> shared \<Rightarrow> nat" where
  "name_map_len h m = length (name_map_entries h m)"

definition name_map_keys :: "(string \<times> 'a) heap \<Rightarrow> shared \<Rightarrow> string list" where
  "name_map_keys h m = map fst (name_map_entries h m)"

definition name_map_values :: "(string \<times> 'a) heap \<Rightarrow> shared \<Rightarrow> 'a list" where
  "name_map_values h m = map snd (name_map_entries h m)"

text \<open>\<open>Index\<close>, which panics on a name that is not there.\<close>

definition name_map_index :: "(string \<times> 'a) heap \<Rightarrow> shared \<Rightarrow> string \<Rightarrow> 'a option" where
  "name_map_index h m name = name_map_get (name_map_entries h m) name"

section \<open>Writing and reading JSON\<close>

definition name_map_serialize :: "('a \<Rightarrow> json) \<Rightarrow> (string \<times> 'a) heap \<Rightarrow> shared \<Rightarrow> json" where
  "name_map_serialize f h m = JObject (map (\<lambda>(name, v). (name, f v)) (name_map_entries h m))"

text \<open>
  \<open>visit_map\<close> reads entry by entry and stops at the first error; \<open>invalid\<close> is the error of a value
  that is no map.
\<close>

definition name_map_deserialize ::
  "(json \<Rightarrow> 'e) \<Rightarrow> (json \<Rightarrow> ('e, 'a) result) \<Rightarrow> ((string \<times> 'a) list \<Rightarrow> 64 word) \<Rightarrow> json \<Rightarrow> (string \<times> 'a) heap \<Rightarrow>
     ('e, shared \<times> (string \<times> 'a) heap) result" where
  "name_map_deserialize invalid d hash value h =
     (case value of
        JObject es \<Rightarrow>
          and_then (try_map (\<lambda>(name, v). and_then (d v) (\<lambda>v. Inr (name, v))) es) (\<lambda>entries.
            Inr (name_map_new hash entries h))
      | _ \<Rightarrow> Inl (invalid value))"

section \<open>Property\<close>

lemma try_map_written:
  "(\<And>v. d (f v) = Inr v) \<Longrightarrow>
     try_map (\<lambda>(name, v). and_then (d v) (\<lambda>v. Inr (name, v))) (map (\<lambda>(name, v). (name, f v)) es) = Inr es"
  by (induction es) auto

lemma sort_unique_wf: "bm_wf es \<Longrightarrow> sort_unique es = es"
  using btree_map.entries_determined[of "sort_unique es" es] sort_unique_result[of es]
  by (simp add: map_of_rev_distinct increasing_distinct)

text \<open>C36. A name map is the ordered map it replaces: interned from a document's entries it holds what
  inserting them one by one leaves, is looked up as that is, and serializes as that would; two maps
  interned together share their storage exactly when they are equal, and what a map is written
  as reads back as an equal map.\<close>

theorem name_map_is_ordered_map:
  assumes "interner_ok hash vals h"
    and m: "name_map_interned hash es vals h = (m, vals1, h1)" and n: "name_map_interned hash fs vals1 h1 = (n, vals2, h2)"
    and "\<And>v. d (f v) = Inr v"
  shows "name_map_entries h2 m = bm_collect es \<and> name_map_entries h2 n = bm_collect fs \<and>
    (ptr_eq m n \<longleftrightarrow> bm_collect es = bm_collect fs) \<and>
    name_map_index h2 m k = map_of (rev es) k \<and>
    name_map_serialize f h2 m = JObject (map (\<lambda>(name, v). (name, f v)) (bm_collect es)) \<and>
    (\<exists>m' h3. name_map_deserialize invalid d hash (name_map_serialize f h2 m) h2 = Inr (m', h3) \<and> shared_eq h3 m' m)"
proof -
  note first = intern_ok[OF assms(1) m[unfolded name_map_interned_def]]
  note second = intern_ok[OF first(1) n[unfolded name_map_interned_def]]
  have in2: "m \<in> set vals2" using first(2) second(4) by blast
  have m1: "shared_ok hash h1 m" using first(1,2) by (simp add: interner_ok_def)
  obtain new where h2: "h2 = h1 @ new" using second(5) by blast
  have entries: "name_map_entries h2 m = bm_collect es" "name_map_entries h2 n = bm_collect fs"
    using first(3) second(3) shared_ok_append(2)[OF m1, of new] by (simp_all add: name_map_entries_def h2 sort_unique_collect)
  moreover have "ptr_eq m n \<longleftrightarrow> bm_collect es = bm_collect fs"
    using interned_ptr_eq[OF second(1) in2 second(2)] entries by (simp add: name_map_entries_def)
  moreover have "name_map_index h2 m k = map_of (rev es) k"
    using sort_unique_result[of es] by (simp add: name_map_index_def entries sort_unique_collect[symmetric] name_map_get_correct)
  moreover have written: "name_map_serialize f h2 m = JObject (map (\<lambda>(name, v). (name, f v)) (bm_collect es))"
    by (simp add: name_map_serialize_def entries)
  moreover have "\<exists>m' h3. name_map_deserialize invalid d hash (name_map_serialize f h2 m) h2 = Inr (m', h3) \<and> shared_eq h3 m' m"
  proof -
    obtain m' h3 where new: "name_map_new hash (bm_collect es) h2 = (m', h3)" by fastforce
    note made = shared_new_ok[OF new[unfolded name_map_new_def]]
    have "sort_unique (bm_collect es) = bm_collect es"
      using sort_unique_wf sort_unique_result(1)[of es] by (simp add: sort_unique_collect)
    moreover have "shared_ok hash h3 m \<and> shared_deref h3 m = bm_collect es"
      using shared_ok_append[OF shared_ok_append(1)[OF m1, of new], of "[sort_unique (bm_collect es)]"] entries(1)
      by (auto simp: made(3) h2 name_map_entries_def)
    ultimately have "shared_eq h3 m' m" using made(1,2) by (simp add: shared_eq_iff)
    moreover have "name_map_deserialize invalid d hash (name_map_serialize f h2 m) h2 = Inr (m', h3)"
      unfolding written name_map_deserialize_def by (simp add: try_map_written[of d f, OF assms(4)] new)
    ultimately show ?thesis by blast
  qed
  ultimately show ?thesis by blast
qed

definition read_flag :: "json \<Rightarrow> (unit, bool) result" where
  "read_flag v = (case v of JBool b \<Rightarrow> Inr b | _ \<Rightarrow> Inl ())"

lemma name_map_is_ordered_map_witness:
  "case name_map_interned (\<lambda>_. 0) [(''b'', True), (''a'', False), (''b'', False)] [] [] of
     (m, vals1, h1) \<Rightarrow>
       (case name_map_interned (\<lambda>_. 0) [(''a'', False), (''b'', False)] vals1 h1 of
          (n, vals2, h2) \<Rightarrow> ptr_eq m n \<and> name_map_index h2 m ''b'' = Some False)"
proof -
  let ?es = "[(''b'', True), (''a'', False), (''b'', False)]" and ?fs = "[(''a'', False), (''b'', False)]"
  obtain m vals1 h1 where m: "name_map_interned (\<lambda>_. 0) ?es [] [] = (m, vals1, h1)" by (metis prod_cases3)
  obtain n vals2 h2 where n: "name_map_interned (\<lambda>_. 0) ?fs vals1 h1 = (n, vals2, h2)" by (metis prod_cases3)
  have "interner_ok (\<lambda>_. 0) [] ([] :: (string \<times> bool) heap)" by (simp add: interner_ok_def)
  note map = name_map_is_ordered_map[OF this m n, of read_flag JBool "''b''" "\<lambda>_. ()"]
  have "bm_collect ?es = bm_collect ?fs" by code_simp
  moreover have "map_of (rev ?es) ''b'' = Some False" by code_simp
  ultimately show ?thesis using map by (simp add: read_flag_def m n)
qed

end
