(* ===== verification/Spec2Isabelle.thy ===== *)
theory Spec2Isabelle
  imports Lower_Correct Compact_Json Provider_Schema_Correct Emit_Files Cli_Correct Inspect_Correct
    Emit_PureScript_Correct Emit_Lean_Correct Commands_Correct Generate_Run_Correct
    Written_Target Graph_Equal Name_Maps
begin

text \<open>
  Inframe compiles infrastructure programs, written against generated PureScript or Lean
  bindings, to OpenTofu. A stack's program prints a graph document; the command line checks it,
  runs the stack's tests and its gate, lowers it to the JSON configuration syntax of OpenTofu and
  runs OpenTofu on it. The bindings come from provider schemas: a schema is decoded, the names
  and types of the bindings are derived from it, and an emitter writes the files of a package.
  This development models the Rust crates under \<open>src/crates\<close>.

  Theories, and the code they model:

  \<^item> \<open>Prelude\<close>, \<open>Containers\<close>: Rust's \<open>Result\<close> with its control structures, byte strings,
    \<open>BTreeSet\<close>, \<open>BTreeMap\<close> and the insertion-ordered map of \<open>serde_json\<close>. The locales
    \<open>set_interface\<close>, \<open>map_interface\<close> and \<open>ordered_map_interface\<close> state what the code
    needs of them.
  \<^item> \<open>Depth_First\<close>: depth-first search that reports a cycle, as a locale. The two searches of
    the program are instances: \<open>search_cycle\<close> in \<open>Graph_Edges\<close>, \<open>visit_stack\<close> in
    \<open>Project_Correct\<close>.
  \<^item> \<open>Json_Value\<close>, \<open>Graph_IR\<close>, \<open>Graph_Edges\<close>, \<open>Graph_Validate\<close>: \<open>crates/graph-ir\<close>.
    Addresses, expressions, documents, the checks of \<open>validate\<close>, dependency edges, secret names,
    \<open>resolve_stack_references\<close> and \<open>sort_json\<close>. \<open>Graph_Valid\<close> says what a valid document
    is without the order of the checks, proves that \<open>validate\<close> accepts exactly those, and that
    resolving references keeps a document valid.
  \<^item> \<open>Graph_Json\<close>: the JSON of graph documents, as the \<open>serde\<close> attributes of the data model ask
    for it, and the equality the gate compares graphs with. \<open>Graph_Json_Correct\<close>: the canonical JSON
    identifies a document up to that equality; the pattern of addresses in the JSON Schema.
    \<open>Graph_Equal\<close>: equal documents validate alike and have the same edges and secrets.
  \<^item> \<open>Lower\<close>: lowering in \<open>crates/opentofu\<close>. \<open>Lower_Correct\<close>: which documents lower, where
    every part of a document is found in the configuration, that literal text is escaped, and
    that the result is in canonical order.
  \<^item> \<open>Shared_Names\<close>, \<open>Compact_Json\<close>, \<open>Provider_Schema\<close>: \<open>crates/provider-schema\<close>
    (\<open>shared.rs\<close>, \<open>compact.rs\<close>, \<open>decode.rs\<close>, \<open>decode/stored.rs\<close>, \<open>lib.rs\<close>).
    Hash-consed runs live in a heap of runs and a handle is an address in it; \<open>Name_Maps\<close>: the maps
    held in such runs are the ordered maps they replace. The seeds of the
    decoder read parsed documents. \<open>Provider_Schema_Correct\<close>: a schema written out is read back,
    results are well formed, reading never runs out of steps.
  \<^item> \<open>Binding_Model\<close>: \<open>crates/binding-model/src/lib.rs\<close>, the deriver with its memo tables as
    state. \<open>Binding_Correct\<close>: the memo tables do not change the result.
  \<^item> \<open>Emit_Files\<close>: \<open>crates/binding-model/src/emit.rs\<close>, the buffered output and the worker pool
    of \<open>write_files\<close> as a step relation, one step per atomic operation of a worker.
    \<open>Write_Files\<close>: the whole function, with the directories it creates and workers that write
    piece by piece to a disk they share. \<open>Write_Files_Correct\<close>: it refines the pool of
    \<open>Emit_Files\<close>, always ends, and leaves each file whole or the first bytes of it and an error.
  \<^item> \<open>Package_Paths\<close>, \<open>Written_Package\<close>: the packages of both emitters in memory and on the disk.
    The files lie below the output directory, and what is written is what is rendered.
    \<open>Written_Target\<close> does the same for a target of the command line, against the request that
    \<open>Generate_Run\<close> makes of the host.
  \<^item> \<open>Paths\<close>, \<open>Project\<close>, \<open>Project_Run\<close>: \<open>crates/cli/src/project.rs\<close>. Lexical paths, the
    project configuration and the checks of \<open>load\<close>, the apply order of stacks; compiling,
    testing and gating a stack. \<open>Project_Correct\<close>: what a project that loads satisfies.
  \<^item> \<open>Host\<close>: child processes, files and environment variables. An action threads the history of
    requests and answers, and an answer may depend on all of the history, so a theorem about an
    action holds for every behaviour of the outside.
  \<^item> \<open>Sources\<close>: \<open>newest_source_mtime\<close> of \<open>project.rs\<close> on the listing of a directory tree; its
    loop finds the maximum of the times it can read.
  \<^item> \<open>Cli_Run\<close>: the build, test, render and lifecycle commands of \<open>crates/cli/src/main.rs\<close> with
    the workspace and processes of \<open>crates/opentofu\<close>. \<open>Cli_Correct\<close>: OpenTofu runs only after the
    checks of a stack passed, and with the credentials of its graph and no others.
  \<^item> \<open>Text_Lines\<close>, \<open>Inspect\<close>: \<open>crates/cli/src/inspect.rs\<close>, the sections and trees printed for a
    document. \<open>Inspect_Correct\<close>: the printed lines determine the tree, and every node of the
    document has its line.
  \<^item> \<open>Graph_Commands\<close>: the commands on graphs, and \<open>project init\<close>.
  \<^item> \<open>Acquire\<close>: \<open>SchemaAcquirer\<close> of \<open>crates/provider-schema/src/lib.rs\<close>, with the texts and
    the hash of a schema.
  \<^item> \<open>Generate\<close>, \<open>Generate_Run\<close>: \<open>provider generate\<close> and \<open>provider inspect\<close>: the choice of the
    providers and targets and what the options override; loading a schema from a file or from
    OpenTofu; the digest that is joined once; writing the packages of all targets.
    \<open>Generate_Run_Correct\<close>: what a successful run has written.
  \<^item> \<open>Cli_Main\<close>: the commands and the dispatch of \<open>main\<close>. \<open>Commands_Correct\<close>: which calls of
    OpenTofu a command makes, and which commands only read.
  \<^item> \<open>Emit_PureScript\<close>: \<open>crates/emit-purescript\<close>, every file of a package as its text.
    \<open>Emit_PureScript_Correct\<close>: files have different paths, and what a module exports it declares.
  \<^item> \<open>Lean_Shapes\<close>, \<open>Emit_Lean\<close>: \<open>crates/emit-lean\<close>: nested types collected into a table of
    shared shapes, and every file of a package as its text. \<open>Lean_Shapes_Correct\<close>: types are
    declared before they are used and are found where they are used. \<open>Emit_Lean_Correct\<close>: the
    proof obligations of argument records, contained comments, literals that read back, complete
    packages. Both \<open>_Correct\<close> theories of the emitters end in evaluated clashes of generated names.

  How the parts meet: \<open>generate_one\<close> loads a schema with \<open>Acquire\<close> and \<open>Provider_Schema\<close>, derives
  with \<open>Binding_Model\<close> and renders with the emitters; \<open>run_graph\<close> builds and checks with
  \<open>Project_Run\<close>, resolves and validates with \<open>Graph_IR\<close> and \<open>Graph_Validate\<close>, and lowers with
  \<open>Lower\<close>. The files of a package are one request of \<open>Host\<close>; how its threads write them, and what
  they leave on the disk when one fails, is the subject of \<open>Write_Files\<close>, and \<open>Written_Target\<close> shows
  that this is what the request says.

  Recursion is structural or has a measure everywhere; no definition takes fuel. The search of
  \<open>search_cycle\<close> ends because a node on the path is never entered again (\<open>visited\<close> and
  \<open>path\<close> grow), that of \<open>visit_stack\<close> because the path only holds stacks that were built. The
  indices of \<open>Lean_Shapes\<close> are 32-bit words: a table that outgrows them has no text, which is the
  panic of the code.

  Parameters, for code that is not in the repository: the JSON parser and printer, the derived
  decoders of graph documents and normalized schemas, the JSON Schema of \<open>schemars\<close>, the TOML
  decoder, the Unicode tables of the standard library, the hash functions, the display of an exit
  status, the working directory. Theorems that need more of them than
  their type say so in a hypothesis.

  Not modelled: those derived implementations, the parsing of the command line by \<open>clap\<close> and the
  wording of error messages.
\<close>

end
